(* ===== verification/Prelude.thy ===== *)
theory Prelude
  imports Main "HOL-Library.Word" "HOL-Library.Char_ord" "HOL-Library.List_Lexorder"
begin

text \<open>
  Shared ground of the development: the names of the machine types, the error values of
  \<^verbatim>\<open>errors.go\<close>, the outcome of a Go call that may return an error or panic, and the
  generic facts on lists, sums and maps that the component theories share.

  A Go \<^verbatim>\<open>string\<close> and a \<^verbatim>\<open>[]byte\<close> are both byte sequences, which is what an Isabelle
  \<open>string\<close> (a list of 8-bit characters) is.  A Go \<^verbatim>\<open>int64\<close> is a 64-bit word read with
  \<open>sint\<close>.
\<close>

section \<open>Machine types\<close>

type_synonym bytes = string
type_synonym int64 = "64 word"
type_synonym uint16 = "16 word"

text \<open>The length of a byte sequence as the \<^verbatim>\<open>int64\<close> that \<^verbatim>\<open>io.Copy\<close> returns.\<close>

definition int64_len :: "bytes \<Rightarrow> int64" where
  "int64_len b = word_of_nat (length b)"

section \<open>Fact collections\<close>

named_theorems go_lib \<open>executable facts about the modelled standard library\<close>
named_theorems store_simps \<open>functional behaviour of the metadata and content stores\<close>
named_theorems http_simps \<open>unfolding rules of the HTTP layer\<close>

section \<open>Errors\<close>

text \<open>
  The error variables of \<^verbatim>\<open>errors.go\<close>, \<^verbatim>\<open>errNoBucket\<close> of \<^verbatim>\<open>meta_store.go\<close>, the
  \<^verbatim>\<open>authError\<close> of \<^verbatim>\<open>meta_store_auth.go\<close>, and \<open>ErrExt\<close> for an error value whose text
  comes from outside the repository (the operating system, a driver, a network reader).
\<close>

datatype GoError =
    ErrProjectNotFound
  | ErrObjectNotFound
  | ErrLdapUserNotFound
  | ErrUserNotFound
  | ErrNoLdapSearchResults
  | ErrLdapSearchFailed
  | ErrHashMismatch
  | ErrSizeMismatch
  | ErrWriteS3
  | ErrNotImplemented
  | ErrMySQLNotImplemented
  | ErrMissingParams
  | ErrNoBucket
  | AuthError
  | ErrExt bytes

text \<open>The text that \<^verbatim>\<open>Error()\<close> returns, word for word from the source.\<close>

fun Error :: "GoError \<Rightarrow> bytes" where
  "Error ErrProjectNotFound = ''Project not found''"
| "Error ErrObjectNotFound = ''Object not found''"
| "Error ErrLdapUserNotFound = ''Unable to find user in LDAP''"
| "Error ErrUserNotFound = ''Unable to find user''"
| "Error ErrNoLdapSearchResults = ''No results from LDAP''"
| "Error ErrLdapSearchFailed = ''Failed searching LDAP''"
| "Error ErrHashMismatch = ''Content has does not match OID''"
| "Error ErrSizeMismatch = ''Content size does not match''"
| "Error ErrWriteS3 = ''Erred writing to S3''"
| "Error ErrNotImplemented = ''Not Implemented when using LDAP''"
| "Error ErrMySQLNotImplemented =
     ''Not Implemented when using 'bolt' or 'cassandra' meta store backend''"
| "Error ErrMissingParams = ''Missing params''"
| "Error ErrNoBucket = ''Bucket not found''"
| "Error AuthError = ''Forbidden''"
| "Error (ErrExt msg) = msg"

text \<open>
  \<^verbatim>\<open>isAuthError\<close> (\<^verbatim>\<open>server.go\<close>) asks by type assertion whether the error has an
  \<^verbatim>\<open>AuthError() bool\<close> method; only \<^verbatim>\<open>authError\<close> has one and it returns true.
\<close>

fun isAuthError :: "GoError \<Rightarrow> bool" where
  "isAuthError AuthError = True"
| "isAuthError _ = False"

lemma isAuthError_iff [simp]: "isAuthError e \<longleftrightarrow> e = AuthError"
  by (cases e) auto

section \<open>Outcomes\<close>

text \<open>
  A Go call returns a value, returns an error, or panics.  The first two are an
  \<^verbatim>\<open>error\<close> result; a panic (\<^verbatim>\<open>perror\<close>, a nil dereference) unwinds the caller.
\<close>

datatype 'a outcome = Ok 'a | Err GoError | Panic GoError

fun bind_outcome :: "'a outcome \<Rightarrow> ('a \<Rightarrow> 'b outcome) \<Rightarrow> 'b outcome" where
  "bind_outcome (Ok a) f = f a"
| "bind_outcome (Err e) f = Err e"
| "bind_outcome (Panic e) f = Panic e"

definition is_ok :: "'a outcome \<Rightarrow> bool" where
  "is_ok r = (case r of Ok _ \<Rightarrow> True | _ \<Rightarrow> False)"

lemma is_ok_simps [simp]:
  "is_ok (Ok a)" "\<not> is_ok (Err e)" "\<not> is_ok (Panic e)"
  by (simp_all add: is_ok_def)

lemma is_ok_iff: "is_ok r \<longleftrightarrow> (\<exists>a. r = Ok a)"
  by (cases r) auto

lemma bind_outcome_ok_iff:
  "bind_outcome r f = Ok b \<longleftrightarrow> (\<exists>a. r = Ok a \<and> f a = Ok b)"
  by (cases r) auto

text \<open>\<^verbatim>\<open>perror(err)\<close> (\<^verbatim>\<open>common.go\<close>): panics exactly when the error is not nil.\<close>

fun perror :: "GoError option \<Rightarrow> unit outcome" where
  "perror None = Ok ()"
| "perror (Some e) = Panic e"

text \<open>The panic of the Go runtime when a method is called on a nil pointer.\<close>

definition nil_dereference :: GoError where
  "nil_dereference = ErrExt ''invalid memory address or nil pointer dereference''"

section \<open>Generic lemmas\<close>

lemma list_all_appendD:
  "list_all P (xs @ ys) \<Longrightarrow> list_all P xs \<and> list_all P ys"
  by simp

lemma map_upd_same_dom: "k \<in> dom m \<Longrightarrow> dom (m(k \<mapsto> v)) = dom m"
  by auto

lemma in_set_takeWhile: "x \<in> set (takeWhile P xs) \<Longrightarrow> P x"
  by (induction xs) (auto split: if_splits)

lemma option_ext: "(\<And>b. x = Some b \<longleftrightarrow> y = Some b) \<Longrightarrow> x = y"
  by (cases x; cases y) auto

lemma sorted_distinct_strict:
  "sorted xs \<Longrightarrow> distinct xs \<Longrightarrow> sorted_wrt (<) xs"
  by (simp add: strict_sorted_iff)

end
