(* ===== verification/Go_Strings.thy ===== *)
theory Go_Strings
  imports Prelude
begin

text \<open>
  The functions of Go's \<^verbatim>\<open>strings\<close>, \<^verbatim>\<open>strconv\<close> and \<^verbatim>\<open>path/filepath\<close> packages that the
  server calls, on byte strings and with Go's behaviour at the edges: \<^verbatim>\<open>IndexByte\<close>
  returns -1, \<^verbatim>\<open>Split\<close> of the empty string is one empty piece, \<^verbatim>\<open>Clean\<close> resolves
  \<^verbatim>\<open>..\<close> lexically.
\<close>

section \<open>strings\<close>

definition HasPrefix :: "bytes \<Rightarrow> bytes \<Rightarrow> bool" where
  "HasPrefix s p \<longleftrightarrow> take (length p) s = p"

definition TrimPrefix :: "bytes \<Rightarrow> bytes \<Rightarrow> bytes" where
  "TrimPrefix s p = (if HasPrefix s p then drop (length p) s else s)"

definition HasSuffix :: "bytes \<Rightarrow> bytes \<Rightarrow> bool" where
  "HasSuffix s p \<longleftrightarrow> HasPrefix (rev s) (rev p)"

fun IndexByte :: "bytes \<Rightarrow> char \<Rightarrow> int" where
  "IndexByte [] c = -1"
| "IndexByte (x # xs) c =
     (if x = c then 0 else let i = IndexByte xs c in if i < 0 then -1 else i + 1)"

fun Contains :: "bytes \<Rightarrow> bytes \<Rightarrow> bool" where
  "Contains [] sub = (sub = [])"
| "Contains (x # xs) sub = (HasPrefix (x # xs) sub \<or> Contains xs sub)"

text \<open>\<^verbatim>\<open>strings.Split\<close> with a one-byte separator, the only kind the server uses.\<close>

fun SplitByte :: "char \<Rightarrow> bytes \<Rightarrow> bytes list" where
  "SplitByte c [] = [[]]"
| "SplitByte c (x # xs) =
     (if x = c then [] # SplitByte c xs
      else (case SplitByte c xs of [] \<Rightarrow> [[x]] | p # ps \<Rightarrow> (x # p) # ps))"

fun JoinByte :: "char \<Rightarrow> bytes list \<Rightarrow> bytes" where
  "JoinByte c [] = []"
| "JoinByte c [p] = p"
| "JoinByte c (p # ps) = p @ c # JoinByte c ps"

lemma HasPrefix_append [simp]: "HasPrefix (p @ s) p"
  by (simp add: HasPrefix_def)

lemma HasPrefix_iff: "HasPrefix s p \<longleftrightarrow> (\<exists>t. s = p @ t)"
  by (metis HasPrefix_def append_eq_conv_conj append_take_drop_id)

lemma TrimPrefix_append [simp]: "TrimPrefix (p @ s) p = s"
  by (simp add: TrimPrefix_def)

lemma IndexByte_neg_iff: "IndexByte s c < 0 \<longleftrightarrow> c \<notin> set s"
  by (induction s) (auto simp: Let_def)

lemma IndexByte_ge: "-1 \<le> IndexByte s c"
  by (induction s) (auto simp: Let_def)

lemma IndexByte_append:
  "c \<notin> set u \<Longrightarrow> IndexByte (u @ c # p) c = int (length u)"
  by (induction u) (auto simp: Let_def)

lemma IndexByte_bound: "IndexByte s c < int (length s) \<or> s = []"
  by (induction s) (fastforce simp: Let_def)+

text \<open>The piece of a Go string before and after a byte, \<^verbatim>\<open>s[:i]\<close> and \<^verbatim>\<open>s[i+1:]\<close>.\<close>

definition cut_at :: "bytes \<Rightarrow> int \<Rightarrow> bytes \<times> bytes" where
  "cut_at s i = (take (nat i) s, drop (nat (i + 1)) s)"

lemma cut_at_IndexByte:
  "c \<notin> set u \<Longrightarrow> cut_at (u @ c # p) (IndexByte (u @ c # p) c) = (u, p)"
  by (simp add: IndexByte_append cut_at_def nat_add_distrib)

lemma cut_at_append:
  "0 \<le> IndexByte s c \<Longrightarrow> cut_at s (IndexByte s c) = (u, p) \<Longrightarrow> s = u @ c # p \<and> c \<notin> set u"
proof (induction s arbitrary: u p)
  case Nil
  then show ?case by simp
next
  case (Cons x xs)
  show ?case
  proof (cases "x = c")
    case True
    with Cons.prems show ?thesis by (auto simp: cut_at_def)
  next
    case False
    with Cons.prems have nn: "0 \<le> IndexByte xs c"
      by (auto simp: Let_def split: if_splits)
    then have "cut_at (x # xs) (IndexByte (x # xs) c)
        = (x # fst (cut_at xs (IndexByte xs c)), snd (cut_at xs (IndexByte xs c)))"
      using False by (simp add: cut_at_def Let_def nat_add_distrib)
    with Cons.prems(2) Cons.IH [OF nn] False show ?thesis
      by (cases "cut_at xs (IndexByte xs c)") auto
  qed
qed

lemma SplitByte_neq_Nil [simp]: "SplitByte c s \<noteq> []"
  by (cases s) (auto split: list.splits)

lemma SplitByte_no_sep: "c \<notin> set s \<Longrightarrow> SplitByte c s = [s]"
  by (induction s) auto

lemma SplitByte_append:
  "c \<notin> set s \<Longrightarrow> SplitByte c (s @ c # t) = s # SplitByte c t"
  by (induction s) auto

lemma hd_SplitByte: "hd (SplitByte c s) = takeWhile (\<lambda>x. x \<noteq> c) s"
  by (induction s) (auto split: list.splits)

lemma JoinByte_SplitByte: "JoinByte c (SplitByte c s) = s"
proof (induction s)
  case (Cons x xs)
  then show ?case
    by (cases "SplitByte c xs"; cases "tl (SplitByte c xs)") auto
qed simp

lemma SplitByte_JoinByte:
  "ps \<noteq> [] \<Longrightarrow> \<forall>p \<in> set ps. c \<notin> set p \<Longrightarrow> SplitByte c (JoinByte c ps) = ps"
  by (induction c ps rule: JoinByte.induct)
    (auto simp: SplitByte_no_sep SplitByte_append)

lemma SplitByte_pieces: "p \<in> set (SplitByte c s) \<Longrightarrow> c \<notin> set p"
  by (induction s arbitrary: p) (auto split: if_splits list.splits)

lemma SplitByte_append_gen:
  "SplitByte c (s @ c # t) = SplitByte c s @ SplitByte c t"
proof (induction s)
  case (Cons x xs)
  then show ?case by (cases "SplitByte c xs") auto
qed simp

lemma Contains_iff: "Contains s sub \<longleftrightarrow> (\<exists>a b. s = a @ sub @ b)"
proof (induction s)
  case (Cons x xs)
  have "(\<exists>a b. x # xs = a @ sub @ b) \<longleftrightarrow>
      HasPrefix (x # xs) sub \<or> (\<exists>a b. xs = a @ sub @ b)"
    by (auto simp: HasPrefix_iff Cons_eq_append_conv)
  with Cons show ?case by simp
qed simp

section \<open>strconv\<close>

fun dec_digits :: "nat \<Rightarrow> bytes" where
  "dec_digits n =
     (if n < 10 then [char_of (48 + n)] else dec_digits (n div 10) @ [char_of (48 + n mod 10)])"

declare dec_digits.simps [simp del]

text \<open>\<^verbatim>\<open>fmt.Sprintf("%d", i)\<close>.\<close>

definition Itoa :: "int \<Rightarrow> bytes" where
  "Itoa i = (if i < 0 then CHR ''-'' # dec_digits (nat (- i)) else dec_digits (nat i))"

definition is_digit :: "char \<Rightarrow> bool" where
  "is_digit c \<longleftrightarrow> 48 \<le> (of_char c :: nat) \<and> (of_char c :: nat) \<le> 57"

fun digits_value :: "nat \<Rightarrow> bytes \<Rightarrow> nat" where
  "digits_value acc [] = acc"
| "digits_value acc (c # cs) = digits_value (10 * acc + (of_char c - 48)) cs"

text \<open>
  \<^verbatim>\<open>strconv.Atoi\<close>: an optional sign, then at least one decimal digit; anything else and
  any value outside the 64-bit range is an error (\<open>None\<close>).
\<close>

definition Atoi :: "bytes \<Rightarrow> int option" where
  "Atoi s =
     (let (neg, ds) = (case s of [] \<Rightarrow> (False, [])
                       | c # cs \<Rightarrow> if c = CHR ''-'' then (True, cs)
                                   else if c = CHR ''+'' then (False, cs) else (False, s));
          v = (if neg then - int (digits_value 0 ds) else int (digits_value 0 ds))
      in if ds = [] \<or> \<not> list_all is_digit ds then None
         else if v < - (2 ^ 63) \<or> 2 ^ 63 \<le> v then None
         else Some v)"

lemma digits_value_append:
  "digits_value a (xs @ ys) = digits_value (digits_value a xs) ys"
  by (induction xs arbitrary: a) auto

lemma dec_digits_valid: "dec_digits n \<noteq> [] \<and> list_all is_digit (dec_digits n)"
proof (induction n rule: dec_digits.induct)
  case (1 n)
  have d: "is_digit (char_of (48 + k))" if "k < 10" for k :: nat
    using that by (simp add: is_digit_def)
  show ?case
    using 1 d [of n] d [of "n mod 10"] by (subst (1 2) dec_digits.simps) simp
qed

lemma digits_value_dec_digits: "digits_value 0 (dec_digits n) = n"
proof (induction n rule: dec_digits.induct)
  case (1 n)
  have d: "of_char (char_of (48 + k)) - 48 = k" if "k < 10" for k :: nat
    using that by simp
  show ?case
  proof (cases "n < 10")
    case True
    then show ?thesis by (subst dec_digits.simps) (simp add: d)
  next
    case False
    with 1 have "digits_value 0 (dec_digits (n div 10)) = n div 10" by blast
    with False show ?thesis
      by (subst dec_digits.simps) (simp add: digits_value_append d)
  qed
qed

lemma dec_digits_hd: "\<exists>c cs. dec_digits n = c # cs \<and> c \<noteq> CHR ''-'' \<and> c \<noteq> CHR ''+''"
proof -
  obtain c cs where eq: "dec_digits n = c # cs"
    using dec_digits_valid [of n] by (cases "dec_digits n") auto
  with dec_digits_valid [of n] have "is_digit c" by simp
  then show ?thesis using eq by (auto simp: is_digit_def)
qed

lemma Atoi_dec_digits: "n < 2 ^ 63 \<Longrightarrow> Atoi (dec_digits n) = Some (int n)"
  using dec_digits_hd [of n] dec_digits_valid [of n] digits_value_dec_digits [of n]
  by (auto simp: Atoi_def Let_def)

end
