(* ===== verification/Go_Path.thy ===== *)
theory Go_Path
  imports Go_Strings
begin

text \<open>
  Lexical path processing of Go's \<^verbatim>\<open>path/filepath\<close> on a Unix host: \<^verbatim>\<open>Clean\<close>, \<^verbatim>\<open>Join\<close>
  and \<^verbatim>\<open>Dir\<close>.  \<open>path_stack\<close> is the working stack of \<^verbatim>\<open>Clean\<close> (innermost element
  first); the lemmas at the end say when joining names to a base keeps the base as a prefix
  and when two cleaned paths are equal.
\<close>

abbreviation slash :: char where "slash \<equiv> CHR ''/''"

definition rooted :: "bytes \<Rightarrow> bool" where
  "rooted p \<longleftrightarrow> HasPrefix p ''/''"

fun clean_step :: "bool \<Rightarrow> bytes list \<Rightarrow> bytes \<Rightarrow> bytes list" where
  "clean_step r st e =
     (if e = [] \<or> e = ''.'' then st
      else if e = ''..'' then
        (case st of
           [] \<Rightarrow> if r then [] else [''..'']
         | inner # rest \<Rightarrow> if inner = ''..'' then ''..'' # st else rest)
      else e # st)"

declare clean_step.simps [simp del]

definition path_stack :: "bytes \<Rightarrow> bytes list" where
  "path_stack p = foldl (clean_step (rooted p)) [] (SplitByte slash p)"

definition render :: "bool \<Rightarrow> bytes list \<Rightarrow> bytes" where
  "render r es =
     (if es = [] then (if r then ''/'' else ''.'')
      else (if r then ''/'' else []) @ JoinByte slash es)"

definition Clean :: "bytes \<Rightarrow> bytes" where
  "Clean p = (if p = [] then ''.'' else render (rooted p) (rev (path_stack p)))"

definition filepath_Join :: "bytes list \<Rightarrow> bytes" where
  "filepath_Join elem =
     (case dropWhile (\<lambda>e. e = []) elem of [] \<Rightarrow> [] | es \<Rightarrow> Clean (JoinByte slash es))"

text \<open>\<^verbatim>\<open>filepath.Dir\<close>: everything up to the last separator, cleaned.\<close>

definition filepath_Dir :: "bytes \<Rightarrow> bytes" where
  "filepath_Dir p = Clean (rev (dropWhile (\<lambda>c. c \<noteq> slash) (rev p)))"

section \<open>Ordinary names\<close>

definition good_name :: "bytes \<Rightarrow> bool" where
  "good_name e \<longleftrightarrow> e \<noteq> [] \<and> e \<noteq> ''.'' \<and> e \<noteq> ''..'' \<and> slash \<notin> set e"

lemma clean_step_good: "good_name e \<Longrightarrow> clean_step r st e = e # st"
  by (simp add: good_name_def clean_step.simps)

lemma foldl_clean_good:
  "\<forall>e \<in> set es. good_name e \<Longrightarrow> foldl (clean_step r) st es = rev es @ st"
  by (induction es arbitrary: st) (auto simp: clean_step_good)

text \<open>Every element that survives cleaning is an ordinary name or a leading \<^verbatim>\<open>..\<close>.\<close>

definition clean_elem :: "bytes \<Rightarrow> bool" where
  "clean_elem e \<longleftrightarrow> e \<noteq> [] \<and> e \<noteq> ''.'' \<and> slash \<notin> set e"

lemma clean_step_elems:
  "\<forall>e \<in> set st. clean_elem e \<Longrightarrow> slash \<notin> set x \<Longrightarrow>
   \<forall>e \<in> set (clean_step r st x). clean_elem e"
proof -
  assume st: "\<forall>e \<in> set st. clean_elem e" and x: "slash \<notin> set x"
  consider "x = [] \<or> x = ''.''" | "x = ''..''" | "x \<noteq> []" "x \<noteq> ''.''" "x \<noteq> ''..''" by blast
  then show ?thesis
  proof cases
    case 1
    with st show ?thesis by (simp only: clean_step.simps simp_thms if_True)
  next
    case 2
    have "clean_elem ''..''" by (simp add: clean_elem_def)
    with 2 st show ?thesis by (cases st) (simp_all add: clean_step.simps)
  next
    case 3
    with x have "clean_elem x" by (simp add: clean_elem_def)
    with 3 st show ?thesis by (simp add: clean_step.simps)
  qed
qed

lemma foldl_clean_elems:
  "\<forall>e \<in> set st. clean_elem e \<Longrightarrow> \<forall>x \<in> set xs. slash \<notin> set x \<Longrightarrow>
   \<forall>e \<in> set (foldl (clean_step r) st xs). clean_elem e"
proof (induction xs arbitrary: st)
  case (Cons x xs)
  have "\<forall>e \<in> set (clean_step r st x). clean_elem e"
    using Cons.prems by (intro clean_step_elems) auto
  with Cons show ?case by simp
qed simp

lemma path_stack_elems: "e \<in> set (path_stack p) \<Longrightarrow> clean_elem e"
  using foldl_clean_elems [of "[]" "SplitByte slash p" "rooted p"] SplitByte_pieces
  by (auto simp: path_stack_def)

section \<open>Joining ordinary names to a base\<close>

lemma rooted_append: "p \<noteq> [] \<Longrightarrow> rooted (p @ q) = rooted p"
  by (cases p) (auto simp: rooted_def HasPrefix_def)

lemma JoinByte_neq_Nil: "ps \<noteq> [] \<Longrightarrow> hd ps \<noteq> [] \<Longrightarrow> JoinByte c ps \<noteq> []"
  by (cases "(c, ps)" rule: JoinByte.cases) auto

lemma path_stack_join:
  assumes "b \<noteq> []" and "ns \<noteq> []" and "\<forall>n \<in> set ns. good_name n"
  shows "path_stack (b @ slash # JoinByte slash ns) = rev ns @ path_stack b"
proof -
  have "SplitByte slash (JoinByte slash ns) = ns"
    using assms by (intro SplitByte_JoinByte) (auto simp: good_name_def)
  then show ?thesis
    using assms
    by (simp add: path_stack_def SplitByte_append_gen rooted_append foldl_clean_good)
qed

lemma filepath_Join_two:
  "b \<noteq> [] \<Longrightarrow> filepath_Join [b, x] = Clean (b @ slash # x)"
  by (simp add: filepath_Join_def)

lemma filepath_Join_names:
  assumes "b \<noteq> []" and "ns \<noteq> []" and "\<forall>n \<in> set ns. good_name n"
  shows "filepath_Join [b, JoinByte slash ns] = render (rooted b) (rev (path_stack b) @ ns)"
  using path_stack_join [OF assms] assms(1)
  by (simp add: filepath_Join_two Clean_def rooted_append)

section \<open>Rendered paths\<close>

lemma SplitByte_render:
  "es \<noteq> [] \<Longrightarrow> \<forall>e \<in> set es. slash \<notin> set e \<Longrightarrow>
   SplitByte slash (render r es) = (if r then [[]] else []) @ es"
  by (auto simp: render_def SplitByte_JoinByte)

lemma render_inj:
  assumes "es \<noteq> []" "fs \<noteq> []"
    and "\<forall>e \<in> set es. slash \<notin> set e" "\<forall>e \<in> set fs. slash \<notin> set e"
    and "render r es = render r fs"
  shows "es = fs"
proof -
  have "(if r then [[]] else []) @ es = SplitByte slash (render r es)"
    using assms(1,3) by (simp add: SplitByte_render)
  also have "\<dots> = SplitByte slash (render r fs)" by (rule arg_cong [OF assms(5)])
  also have "\<dots> = (if r then [[]] else []) @ fs"
    using assms(2,4) by (simp add: SplitByte_render)
  finally show ?thesis by simp
qed

lemma JoinByte_append:
  "ps \<noteq> [] \<Longrightarrow> qs \<noteq> [] \<Longrightarrow> JoinByte c (ps @ qs) = JoinByte c ps @ c # JoinByte c qs"
proof (induction c ps rule: JoinByte.induct)
  case (2 c p)
  then show ?case by (cases qs) auto
qed auto

lemma JoinByte_snoc_name:
  "JoinByte c (ps @ [p @ q]) = JoinByte c (ps @ [p]) @ q"
proof (cases "ps = []")
  case False
  then show ?thesis by (simp add: JoinByte_append)
qed simp

lemma render_snoc_append: "render r (es @ [n @ x]) = render r (es @ [n]) @ x"
  by (simp add: render_def JoinByte_snoc_name)

lemma rooted_render:
  assumes "\<forall>e \<in> set es. clean_elem e"
  shows "rooted (render r es) = r"
proof (cases es)
  case (Cons e es')
  with assms have e: "e \<noteq> []" "hd e \<noteq> slash" by (cases e; auto simp: clean_elem_def)+
  have "\<exists>t. JoinByte slash (e # es') = e @ t" by (cases es') auto
  then obtain t where "JoinByte slash (e # es') = e @ t" ..
  with e Cons show ?thesis
    by (cases e) (auto simp: render_def rooted_def HasPrefix_def)
qed (auto simp: render_def rooted_def HasPrefix_def)

section \<open>Resolved paths\<close>

text \<open>
  What a path string means to the file system, symbolic links aside: whether it starts at
  the root, and its elements from the outside in.
\<close>

type_synonym path = "bool \<times> bytes list"

definition path_of :: "bytes \<Rightarrow> path" where
  "path_of p = (rooted p, rev (path_stack p))"

text \<open>Resolved paths are normal: \<^verbatim>\<open>..\<close> only leads a relative path.\<close>

definition normal :: "bool \<Rightarrow> bytes list \<Rightarrow> bool" where
  "normal r es \<longleftrightarrow>
     (\<exists>n gs. es = replicate n ''..'' @ gs \<and> (\<forall>g \<in> set gs. good_name g) \<and> (r \<longrightarrow> n = 0))"

lemma normalI:
  "\<forall>g \<in> set gs. good_name g \<Longrightarrow> (r \<longrightarrow> n = 0) \<Longrightarrow> normal r (replicate n ''..'' @ gs)"
  by (auto simp: normal_def)

lemma normal_Nil [simp]: "normal r []"
  using normalI [of "[]" r 0] by simp

lemma normal_append:
  "normal r es \<Longrightarrow> \<forall>n \<in> set ns. good_name n \<Longrightarrow> normal r (es @ ns)"
proof -
  assume "normal r es" and ns: "\<forall>n \<in> set ns. good_name n"
  then obtain n gs where "es = replicate n ''..'' @ gs" "\<forall>g \<in> set gs. good_name g" "r \<longrightarrow> n = 0"
    unfolding normal_def by blast
  with ns show ?thesis using normalI [of "gs @ ns" r n] by (simp only: append_assoc set_append ball_Un)
qed

lemma clean_step_normal:
  assumes "normal r (rev st)" and "slash \<notin> set x"
  shows "normal r (rev (clean_step r st x))"
proof -
  from assms(1) obtain n gs where st: "rev st = replicate n ''..'' @ gs"
    and gs: "\<forall>g \<in> set gs. good_name g" and r: "r \<longrightarrow> n = 0"
    by (auto simp: normal_def)
  then have st': "st = rev gs @ replicate n ''..''"
    by (metis rev_append rev_replicate rev_rev_ident)
  consider "x = [] \<or> x = ''.''" | "x = ''..''" "gs = []" | g gs' where "x = ''..''" "gs = gs' @ [g]"
    | "x \<noteq> []" "x \<noteq> ''.''" "x \<noteq> ''..''"
    by (cases gs rule: rev_cases) blast+
  then show ?thesis
  proof cases
    case 1
    with assms show ?thesis by (simp only: clean_step.simps simp_thms if_True)
  next
    case 2
    show ?thesis
    proof (cases n)
      case 0
      with 2 st' show ?thesis
        using normalI [of "[]" r 1] by (simp add: clean_step.simps)
    next
      case (Suc m)
      with 2 st' r show ?thesis
        using normalI [of "[]" r "Suc (Suc m)"]
        by (simp add: clean_step.simps replicate_append_same)
    qed
  next
    case 3
    with gs have "g \<noteq> ''..''" by (simp add: good_name_def)
    with 3 st' have "clean_step r st x = rev gs' @ replicate n ''..''"
      by (simp add: clean_step.simps)
    with 3 gs r show ?thesis by (simp add: normalI)
  next
    case 4
    with assms have "good_name x" by (simp add: good_name_def)
    with 4 assms show ?thesis by (simp add: clean_step.simps normal_append)
  qed
qed

lemma foldl_clean_normal:
  "normal r (rev st) \<Longrightarrow> \<forall>x \<in> set xs. slash \<notin> set x \<Longrightarrow>
   normal r (rev (foldl (clean_step r) st xs))"
  by (induction xs arbitrary: st) (auto simp: clean_step_normal)

lemma path_of_normal: "path_of p = (r, es) \<Longrightarrow> normal r es"
  using foldl_clean_normal [of r "[]" "SplitByte slash p"] SplitByte_pieces
  by (auto simp: path_of_def path_stack_def)

lemma normal_path_stack: "normal (rooted p) (rev (path_stack p))"
  by (rule path_of_normal) (simp add: path_of_def)

lemma foldl_clean_dots:
  "foldl (clean_step False) (replicate m ''..'') (replicate n ''..'') = replicate (m + n) ''..''"
proof (induction n arbitrary: m)
  case (Suc n)
  have "clean_step False (replicate m ''..'') ''..'' = replicate (Suc m) ''..''"
    by (cases m) (simp_all add: clean_step.simps)
  with Suc [of "Suc m"] show ?case by simp
qed simp

lemma foldl_clean_id:
  assumes "normal r es"
  shows "foldl (clean_step r) [] es = rev es"
proof -
  from assms obtain n gs where es: "es = replicate n ''..'' @ gs"
    and gs: "\<forall>g \<in> set gs. good_name g" and r: "r \<longrightarrow> n = 0"
    by (auto simp: normal_def)
  have "foldl (clean_step r) [] (replicate n ''..'') = replicate n ''..''"
    using foldl_clean_dots [of 0 n] r by (cases r) simp_all
  with es gs show ?thesis by (simp add: foldl_clean_good)
qed

lemma good_name_clean: "good_name e \<Longrightarrow> clean_elem e"
  by (simp add: good_name_def clean_elem_def)

lemma dotdot_clean: "clean_elem ''..''"
  by (simp add: clean_elem_def)

lemma normal_elems: "normal r es \<Longrightarrow> e \<in> set es \<Longrightarrow> clean_elem e"
  unfolding normal_def using good_name_clean dotdot_clean by (metis Un_iff in_set_replicate set_append)

lemma path_of_render:
  assumes "normal r es"
  shows "path_of (render r es) = (r, es)"
proof -
  have el: "\<forall>e \<in> set es. clean_elem e" using assms normal_elems by blast
  then have rt: "rooted (render r es) = r" by (rule rooted_render)
  have "path_stack (render r es) = rev es"
  proof (cases "es = []")
    case True
    then show ?thesis
      by (cases r) (simp_all add: path_stack_def rt, simp_all add: render_def clean_step.simps)
  next
    case False
    have "foldl (clean_step r) [] ((if r then [[]] else []) @ es) = rev es"
      using foldl_clean_id [OF assms] by (cases r) (simp_all add: clean_step.simps)
    moreover have "SplitByte slash (render r es) = (if r then [[]] else []) @ es"
      using el False by (intro SplitByte_render) (simp_all add: clean_elem_def)
    ultimately show ?thesis by (simp only: path_stack_def rt)
  qed
  with rt show ?thesis by (simp add: path_of_def)
qed

lemma path_of_Clean [simp]: "path_of (Clean p) = path_of p"
proof (cases "p = []")
  case True
  then show ?thesis
    by (simp add: Clean_def path_of_def rooted_def HasPrefix_def path_stack_def clean_step.simps)
next
  case False
  then show ?thesis
    using path_of_render [OF normal_path_stack [of p]] by (simp add: Clean_def path_of_def)
qed

lemma path_of_names:
  assumes "b \<noteq> []" and "ns \<noteq> []" and "\<forall>n \<in> set ns. good_name n"
  shows "path_of (b @ slash # JoinByte slash ns) = (rooted b, snd (path_of b) @ ns)"
  using path_stack_join [OF assms] assms(1) by (simp add: path_of_def rooted_append)

lemma JoinByte_names_path:
  assumes "ns \<noteq> []" and "\<forall>n \<in> set ns. good_name n"
  shows "path_of (JoinByte slash ns) = (False, ns)"
proof -
  have "normal False ns" using assms normalI [of ns False 0] by simp
  then have "path_of (render False ns) = (False, ns)" by (rule path_of_render)
  with assms show ?thesis by (simp add: render_def)
qed

text \<open>Joining ordinary names to any base, the empty one included.\<close>

lemma path_of_Join:
  assumes "ns \<noteq> []" and "\<forall>n \<in> set ns. good_name n"
  shows "path_of (filepath_Join [b, JoinByte slash ns]) = (rooted b, snd (path_of b) @ ns)"
proof (cases "b = []")
  case True
  have "JoinByte slash ns \<noteq> []"
    using assms by (intro JoinByte_neq_Nil) (auto simp: good_name_def)
  with True have "path_of (filepath_Join [b, JoinByte slash ns]) = path_of (JoinByte slash ns)"
    by (simp add: filepath_Join_def)
  moreover have "rooted [] = False" "path_of [] = (False, [])"
    by (simp_all add: path_of_def rooted_def HasPrefix_def path_stack_def clean_step.simps)
  ultimately show ?thesis
    using True JoinByte_names_path [OF assms] by simp
next
  case False
  then show ?thesis using path_of_names [OF _ assms] by (simp add: filepath_Join_two)
qed

lemma Join_render:
  assumes "ns \<noteq> []" and "\<forall>n \<in> set ns. good_name n"
  shows "filepath_Join [b, JoinByte slash ns] = render (rooted b) (snd (path_of b) @ ns)"
proof (cases "b = []")
  case True
  have "JoinByte slash ns \<noteq> []"
    using assms by (intro JoinByte_neq_Nil) (auto simp: good_name_def)
  moreover have "rooted [] = False" "path_of [] = (False, [])"
    by (simp_all add: path_of_def rooted_def HasPrefix_def path_stack_def clean_step.simps)
  ultimately show ?thesis
    using True JoinByte_names_path [OF assms] by (simp add: filepath_Join_def Clean_def path_of_def)
next
  case False
  then show ?thesis using filepath_Join_names [OF _ assms] by (simp add: path_of_def)
qed

lemma normal_path_of: "normal (rooted p) (snd (path_of p))"
  using normal_path_stack by (simp add: path_of_def)

text \<open>Appending a suffix to the last element, and taking the directory of a rendered path.\<close>

lemma path_of_suffix:
  assumes "normal r es" and "good_name (n @ x)"
  shows "path_of (render r (es @ [n]) @ x) = (r, es @ [n @ x])"
proof -
  have "render r (es @ [n]) @ x = render r (es @ [n @ x])" by (simp add: render_snoc_append)
  moreover have "normal r (es @ [n @ x])" using assms by (simp add: normal_append)
  ultimately show ?thesis by (simp add: path_of_render)
qed

lemma path_of_trailing_slash: "p \<noteq> [] \<Longrightarrow> path_of (p @ [slash]) = path_of p"
  using SplitByte_append_gen [of slash p "[]"]
  by (simp add: path_of_def rooted_append path_stack_def clean_step.simps)

lemma dropWhile_name:
  assumes "slash \<notin> set n" and "A = [] \<or> last A = slash"
  shows "rev (dropWhile (\<lambda>c. c \<noteq> slash) (rev (A @ n))) = A"
proof -
  have "dropWhile (\<lambda>c. c \<noteq> slash) (rev n @ rev A) = dropWhile (\<lambda>c. c \<noteq> slash) (rev A)"
    using assms(1) by (intro dropWhile_append2) auto
  moreover have "dropWhile (\<lambda>c. c \<noteq> slash) (rev A) = rev A"
    using assms(2) by (cases A rule: rev_cases) auto
  ultimately show ?thesis by simp
qed

lemma path_of_Dir:
  assumes "normal r es" and n: "slash \<notin> set n"
  shows "path_of (filepath_Dir (render r (es @ [n]))) = (r, es)"
proof -
  show ?thesis
  proof (cases "es = []")
    case True
    have "render r (es @ [n]) = (if r then ''/'' else []) @ n" using True by (simp add: render_def)
    moreover have "rev (dropWhile (\<lambda>c. c \<noteq> slash) (rev ((if r then ''/'' else []) @ n)))
        = (if r then ''/'' else [])"
      by (rule dropWhile_name [OF n]) simp
    moreover have "path_of (if r then ''/'' else []) = (r, [])"
      by (cases r) (simp_all add: path_of_def rooted_def HasPrefix_def path_stack_def clean_step.simps)
    ultimately show ?thesis using True by (simp only: filepath_Dir_def path_of_Clean)
  next
    case False
    have ne: "render r es \<noteq> []"
      using False assms(1) normal_elems [OF assms(1), of "hd es"] JoinByte_neq_Nil [of es slash]
      by (auto simp: render_def clean_elem_def)
    have "render r (es @ [n]) = (render r es @ [slash]) @ n"
      using False by (simp add: render_def JoinByte_append)
    moreover have "rev (dropWhile (\<lambda>c. c \<noteq> slash) (rev ((render r es @ [slash]) @ n)))
        = render r es @ [slash]"
      by (rule dropWhile_name [OF n]) simp
    ultimately show ?thesis
      using path_of_trailing_slash [OF ne] path_of_render [OF assms(1)]
      by (simp only: filepath_Dir_def path_of_Clean)
  qed
qed

text \<open>A suffix without separators that is no dot name ends the last element of any path.\<close>

lemma SplitByte_suffix:
  "c \<notin> set t \<Longrightarrow> SplitByte c (s @ t) = butlast (SplitByte c s) @ [last (SplitByte c s) @ t]"
proof (induction s)
  case Nil
  then show ?case by (simp add: SplitByte_no_sep)
next
  case (Cons x xs)
  show ?case
  proof (cases "x = c")
    case True
    with Cons show ?thesis by simp
  next
    case False
    obtain q qs where "SplitByte c xs = q # qs" by (cases "SplitByte c xs") auto
    with Cons False show ?thesis by (cases qs) auto
  qed
qed

lemma path_of_suffix_last:
  assumes "\<And>n. slash \<notin> set n \<Longrightarrow> good_name (n @ t)" and "slash \<notin> set t"
  shows "\<exists>es n. snd (path_of (p @ t)) = es @ [n @ t]"
proof -
  let ?ps = "SplitByte slash p"
  have "slash \<notin> set (last ?ps)" using SplitByte_pieces by (metis SplitByte_neq_Nil last_in_set)
  then have "good_name (last ?ps @ t)" by (rule assms(1))
  then show ?thesis
    by (simp add: path_of_def path_stack_def SplitByte_suffix [OF assms(2)] clean_step_good)
qed

text \<open>Each element joined to a path makes it at most one longer.\<close>

lemma clean_step_length: "length (clean_step r st e) \<le> Suc (length st)"
  by (auto simp: clean_step.simps split: list.split)

lemma foldl_clean_length: "length (foldl (clean_step r) st xs) \<le> length st + length xs"
proof (induction xs arbitrary: st)
  case (Cons x xs)
  show ?case using clean_step_length [of r st x] Cons.IH [of "clean_step r st x"] by simp
qed simp

lemma normal_butlast: "normal r (es @ [n]) \<Longrightarrow> normal r es"
proof -
  assume "normal r (es @ [n])"
  then obtain k gs where eq: "es @ [n] = replicate k ''..'' @ gs" and gs: "\<forall>g \<in> set gs. good_name g"
    and r: "r \<longrightarrow> k = 0" unfolding normal_def by blast
  show ?thesis
  proof (cases gs rule: rev_cases)
    case Nil
    then have "es @ [n] = replicate k ''..''" using eq by simp
    then have "es = replicate (k - 1) ''..''"
      by (metis butlast_snoc butlast_conv_take length_replicate take_replicate min.absorb1 diff_le_self)
    then show ?thesis using normalI [of "[]" r "k - 1"] r by simp
  next
    case (snoc gs' g)
    then have "es = replicate k ''..'' @ gs'" using eq by simp
    then show ?thesis using normalI [of gs' r k] gs r snoc by simp
  qed
qed

text \<open>The directory of a cleaned path is one element shorter, if there is one.\<close>

lemma Dir_Clean_length:
  "length (snd (path_of (filepath_Dir (Clean p)))) \<le> length (snd (path_of p)) - 1"
proof (cases "snd (path_of p)" rule: rev_cases)
  case Nil
  then have "Clean p = ''.'' \<or> Clean p = ''/''"
    by (auto simp: Clean_def path_of_def render_def)
  moreover have "filepath_Dir ''.'' = Clean []" "filepath_Dir ''/'' = Clean ''/''"
    by (simp_all add: filepath_Dir_def)
  moreover have "path_of [] = (False, [])" "path_of ''/'' = (True, [])"
    by (simp_all add: path_of_def rooted_def HasPrefix_def path_stack_def clean_step.simps)
  ultimately show ?thesis by auto
next
  case (snoc es n)
  then have "p \<noteq> []" by (auto simp: path_of_def path_stack_def clean_step.simps)
  then have c: "Clean p = render (rooted p) (es @ [n])"
    using snoc by (simp add: Clean_def path_of_def)
  have nm: "normal (rooted p) (es @ [n])" using normal_path_of [of p] snoc by simp
  have "slash \<notin> set n" using normal_elems [OF nm, of n] by (simp add: clean_elem_def)
  from path_of_Dir [OF normal_butlast [OF nm] this] show ?thesis by (simp add: c snoc)
qed

lemma SplitByte_render_length:
  "\<forall>e \<in> set es. slash \<notin> set e \<Longrightarrow> length (SplitByte slash (render False es)) = max 1 (length es)"
  by (cases "es = []") (simp_all add: SplitByte_JoinByte render_def Suc_leI)

end
