(* ===== verification/File_System.thy ===== *)
theory File_System
  imports Go_Path
begin

text \<open>
  The part of Go's \<^verbatim>\<open>os\<close> package that \<^verbatim>\<open>content_store.go\<close> calls, on a file system of
  directories and regular files.  A directory entry names an inode, so that an open file
  survives its removal or renaming, as it does for the server: the descriptor that
  \<^verbatim>\<open>OpenFile\<close> returned keeps writing to the inode whatever happens to the name.  Paths are
  resolved lexically; symbolic links, permissions and a full disk are not modelled.
\<close>

datatype node = Dir | File nat

record fs =
  entries :: "path \<Rightarrow> node option"
  inodes :: "nat \<Rightarrow> bytes"
  next_inode :: nat

definition empty_fs :: fs where
  "empty_fs = \<lparr>entries = (\<lambda>_. None), inodes = (\<lambda>_. []), next_inode = 0\<rparr>"

definition ENOENT :: GoError where "ENOENT = ErrExt ''no such file or directory''"
definition ENOTDIR :: GoError where "ENOTDIR = ErrExt ''not a directory''"
definition EEXIST :: GoError where "EEXIST = ErrExt ''file exists''"
definition EISDIR :: GoError where "EISDIR = ErrExt ''is a directory''"

lemma errno_distinct [simp]:
  "ENOENT \<noteq> ENOTDIR" "ENOTDIR \<noteq> ENOENT" "ENOENT \<noteq> EEXIST" "EEXIST \<noteq> ENOENT"
  "ENOENT \<noteq> EISDIR" "EISDIR \<noteq> ENOENT"
  "AuthError \<noteq> ENOENT" "AuthError \<noteq> ENOTDIR" "AuthError \<noteq> EEXIST" "AuthError \<noteq> EISDIR"
  by (simp_all add: ENOENT_def ENOTDIR_def EEXIST_def EISDIR_def)

text \<open>The entry of a path; the root and the working directory are always directories.\<close>

definition entry :: "fs \<Rightarrow> path \<Rightarrow> node option" where
  "entry f p = (if snd p = [] then Some Dir else entries f p)"

definition ancestors :: "path \<Rightarrow> path list" where
  "ancestors p = map (\<lambda>k. (fst p, take k (snd p))) [0..<length (snd p)]"

definition parent :: "path \<Rightarrow> path" where
  "parent p = (fst p, butlast (snd p))"

section \<open>System calls\<close>

text \<open>Path resolution, as \<^verbatim>\<open>os.Stat\<close> and \<^verbatim>\<open>os.Open\<close> do it.\<close>

definition Stat :: "fs \<Rightarrow> bytes \<Rightarrow> node outcome" where
  "Stat f name =
     (let p = path_of name
      in if list_ex (\<lambda>a. entry f a \<noteq> None \<and> entry f a \<noteq> Some Dir) (ancestors p) then Err ENOTDIR
         else case entry f p of None \<Rightarrow> Err ENOENT | Some n \<Rightarrow> Ok n)"

definition IsNotExist :: "GoError \<Rightarrow> bool" where
  "IsNotExist e \<longleftrightarrow> e = ENOENT"

text \<open>
  \<^verbatim>\<open>os.Open\<close> and reading to the end: a directory opens, and reading it fails at once.
\<close>

definition Open :: "fs \<Rightarrow> bytes \<Rightarrow> (bytes \<times> GoError option) outcome" where
  "Open f name =
     (case Stat f name of
        Ok Dir \<Rightarrow> Ok ([], Some EISDIR)
      | Ok (File i) \<Rightarrow> Ok (inodes f i, None)
      | Err e \<Rightarrow> Err e
      | Panic e \<Rightarrow> Panic e)"

definition MkdirAll :: "fs \<Rightarrow> bytes \<Rightarrow> fs \<times> unit outcome" where
  "MkdirAll f name =
     (let p = path_of name; chain = ancestors p @ [p]
      in if list_ex (\<lambda>a. entry f a \<noteq> None \<and> entry f a \<noteq> Some Dir) chain then (f, Err ENOTDIR)
         else (f\<lparr>entries := (\<lambda>q. if q \<in> set chain then Some Dir else entries f q)\<rparr>, Ok ()))"

text \<open>\<^verbatim>\<open>os.OpenFile\<close> with \<^verbatim>\<open>O_CREATE|O_WRONLY|O_EXCL\<close>: the name must be free.\<close>

definition OpenExcl :: "fs \<Rightarrow> bytes \<Rightarrow> fs \<times> nat outcome" where
  "OpenExcl f name =
     (let p = path_of name; i = next_inode f
      in if entry f p \<noteq> None then (f, Err EEXIST)
         else case entry f (parent p) of
             Some Dir \<Rightarrow>
               (f\<lparr>entries := (entries f)(p \<mapsto> File i), inodes := (inodes f)(i := []),
                  next_inode := Suc i\<rparr>, Ok i)
           | Some (File _) \<Rightarrow> (f, Err ENOTDIR)
           | None \<Rightarrow> (f, Err ENOENT))"

text \<open>A write through an open descriptor appends to the inode.\<close>

definition Write :: "fs \<Rightarrow> nat \<Rightarrow> bytes \<Rightarrow> fs" where
  "Write f i b = f\<lparr>inodes := (inodes f)(i := inodes f i @ b)\<rparr>"

text \<open>
  \<^verbatim>\<open>os.Remove\<close> of a regular file; the server calls it on its temporary files only, and
  ignores its result.  A directory under that name is left alone.
\<close>

definition Remove :: "fs \<Rightarrow> bytes \<Rightarrow> fs" where
  "Remove f name =
     (let p = path_of name
      in case entry f p of Some (File _) \<Rightarrow> f\<lparr>entries := (entries f)(p := None)\<rparr> | _ \<Rightarrow> f)"

text \<open>\<^verbatim>\<open>os.Rename\<close> of a file: it replaces a file of the new name, not a directory.\<close>

definition Rename :: "fs \<Rightarrow> bytes \<Rightarrow> bytes \<Rightarrow> fs \<times> unit outcome" where
  "Rename f old new =
     (let p = path_of old; q = path_of new
      in case entry f p of
           None \<Rightarrow> (f, Err ENOENT)
         | Some n \<Rightarrow>
             (case (entry f q, entry f (parent q)) of
                (Some Dir, _) \<Rightarrow> (f, Err EISDIR)
              | (_, Some Dir) \<Rightarrow> (f\<lparr>entries := (entries f)(p := None, q \<mapsto> n)\<rparr>, Ok ())
              | (_, Some (File _)) \<Rightarrow> (f, Err ENOTDIR)
              | (_, None) \<Rightarrow> (f, Err ENOENT)))"

section \<open>Well-formed file systems\<close>

text \<open>
  Inodes in use are below the allocation mark, no two names share one, and everything above
  an entry is a directory.
\<close>

definition wf_fs :: "fs \<Rightarrow> bool" where
  "wf_fs f \<longleftrightarrow>
     (\<forall>p i. entry f p = Some (File i) \<longrightarrow> i < next_inode f) \<and>
     (\<forall>p q i. entry f p = Some (File i) \<longrightarrow> entry f q = Some (File i) \<longrightarrow> p = q) \<and>
     (\<forall>p n a. entry f p = Some n \<longrightarrow> a \<in> set (ancestors p) \<longrightarrow> entry f a = Some Dir)"

lemma wf_fsI:
  assumes "\<And>p i. entry f p = Some (File i) \<Longrightarrow> i < next_inode f"
    and "\<And>p q i. entry f p = Some (File i) \<Longrightarrow> entry f q = Some (File i) \<Longrightarrow> p = q"
    and "\<And>p n a. entry f p = Some n \<Longrightarrow> a \<in> set (ancestors p) \<Longrightarrow> entry f a = Some Dir"
  shows "wf_fs f"
  unfolding wf_fs_def using assms by blast

lemma wf_fresh: "wf_fs f \<Longrightarrow> entry f p = Some (File i) \<Longrightarrow> i < next_inode f"
  unfolding wf_fs_def by blast

lemma wf_unshared:
  "wf_fs f \<Longrightarrow> entry f p = Some (File i) \<Longrightarrow> entry f q = Some (File i) \<Longrightarrow> p = q"
  unfolding wf_fs_def by blast

lemma wf_ancestor:
  "wf_fs f \<Longrightarrow> entry f p = Some n \<Longrightarrow> a \<in> set (ancestors p) \<Longrightarrow> entry f a = Some Dir"
  unfolding wf_fs_def by blast

lemma ancestors_take: "a \<in> set (ancestors p) \<longleftrightarrow> (\<exists>k < length (snd p). a = (fst p, take k (snd p)))"
  by (auto simp: ancestors_def)

lemma ancestors_Nil [simp]: "snd p = [] \<Longrightarrow> ancestors p = []"
  by (simp add: ancestors_def)

lemma wf_empty: "wf_fs empty_fs"
  by (rule wf_fsI) (auto simp: empty_fs_def entry_def split: if_splits)

lemma parent_ancestor: "snd p \<noteq> [] \<Longrightarrow> parent p \<in> set (ancestors p)"
  by (auto simp: ancestors_take parent_def butlast_conv_take intro!: exI [of _ "length (snd p) - 1"])

lemma ancestors_parent:
  assumes "snd p \<noteq> []"
  shows "set (ancestors p) = insert (parent p) (set (ancestors (parent p)))"
proof -
  obtain es e where es: "snd p = es @ [e]" using assms by (cases "snd p" rule: rev_cases) auto
  then have "ancestors p = ancestors (parent p) @ [parent p]"
    by (simp add: ancestors_def parent_def)
  then show ?thesis by simp
qed

lemma ancestors_trans:
  "a \<in> set (ancestors b) \<Longrightarrow> b \<in> set (ancestors p) \<Longrightarrow> a \<in> set (ancestors p)"
proof -
  assume "a \<in> set (ancestors b)" "b \<in> set (ancestors p)"
  then obtain k l where "l < length (snd p)" "b = (fst p, take l (snd p))"
    "k < length (snd b)" "a = (fst b, take k (snd b))"
    unfolding ancestors_take by blast
  then have "k < length (snd p) \<and> a = (fst p, take k (snd p))" by simp
  then show ?thesis unfolding ancestors_take by blast
qed

lemma ancestor_shorter: "a \<in> set (ancestors p) \<Longrightarrow> length (snd a) < length (snd p)"
  by (auto simp: ancestors_take)

lemma wf_below_dir:
  assumes "wf_fs f" and "entry f (parent p) = Some Dir" and "snd p \<noteq> []" and "a \<in> set (ancestors p)"
  shows "entry f a = Some Dir"
proof -
  from assms(3,4) have "a = parent p \<or> a \<in> set (ancestors (parent p))"
    unfolding ancestors_parent [OF assms(3)] by blast
  then show ?thesis using assms(2) wf_ancestor [OF assms(1,2)] by blast
qed

text \<open>In a well-formed file system a lookup fails for the one reason that the name is free.\<close>

lemma Stat_wf:
  assumes "wf_fs f" and "entry f (path_of name) = Some n"
  shows "Stat f name = Ok n"
proof -
  have "\<not> list_ex (\<lambda>a. entry f a \<noteq> None \<and> entry f a \<noteq> Some Dir) (ancestors (path_of name))"
    using assms wf_ancestor by (auto simp: list_ex_iff)
  with assms(2) show ?thesis by (simp add: Stat_def Let_def)
qed

lemma Stat_missing: "entry f (path_of name) = None \<Longrightarrow> \<exists>e. Stat f name = Err e"
  by (simp add: Stat_def Let_def)

text \<open>Below a directory of a well-formed file system, a free name is reported as such.\<close>

lemma Stat_free:
  assumes "wf_fs f" and "entry f (path_of name) = None" and "entry f (parent (path_of name)) = Some Dir"
  shows "Stat f name = Err ENOENT"
proof -
  let ?p = "path_of name"
  have "snd ?p \<noteq> []" using assms(2) by (auto simp: entry_def)
  then have "\<forall>a \<in> set (ancestors ?p). entry f a = Some Dir"
    using wf_below_dir [OF assms(1,3)] by blast
  then have "\<not> list_ex (\<lambda>a. entry f a \<noteq> None \<and> entry f a \<noteq> Some Dir) (ancestors ?p)"
    by (auto simp: list_ex_iff)
  with assms(2) show ?thesis by (simp add: Stat_def Let_def)
qed

section \<open>What the system calls do to the entries\<close>

lemma entry_root [simp]: "snd p = [] \<Longrightarrow> entry f p = Some Dir"
  by (simp add: entry_def)

lemma MkdirAll_ok:
  assumes "MkdirAll f name = (f', Ok ())"
  shows "entry f' q = (if q = path_of name \<or> q \<in> set (ancestors (path_of name)) then Some Dir
                       else entry f q)"
    and "inodes f' = inodes f" and "next_inode f' = next_inode f"
    and "q = path_of name \<or> q \<in> set (ancestors (path_of name)) \<Longrightarrow>
         entry f q = None \<or> entry f q = Some Dir"
  using assms by (auto simp: MkdirAll_def Let_def entry_def list_ex_iff split: if_splits)

lemma MkdirAll_err: "MkdirAll f name = (f', r) \<Longrightarrow> \<not> is_ok r \<Longrightarrow> f' = f \<and> r = Err ENOTDIR"
  by (auto simp: MkdirAll_def Let_def split: if_splits)

lemma MkdirAll_file:
  assumes "MkdirAll f name = (f', r)"
  shows "entry f' q = Some (File i) \<longleftrightarrow> entry f q = Some (File i)"
proof (cases "is_ok r")
  case True
  then have "MkdirAll f name = (f', Ok ())" using assms by (auto simp: is_ok_iff)
  from MkdirAll_ok(1,4) [OF this, of q] show ?thesis by (auto split: if_splits)
qed (use MkdirAll_err [OF assms] in simp)

lemma MkdirAll_wf:
  assumes "wf_fs f" and "MkdirAll f name = (f', r)"
  shows "wf_fs f'"
proof (cases "is_ok r")
  case True
  then have m: "MkdirAll f name = (f', Ok ())" using assms by (auto simp: is_ok_iff)
  note ok = MkdirAll_ok [OF m]
  show ?thesis
  proof (rule wf_fsI)
    fix p n a
    assume n: "entry f' p = Some n" and a: "a \<in> set (ancestors p)"
    show "entry f' a = Some Dir"
    proof (cases "p = path_of name \<or> p \<in> set (ancestors (path_of name))")
      case True
      then have "a \<in> set (ancestors (path_of name))" using a ancestors_trans by blast
      then show ?thesis using ok(1) by simp
    next
      case False
      then have "entry f p = Some n" using n ok(1) by simp
      then show ?thesis using wf_ancestor [OF assms(1)] a ok(1) by simp
    qed
  qed (use wf_fresh [OF assms(1)] wf_unshared [OF assms(1)] MkdirAll_file [OF m] ok(3) in auto)
qed (use MkdirAll_err [OF assms(2)] assms(1) in simp)

lemma OpenExcl_ok:
  assumes "OpenExcl f name = (f', Ok i)"
  shows "entry f' q = (if q = path_of name then Some (File i) else entry f q)"
    and "inodes f' = (inodes f)(i := [])" and "next_inode f' = Suc i" and "i = next_inode f"
    and "entry f (path_of name) = None" and "entry f (parent (path_of name)) = Some Dir"
  using assms
  by (auto simp: OpenExcl_def Let_def entry_def split: if_splits option.splits node.splits)

lemma OpenExcl_err: "OpenExcl f name = (f', r) \<Longrightarrow> \<not> is_ok r \<Longrightarrow> f' = f"
  by (auto simp: OpenExcl_def Let_def split: if_splits option.splits node.splits)

lemma OpenExcl_wf:
  assumes "wf_fs f" and "OpenExcl f name = (f', r)"
  shows "wf_fs f'"
proof (cases "is_ok r")
  case True
  then obtain i where o: "OpenExcl f name = (f', Ok i)" using assms by (auto simp: is_ok_iff)
  note ok = OpenExcl_ok [OF o]
  have ne: "snd (path_of name) \<noteq> []" using ok(5) by auto
  have fresh: "entry f q \<noteq> Some (File i)" for q
    using wf_fresh [OF assms(1)] ok(4) by blast
  show ?thesis
  proof (rule wf_fsI)
    fix p k
    assume "entry f' p = Some (File k)"
    then show "k < next_inode f'"
      using wf_fresh [OF assms(1)] ok by (fastforce split: if_splits)
  next
    fix p q k
    assume "entry f' p = Some (File k)" "entry f' q = Some (File k)"
    then show "p = q"
      using wf_unshared [OF assms(1)] fresh unfolding ok(1) by (auto split: if_splits)
  next
    fix p n a
    assume n: "entry f' p = Some n" and a: "a \<in> set (ancestors p)"
    have "entry f a = Some Dir"
    proof (cases "p = path_of name")
      case True
      then show ?thesis using a ok(6) ne wf_below_dir [OF assms(1)] by blast
    next
      case False
      then show ?thesis using n a ok(1) wf_ancestor [OF assms(1)] by simp
    qed
    then show "entry f' a = Some Dir" using ok(1,5) by auto
  qed
qed (use OpenExcl_err [OF assms(2)] assms(1) in simp)

lemma Write_simps [simp]:
  "entry (Write f i b) q = entry f q" "next_inode (Write f i b) = next_inode f"
  "inodes (Write f i b) = (inodes f)(i := inodes f i @ b)"
  by (simp_all add: Write_def entry_def)

lemma Write_wf [simp]: "wf_fs (Write f i b) \<longleftrightarrow> wf_fs f"
  by (simp add: wf_fs_def)

lemma Remove_entry:
  "entry (Remove f name) q =
     (if q = path_of name \<and> (\<exists>i. entry f q = Some (File i)) then None else entry f q)"
  by (auto simp: Remove_def Let_def entry_def split: option.splits node.splits)

lemma Remove_inodes [simp]:
  "inodes (Remove f name) = inodes f" "next_inode (Remove f name) = next_inode f"
  by (simp_all add: Remove_def Let_def split: option.splits node.splits)

lemma Remove_wf:
  assumes "wf_fs f"
  shows "wf_fs (Remove f name)"
proof (rule wf_fsI)
  fix p n a
  assume "entry (Remove f name) p = Some n" and a: "a \<in> set (ancestors p)"
  then have "entry f a = Some Dir"
    using wf_ancestor [OF assms] by (auto simp: Remove_entry split: if_splits)
  then show "entry (Remove f name) a = Some Dir" by (simp add: Remove_entry)
qed (use wf_fresh [OF assms] wf_unshared [OF assms] in \<open>auto simp: Remove_entry split: if_splits\<close>)

lemma Rename_ok:
  assumes "Rename f old new = (f', Ok ())" and "path_of old \<noteq> path_of new"
  shows "entry f' q = (if q = path_of new then entry f (path_of old)
                       else if q = path_of old \<and> snd q \<noteq> [] then None else entry f q)"
    and "inodes f' = inodes f" and "next_inode f' = next_inode f"
    and "entry f (path_of old) \<noteq> None" and "entry f (path_of new) \<noteq> Some Dir"
    and "entry f (parent (path_of new)) = Some Dir"
  using assms
  by (auto simp: Rename_def Let_def entry_def split: if_splits option.splits node.splits)

lemma Rename_succeeds:
  assumes "entry f (path_of old) \<noteq> None" "entry f (path_of new) \<noteq> Some Dir"
    and "entry f (parent (path_of new)) = Some Dir"
  shows "\<exists>f'. Rename f old new = (f', Ok ())"
proof (cases "entry f (path_of new)")
  case (Some n)
  with assms show ?thesis by (cases n) (auto simp: Rename_def Let_def)
qed (use assms in \<open>auto simp: Rename_def Let_def\<close>)

lemma Rename_err: "Rename f old new = (f', r) \<Longrightarrow> \<not> is_ok r \<Longrightarrow> f' = f"
  by (auto simp: Rename_def Let_def split: if_splits option.splits node.splits)

lemma Rename_wf:
  assumes "wf_fs f" and "Rename f old new = (f', r)" and neq: "path_of old \<noteq> path_of new"
    and isfile: "entry f (path_of old) = Some (File i)"
  shows "wf_fs f'"
proof (cases "is_ok r")
  case True
  then have m: "Rename f old new = (f', Ok ())" using assms by (auto simp: is_ok_iff)
  note ok = Rename_ok [OF m neq]
  have ne: "snd (path_of new) \<noteq> []" "snd (path_of old) \<noteq> []" using ok(5) isfile by auto
  have old: "q = path_of old" if "entry f q = Some (File i)" for q
    using wf_unshared [OF assms(1)] isfile that by blast
  show ?thesis
  proof (rule wf_fsI)
    fix p k
    assume "entry f' p = Some (File k)"
    then show "k < next_inode f'"
      using wf_fresh [OF assms(1)] ok(1,3) by (auto split: if_splits)
  next
    fix p q k
    assume "entry f' p = Some (File k)" "entry f' q = Some (File k)"
    then show "p = q"
      using wf_unshared [OF assms(1)] ne isfile unfolding ok(1) by (auto split: if_splits)
  next
    fix p n a
    assume n: "entry f' p = Some n" and a: "a \<in> set (ancestors p)"
    have "entry f a = Some Dir"
    proof (cases "p = path_of new")
      case True
      then show ?thesis using a ok(6) ne(1) wf_below_dir [OF assms(1)] by blast
    next
      case False
      then have "entry f p = Some n" using n ok(1) by (auto split: if_splits)
      then show ?thesis using a wf_ancestor [OF assms(1)] by blast
    qed
    then show "entry f' a = Some Dir" using ok(1,5) isfile ne by auto
  qed
qed (use Rename_err [OF assms(2)] assms(1) in simp)

end
