(* ===== verification/Config.thy ===== *)
theory Config
  imports Go_Strings
begin

text \<open>
  \<^verbatim>\<open>config.go\<close>: the configuration structs, their defaults, and what \<^verbatim>\<open>init\<close> makes of the
  environment and of \<^verbatim>\<open>config.ini\<close>.  The Go code reads one global \<open>Config\<close>; here every
  definition that consults it takes the configuration as an argument.  The INI parser is a
  third-party package: the five \<^verbatim>\<open>MapTo\<close> calls are parameters.
\<close>

record CassandraConfig =
  Cassandra_Hosts :: bytes
  Cassandra_Keyspace :: bytes
  Cassandra_ProtoVersion :: int
  Cassandra_Username :: bytes
  Cassandra_Password :: bytes
  Cassandra_Enabled :: bool

record AwsConfig =
  Aws_AccessKeyId :: bytes
  Aws_SecretAccessKey :: bytes
  Aws_Region :: bytes
  Aws_BucketName :: bytes
  Aws_BucketAcl :: bytes
  Aws_Enabled :: bool

record LdapConfig =
  Ldap_Enabled :: bool
  Ldap_Server :: bytes
  Ldap_Base :: bytes
  Ldap_UserObjectClass :: bytes
  Ldap_UserCn :: bytes
  Ldap_BindDn :: bytes
  Ldap_BindPass :: bytes

record MySQLConfig =
  MySQL_Host :: bytes
  MySQL_Database :: bytes
  MySQL_Username :: bytes
  MySQL_Password :: bytes
  MySQL_Enabled :: bool

record Configuration =
  Listen :: bytes
  Host :: bytes
  UrlContext :: bytes
  ContentPath :: bytes
  AdminUser :: bytes
  AdminPass :: bytes
  Cert :: bytes
  Key :: bytes
  Scheme :: bytes
  Public :: bool
  MetaDB :: bytes
  BackingStore :: bytes
  ContentStoreKind :: bytes
  LogFile :: bytes
  NumProcs :: int
  Aws :: AwsConfig
  Cassandra :: CassandraConfig
  Ldap :: LdapConfig
  MySQL :: MySQLConfig

definition IsHTTPS :: "Configuration \<Rightarrow> bool" where
  "IsHTTPS c \<longleftrightarrow> Contains (Scheme c) ''https''"

definition UseTLS :: "Configuration \<Rightarrow> bool" where
  "UseTLS c \<longleftrightarrow> Cert c \<noteq> [] \<and> Key c \<noteq> []"

definition IsPublic :: "Configuration \<Rightarrow> bool" where
  "IsPublic c \<longleftrightarrow> Public c"

section \<open>Defaults\<close>

definition default_aws :: AwsConfig where
  "default_aws =
     \<lparr>Aws_AccessKeyId = [], Aws_SecretAccessKey = [], Aws_Region = ''USWest'',
      Aws_BucketName = ''lfs-server-go-objects'', Aws_BucketAcl = ''bucket-owner-full-control'',
      Aws_Enabled = False\<rparr>"

definition default_ldap :: LdapConfig where
  "default_ldap =
     \<lparr>Ldap_Enabled = False, Ldap_Server = ''ldap://localhost:1389'',
      Ldap_Base = ''dc=testers,c=test,o=company'', Ldap_UserObjectClass = ''person'',
      Ldap_UserCn = ''uid'', Ldap_BindDn = [], Ldap_BindPass = []\<rparr>"

definition default_cassandra :: CassandraConfig where
  "default_cassandra =
     \<lparr>Cassandra_Hosts = ''localhost'', Cassandra_Keyspace = ''lfs_server_go'',
      Cassandra_ProtoVersion = 3, Cassandra_Username = [], Cassandra_Password = [],
      Cassandra_Enabled = False\<rparr>"

definition default_mysql :: MySQLConfig where
  "default_mysql =
     \<lparr>MySQL_Host = [], MySQL_Database = ''lfs_server_go'', MySQL_Username = [],
      MySQL_Password = [], MySQL_Enabled = False\<rparr>"

definition default_configuration :: "int \<Rightarrow> Configuration" where
  "default_configuration numcpu =
     \<lparr>Listen = ''tcp://:8080'', Host = ''localhost:8080'', UrlContext = [],
      ContentPath = ''lfs-content'', AdminUser = ''admin'', AdminPass = ''admin'',
      Cert = [], Key = [], Scheme = ''http'', Public = True, MetaDB = ''lfs-test.db'',
      BackingStore = ''bolt'', ContentStoreKind = ''filesystem'', LogFile = [],
      NumProcs = numcpu, Aws = default_aws, Cassandra = default_cassandra,
      Ldap = default_ldap, MySQL = default_mysql\<rparr>"

section \<open>Initialisation\<close>

definition config_file :: "bytes \<Rightarrow> bytes" where
  "config_file env = (if env = [] then ''config.ini'' else env)"

definition go_env :: "bytes \<Rightarrow> bytes" where
  "go_env env = (if env = [] then ''production'' else env)"

text \<open>
  A loaded INI file, as the code uses it: the \<open>Scheme\<close> key of the \<open>Main\<close> section and the
  \<^verbatim>\<open>MapTo\<close> of each section, which overwrites fields of the struct it is given.  Every
  error of \<^verbatim>\<open>MapTo\<close> is dropped by the next assignment to \<^verbatim>\<open>err\<close>.
\<close>

record ini_file =
  ini_scheme :: bytes
  ini_main :: "Configuration \<Rightarrow> Configuration"
  ini_aws :: "AwsConfig \<Rightarrow> AwsConfig"
  ini_ldap :: "LdapConfig \<Rightarrow> LdapConfig"
  ini_cassandra :: "CassandraConfig \<Rightarrow> CassandraConfig"
  ini_mysql :: "MySQLConfig \<Rightarrow> MySQLConfig"

text \<open>The local \<^verbatim>\<open>val\<close> of \<^verbatim>\<open>init\<close>: the scheme forced to a valid one.\<close>

definition forced_scheme :: "bytes \<Rightarrow> bytes" where
  "forced_scheme s = (if s = ''http'' \<or> s = ''https'' then s else ''http'')"

text \<open>
  \<^verbatim>\<open>init\<close>: \<open>None\<close> (the load failed) panics.  The forced scheme is computed when the key is
  not empty and its value is never stored, exactly as in the source.
\<close>

definition init_config :: "ini_file option \<Rightarrow> int \<Rightarrow> Configuration outcome" where
  "init_config loaded numcpu =
     (case loaded of
        None \<Rightarrow> Panic (ErrExt ''unable to read config.ini'')
      | Some ini \<Rightarrow>
          let _ = (if ini_scheme ini \<noteq> [] then forced_scheme (ini_scheme ini) else []);
              c0 = default_configuration numcpu;
              c1 = ini_main ini c0
          in Ok (c1\<lparr>Aws := ini_aws ini (Aws c1), Ldap := ini_ldap ini (Ldap c1),
                     Cassandra := ini_cassandra ini (Cassandra c1),
                     MySQL := ini_mysql ini (MySQL c1)\<rparr>))"

lemma init_config_scheme:
  "init_config (Some ini) n = Ok c \<Longrightarrow> Scheme c = Scheme (ini_main ini (default_configuration n))"
  by (auto simp: init_config_def Let_def)

lemma default_not_https: "\<not> IsHTTPS (default_configuration n)"
  by (simp add: IsHTTPS_def default_configuration_def HasPrefix_def)

end
