(* ===== verification/Lfs_Types.thy ===== *)
theory Lfs_Types
  imports Config
begin

text \<open>
  The data of \<^verbatim>\<open>server.go\<close> and the two interfaces through which its handlers reach the
  stores.  A Go interface value is a record of the methods of its dynamic type; each method
  takes the state of the store and returns the new one where it may change it.
\<close>

section \<open>Requests and metadata\<close>

record RequestVars =
  rv_Oid :: bytes
  rv_Size :: int64
  rv_User :: bytes
  rv_Password :: bytes
  rv_Namespace :: bytes
  rv_Repo :: bytes
  rv_Authorization :: bytes

record MetaObject =
  mo_Oid :: bytes
  mo_Size :: int64
  mo_ProjectNames :: "bytes list"
  mo_Existing :: bool

record MetaProject =
  mp_Name :: bytes
  mp_Oids :: "bytes list"

record MetaUser =
  mu_Name :: bytes
  mu_Password :: bytes

record link =
  Href :: bytes
  Header :: "bytes \<rightharpoonup> bytes"

record Representation =
  rep_Oid :: bytes
  rep_Size :: int64
  rep_Links :: "bytes \<rightharpoonup> link"

text \<open>The zero value of \<^verbatim>\<open>RequestVars\<close>.\<close>

definition zero_vars :: RequestVars where
  "zero_vars = \<lparr>rv_Oid = [], rv_Size = 0, rv_User = [], rv_Password = [], rv_Namespace = [],
     rv_Repo = [], rv_Authorization = []\<rparr>"

definition ObjectLink :: "Configuration \<Rightarrow> RequestVars \<Rightarrow> bytes" where
  "ObjectLink c v =
     (let path = ''/'' @ rv_Namespace v @ ''/'' @ rv_Repo v @ ''/objects/'' @ rv_Oid v
      in if IsHTTPS c then Scheme c @ ''://'' @ Host c @ path
         else ''http://'' @ Host c @ path)"

section \<open>Readers\<close>

text \<open>
  An \<^verbatim>\<open>io.Reader\<close> that is read to its end: the bytes it yields and the error that ends it,
  \<open>None\<close> for a clean end of file.
\<close>

type_synonym reader = "bytes \<times> GoError option"

section \<open>The store interfaces\<close>

record 's GenericMetaStore =
  ms_Put :: "'s \<Rightarrow> RequestVars \<Rightarrow> 's \<times> MetaObject outcome"
  ms_Get :: "'s \<Rightarrow> RequestVars \<Rightarrow> MetaObject outcome"
  ms_DeleteUser :: "'s \<Rightarrow> bytes \<Rightarrow> 's \<times> unit outcome"
  ms_AddUser :: "'s \<Rightarrow> bytes \<Rightarrow> bytes \<Rightarrow> 's \<times> unit outcome"
  ms_AddProject :: "'s \<Rightarrow> bytes \<Rightarrow> 's \<times> unit outcome"
  ms_Users :: "'s \<Rightarrow> MetaUser list outcome"
  ms_Objects :: "'s \<Rightarrow> MetaObject list outcome"
  ms_Projects :: "'s \<Rightarrow> MetaProject list outcome"

record 'c GenericContentStore =
  cs_Get :: "'c \<Rightarrow> MetaObject \<Rightarrow> reader outcome"
  cs_Put :: "'c \<Rightarrow> MetaObject \<Rightarrow> reader \<Rightarrow> 'c \<times> unit outcome"
  cs_Exists :: "'c \<Rightarrow> MetaObject \<Rightarrow> bool"

end
