(* ===== verification/Go_Sha256.thy ===== *)
theory Go_Sha256
  imports Prelude
begin

text \<open>
  Go's \<^verbatim>\<open>crypto/sha256\<close> (\<^verbatim>\<open>sha256.New\<close>, \<^verbatim>\<open>Write\<close>, \<^verbatim>\<open>Sum\<close>) and \<^verbatim>\<open>encoding/hex\<close>, the
  functions with which both content stores check an upload against its OID.  The hash is
  executable: \<open>Sha256_Vectors\<close> evaluates it on the content that the repository's own tests
  upload (\<^verbatim>\<open>harbour_test.go\<close>).  The constants are written in decimal.

  The message schedule is kept as a window of the last sixteen words, so that a block is
  one recursion over the round constants: the head of the window is the word of the round.
\<close>

unbundle bit_operations_syntax

type_synonym u32 = "32 word"

definition rotr :: "nat \<Rightarrow> u32 \<Rightarrow> u32" where
  "rotr n x = drop_bit n x OR push_bit (32 - n) x"

definition round_constants :: "u32 list" where
  "round_constants =
   [1116352408, 1899447441, 3049323471, 3921009573, 961987163, 1508970993, 2453635748,
    2870763221, 3624381080, 310598401, 607225278, 1426881987, 1925078388, 2162078206,
    2614888103, 3248222580, 3835390401, 4022224774, 264347078, 604807628, 770255983,
    1249150122, 1555081692, 1996064986, 2554220882, 2821834349, 2952996808, 3210313671,
    3336571891, 3584528711, 113926993, 338241895, 666307205, 773529912, 1294757372, 1396182291,
    1695183700, 1986661051, 2177026350, 2456956037, 2730485921, 2820302411, 3259730800,
    3345764771, 3516065817, 3600352804, 4094571909, 275423344, 430227734, 506948616, 659060556,
    883997877, 958139571, 1322822218, 1537002063, 1747873779, 1955562222, 2024104815,
    2227730452, 2361852424, 2428436474, 2756734187, 3204031479, 3329325298]"

definition initial_digest :: "u32 list" where
  "initial_digest =
   [1779033703, 3144134277, 1013904242, 2773480762, 1359893119, 2600822924, 528734635,
    1541459225]"

definition next_word :: "u32 list \<Rightarrow> u32" where
  "next_word w =
     (rotr 17 (w ! 14) XOR rotr 19 (w ! 14) XOR drop_bit 10 (w ! 14)) + w ! 9
     + (rotr 7 (w ! 1) XOR rotr 18 (w ! 1) XOR drop_bit 3 (w ! 1)) + w ! 0"

fun round_step :: "u32 \<Rightarrow> u32 \<Rightarrow> u32 list \<Rightarrow> u32 list" where
  "round_step k w [a, b, c, d, e, f, g, h] =
     (let t1 = h + (rotr 6 e XOR rotr 11 e XOR rotr 25 e) + ((e AND f) XOR (NOT e AND g)) + k + w;
          t2 = (rotr 2 a XOR rotr 13 a XOR rotr 22 a) + ((a AND b) XOR (a AND c) XOR (b AND c))
      in [t1 + t2, a, b, c, d + t1, e, f, g])"
| "round_step k w st = st"

text \<open>The rounds of a block over a run of constants, on the window and the working state.\<close>

fun rounds :: "u32 list \<Rightarrow> u32 list \<times> u32 list \<Rightarrow> u32 list \<times> u32 list" where
  "rounds [] s = s"
| "rounds (k # ks) (w, st) = rounds ks (tl w @ [next_word w], round_step k (w ! 0) st)"

definition block :: "u32 list \<Rightarrow> u32 list \<Rightarrow> u32 list" where
  "block st w = map2 (+) st (snd (rounds round_constants (w, st)))"

section \<open>Padding and the digest\<close>

text \<open>The padded message: the byte 0x80, zeros up to 56 modulo 64, the bit length.\<close>

definition pad_zeros :: "nat \<Rightarrow> nat" where
  "pad_zeros n = (119 - n mod 64) mod 64"

fun be_bytes :: "nat \<Rightarrow> nat \<Rightarrow> bytes" where
  "be_bytes 0 v = []"
| "be_bytes (Suc n) v = be_bytes n (v div 256) @ [char_of v]"

definition padded :: "bytes \<Rightarrow> bytes" where
  "padded m =
     m @ [char_of (128 :: nat)] @ replicate (pad_zeros (length m)) (char_of (0 :: nat))
       @ be_bytes 8 (8 * length m)"

fun be_words :: "bytes \<Rightarrow> u32 list" where
  "be_words (a # b # c # d # rest) =
     (push_bit 24 (of_char a) OR push_bit 16 (of_char b) OR push_bit 8 (of_char c) OR of_char d)
       # be_words rest"
| "be_words _ = []"

fun digest_words :: "nat \<Rightarrow> u32 list \<Rightarrow> u32 list \<Rightarrow> u32 list" where
  "digest_words 0 st ws = st"
| "digest_words (Suc n) st ws = digest_words n (block st (take 16 ws)) (drop 16 ws)"

definition sha256_words :: "bytes \<Rightarrow> u32 list" where
  "sha256_words m = digest_words (length (padded m) div 64) initial_digest (be_words (padded m))"

definition sha256 :: "bytes \<Rightarrow> bytes" where
  "sha256 m = concat (map (\<lambda>w. be_bytes 4 (unat w)) (sha256_words m))"

section \<open>Hexadecimal text\<close>

definition hex_digit :: "nat \<Rightarrow> char" where
  "hex_digit n = (if n < 10 then char_of (48 + n) else char_of (87 + n))"

definition hex_EncodeToString :: "bytes \<Rightarrow> bytes" where
  "hex_EncodeToString s =
     concat (map (\<lambda>c. [hex_digit (of_char c div 16), hex_digit (of_char c mod 16)]) s)"

text \<open>The OID of a content: what \<^verbatim>\<open>hex.EncodeToString(hash.Sum(nil))\<close> yields for it.\<close>

definition oid_of :: "bytes \<Rightarrow> bytes" where
  "oid_of content = hex_EncodeToString (sha256 content)"

section \<open>Shape of a digest\<close>

lemma be_bytes_length: "length (be_bytes n v) = n"
  by (induction n arbitrary: v) simp_all

lemma be_bytes_numeral [go_lib]:
  "be_bytes (numeral k) v = be_bytes (pred_numeral k) (v div 256) @ [char_of v]"
  by (simp only: numeral_eq_Suc [of k] be_bytes.simps replicate_Suc)

lemma replicate_numeral_Cons [go_lib]:
  "replicate (numeral k) x = x # replicate (pred_numeral k) x"
  by (simp only: numeral_eq_Suc [of k] be_bytes.simps replicate_Suc)

lemma round_step_length: "length (round_step k w st) = length st"
  by (induction k w st rule: round_step.induct) (simp_all add: Let_def)

lemma rounds_length: "length (snd (rounds ks s)) = length (snd s)"
  by (induction ks s rule: rounds.induct) (simp_all add: round_step_length)

lemma rounds_append: "rounds (ks @ ls) s = rounds ls (rounds ks s)"
  by (induction ks s rule: rounds.induct) simp_all

lemma digest_words_length: "length (digest_words n st ws) = length st"
  by (induction n arbitrary: st ws) (simp_all add: block_def rounds_length)

lemma sha256_length: "length (sha256 m) = 32"
proof -
  have "length (sha256_words m) = 8"
    by (simp add: sha256_words_def digest_words_length initial_digest_def)
  moreover have "length (concat (map (\<lambda>w. be_bytes 4 (unat w)) ws)) = 4 * length ws"
    for ws :: "u32 list"
    by (induction ws) (simp_all add: be_bytes_length)
  ultimately show ?thesis by (simp add: sha256_def)
qed

definition is_hex :: "char \<Rightarrow> bool" where
  "is_hex c \<longleftrightarrow> c \<in> set ''0123456789abcdef''"

lemma hex_digit_is_hex: "n < 16 \<Longrightarrow> is_hex (hex_digit n)"
proof -
  have "list_all (\<lambda>n. is_hex (hex_digit n)) [0..<16]"
    by code_simp
  then show "n < 16 \<Longrightarrow> is_hex (hex_digit n)" by (simp add: list_all_iff)
qed

lemma hex_EncodeToString_shape:
  "length (hex_EncodeToString s) = 2 * length s \<and> list_all is_hex (hex_EncodeToString s)"
  by (induction s) (auto simp: hex_EncodeToString_def hex_digit_is_hex less_mult_imp_div_less)

lemma oid_of_shape: "length (oid_of m) = 64 \<and> list_all is_hex (oid_of m)"
  using hex_EncodeToString_shape [of "sha256 m"] by (simp add: oid_of_def sha256_length)

end
