(* ===== verification/Interfaces.thy ===== *)
theory Interfaces
  imports Lfs_Types Go_Sha256
begin

text \<open>
  The contracts behind \<^verbatim>\<open>GenericMetaStore\<close> and \<^verbatim>\<open>GenericContentStore\<close>: what the HTTP
  handlers rely on, stated over an abstract state.  \<open>objs s\<close> is the object table of a
  metadata store as a map from OIDs, \<open>auth s a\<close> its verdict on an \<^verbatim>\<open>Authorization\<close> header
  (which may panic), \<open>inv s\<close> its well-formedness; \<open>held c\<close> is the content a content store
  holds for an OID.  The components that implement the interfaces interpret the locales on
  their own definitions.
\<close>

section \<open>Metadata stores\<close>

text \<open>What a stored entry for a request looks like.\<close>

definition entry_for :: "RequestVars \<Rightarrow> MetaObject \<Rightarrow> bool" where
  "entry_for v m \<longleftrightarrow> mo_Oid m = rv_Oid v \<and> mo_Size m = rv_Size v \<and> \<not> mo_Existing m"

text \<open>
  An OID that can stand in a request path (\<^verbatim>\<open>{oid}\<close> matches no separator); the OIDs that the
  hash produces are of that kind.
\<close>

definition routable :: "bytes \<Rightarrow> bool" where
  "routable oid \<longleftrightarrow> CHR ''/'' \<notin> set oid"

lemma hex_routable: "list_all is_hex oid \<Longrightarrow> routable oid"
proof -
  assume "list_all is_hex oid"
  moreover have "\<not> is_hex CHR ''/''" by (simp add: is_hex_def)
  ultimately show ?thesis unfolding routable_def list_all_iff by blast
qed

lemma oid_of_routable: "routable (oid_of b)"
  using oid_of_shape hex_routable by blast

text \<open>
  What every store keeps, even one whose database answers with errors, reports a success that
  was none, or takes two OIDs for one: the table of objects is a ledger.  An entry that
  \<^verbatim>\<open>Get\<close> returns is in it, under a key that the store takes for the one asked for (\<open>same\<close>); a
  \<^verbatim>\<open>Put\<close> does nothing to it except add the entry of its request, for credentials that are
  accepted.
\<close>

locale ledger_store =
  fixes ms :: "'s GenericMetaStore"
    and inv :: "'s \<Rightarrow> bool"
    and auth :: "'s \<Rightarrow> bytes \<Rightarrow> bool outcome"
    and objs :: "'s \<Rightarrow> bytes \<Rightarrow> MetaObject option"
    and same :: "bytes \<Rightarrow> bytes \<Rightarrow> bool"
  assumes get_entry: "inv s \<Longrightarrow> ms_Get ms s v = Ok m \<Longrightarrow>
      auth s (rv_Authorization v) = Ok True \<and> objs s (mo_Oid m) = Some m \<and> same (mo_Oid m) (rv_Oid v)"
    and put_entry: "inv s \<Longrightarrow> ms_Put ms s v = (s', r) \<Longrightarrow> objs s' \<noteq> objs s \<Longrightarrow>
      auth s (rv_Authorization v) = Ok True \<and> objs s (rv_Oid v) = None \<and>
      (\<exists>m. entry_for v m \<and> objs s' = (objs s)(rv_Oid v \<mapsto> m))"
    and put_inv: "inv s \<Longrightarrow> ms_Put ms s v = (s', r) \<Longrightarrow> inv s'"
    and put_auth: "inv s \<Longrightarrow> ms_Put ms s v = (s', r) \<Longrightarrow> auth s' = auth s"
    and entry_oid: "inv s \<Longrightarrow> objs s oid = Some m \<Longrightarrow> mo_Oid m = oid \<and> \<not> mo_Existing m"
    and same_routable: "inv s \<Longrightarrow> same k oid \<Longrightarrow> routable oid \<Longrightarrow> routable k"
begin

lemma put_effect:
  "inv s \<Longrightarrow> ms_Put ms s v = (s', r) \<Longrightarrow>
   objs s' = objs s \<or> (\<exists>m. entry_for v m \<and> objs s' = (objs s)(rv_Oid v \<mapsto> m))"
  using put_entry by blast

text \<open>A \<^verbatim>\<open>Put\<close>, even one that fails, touches no other entry than its own.\<close>

lemma put_other:
  "inv s \<Longrightarrow> ms_Put ms s v = (s', r) \<Longrightarrow> oid \<noteq> rv_Oid v \<Longrightarrow> objs s' oid = objs s oid"
  using put_effect by fastforce

text \<open>No request removes or alters an entry: an OID once known stays known, unchanged.\<close>

lemma put_monotone:
  assumes "inv s" and "ms_Put ms s v = (s', r)" and "objs s oid = Some m"
  shows "objs s' oid = Some m"
  using put_entry [OF assms(1,2)] assms(3) by (cases "objs s' = objs s") auto

end

text \<open>
  What a store does whose database answers: each OID has its own entry, and an announcement
  that reports a new object has added it.
\<close>

locale meta_store = ledger_store ms inv auth objs "(=)"
  for ms :: "'s GenericMetaStore" and inv auth objs +
  assumes auth_no_err: "auth s a \<noteq> Err e"
    and get_denied: "auth s (rv_Authorization v) = Ok False \<Longrightarrow> ms_Get ms s v = Err AuthError"
    and get_panic: "auth s (rv_Authorization v) = Panic e \<Longrightarrow> ms_Get ms s v = Panic e"
    and get_found: "inv s \<Longrightarrow> auth s (rv_Authorization v) = Ok True \<Longrightarrow>
      objs s (rv_Oid v) = Some m \<Longrightarrow> ms_Get ms s v = Ok m"
    and get_missing: "inv s \<Longrightarrow> auth s (rv_Authorization v) = Ok True \<Longrightarrow>
      objs s (rv_Oid v) = None \<Longrightarrow> \<exists>e. ms_Get ms s v = Err e \<and> e \<noteq> AuthError"
    and put_denied: "auth s (rv_Authorization v) = Ok False \<Longrightarrow> ms_Put ms s v = (s, Err AuthError)"
    and put_panic: "auth s (rv_Authorization v) = Panic e \<Longrightarrow> ms_Put ms s v = (s, Panic e)"
    and put_found: "inv s \<Longrightarrow> auth s (rv_Authorization v) = Ok True \<Longrightarrow>
      objs s (rv_Oid v) = Some m \<Longrightarrow> ms_Put ms s v = (s, Ok (m\<lparr>mo_Existing := True\<rparr>))"
    and put_new: "inv s \<Longrightarrow> auth s (rv_Authorization v) = Ok True \<Longrightarrow>
      objs s (rv_Oid v) = None \<Longrightarrow> ms_Put ms s v = (s', Ok m) \<Longrightarrow>
      entry_for v m \<and> (\<exists>m'. entry_for v m' \<and> objs s' = (objs s)(rv_Oid v \<mapsto> m'))"
    and put_new_err: "inv s \<Longrightarrow> auth s (rv_Authorization v) = Ok True \<Longrightarrow>
      ms_Put ms s v = (s', Err e) \<Longrightarrow> e \<noteq> AuthError"
begin

lemma auth_cases:
  obtains (granted) "auth s a = Ok True" | (denied) "auth s a = Ok False"
    | (panic) e where "auth s a = Panic e"
  using auth_no_err [of s a] by (cases "auth s a") auto

lemma get_after_put:
  assumes "inv s" and "auth s (rv_Authorization v) = Ok True" and "ms_Put ms s v = (s', Ok m)"
  obtains m' where "ms_Get ms s' v = Ok m'" "mo_Oid m' = mo_Oid m" "mo_Size m' = mo_Size m"
proof (cases "objs s (rv_Oid v)")
  case None
  with put_new [OF assms(1,2) None assms(3)] obtain m' where
    e: "entry_for v m" "entry_for v m'" and o: "objs s' = (objs s)(rv_Oid v \<mapsto> m')" by blast
  have "ms_Get ms s' v = Ok m'"
    using assms o put_inv put_auth by (intro get_found) auto
  with e that show thesis by (simp add: entry_for_def)
next
  case (Some m0)
  with assms put_found have "s' = s" "m = m0\<lparr>mo_Existing := True\<rparr>" by fastforce+
  with Some assms get_found that show thesis by simp
qed

text \<open>
  The outcome of \<^verbatim>\<open>Get\<close>, as the handlers case on it.
\<close>

lemma get_cases:
  assumes "inv s"
  obtains (found) m where "auth s (rv_Authorization v) = Ok True" "objs s (rv_Oid v) = Some m"
      "ms_Get ms s v = Ok m"
    | (missing) e where "auth s (rv_Authorization v) = Ok True" "objs s (rv_Oid v) = None"
      "ms_Get ms s v = Err e" "e \<noteq> AuthError"
    | (denied) "auth s (rv_Authorization v) = Ok False" "ms_Get ms s v = Err AuthError"
    | (panic) e where "auth s (rv_Authorization v) = Panic e" "ms_Get ms s v = Panic e"
proof (cases rule: auth_cases [of s "rv_Authorization v"])
  case granted
  then show thesis
    using assms get_found get_missing found missing by (cases "objs s (rv_Oid v)") blast+
qed (use get_denied get_panic denied panic in blast)+

end

text \<open>
  A store whose failed \<^verbatim>\<open>Put\<close> leaves the object table as it was.  The Bolt store is one;
  the MySQL store is not.
\<close>

locale atomic_meta_store = meta_store +
  assumes put_fail: "inv s \<Longrightarrow> ms_Put ms s v = (s', r) \<Longrightarrow> \<not> is_ok r \<Longrightarrow> objs s' = objs s"
begin

text \<open>So an entry that appears was reported to the client as created.\<close>

lemma new_entry_reported:
  assumes "inv s" and "ms_Put ms s v = (s', r)" and "objs s oid = None" and "objs s' oid = Some m"
  shows "oid = rv_Oid v \<and> (\<exists>m0. r = Ok m0 \<and> entry_for v m0)"
proof -
  have "oid = rv_Oid v" using assms put_other by fastforce
  moreover have "is_ok r" using assms put_fail by fastforce
  then obtain m0 where m0: "r = Ok m0" by (auto simp: is_ok_iff)
  moreover have "auth s (rv_Authorization v) = Ok True"
    by (rule auth_cases [of s "rv_Authorization v"])
      (use assms m0 put_denied put_panic in auto)
  ultimately show ?thesis
    using assms put_new by blast
qed

end

text \<open>
  The account and project operations of the management pages leave the objects alone.
\<close>

locale managed_ledger = ledger_store +
  assumes add_user_frame: "inv s \<Longrightarrow> ms_AddUser ms s u p = (s', r) \<Longrightarrow> inv s' \<and> objs s' = objs s"
    and delete_user_frame: "inv s \<Longrightarrow> ms_DeleteUser ms s u = (s', r) \<Longrightarrow> inv s' \<and> objs s' = objs s"
    and add_project_frame: "inv s \<Longrightarrow> ms_AddProject ms s n = (s', r) \<Longrightarrow> inv s' \<and> objs s' = objs s"

locale managed_meta_store = meta_store + managed_ledger ms inv auth objs "(=)"

section \<open>Content stores\<close>

text \<open>The test that both content stores make before they keep an upload.\<close>

definition matches_meta :: "MetaObject \<Rightarrow> bytes \<Rightarrow> bool" where
  "matches_meta m b \<longleftrightarrow> int64_len b = mo_Size m \<and> oid_of b = mo_Oid m"

locale content_store =
  fixes cs :: "'c GenericContentStore"
    and ok :: "'c \<Rightarrow> bool"
    and held :: "'c \<Rightarrow> bytes \<Rightarrow> bytes option"
  assumes get_held: "ok c \<Longrightarrow> held c (mo_Oid m) = Some b \<Longrightarrow> cs_Get cs c m = Ok (b, None)"
    and get_absent: "ok c \<Longrightarrow> held c (mo_Oid m) = None \<Longrightarrow> mo_Oid m = oid_of b \<Longrightarrow>
      \<exists>e. cs_Get cs c m = Err e"
    and exists_held: "ok c \<Longrightarrow> mo_Oid m = oid_of b \<Longrightarrow>
      cs_Exists cs c m \<longleftrightarrow> held c (mo_Oid m) \<noteq> None"
    and put_ok: "ok c \<Longrightarrow> cs_Put cs c m (b, err) = (c', Ok ()) \<Longrightarrow>
      matches_meta m b \<and> held c' = (held c)(mo_Oid m \<mapsto> b)"
    and put_frame: "ok c \<Longrightarrow> cs_Put cs c m (b, err) = (c', r) \<Longrightarrow>
      held c' = held c \<or> matches_meta m b \<and> held c' = (held c)(mo_Oid m \<mapsto> b)"
    and put_keeps: "ok c \<Longrightarrow> routable (mo_Oid m) \<Longrightarrow> cs_Put cs c m rd = (c', r) \<Longrightarrow> ok c'"
begin

text \<open>Content that went in comes out.\<close>

lemma download_after_put:
  assumes "ok c" and "cs_Put cs c m (b, None) = (c', Ok ())" and "mo_Oid m' = mo_Oid m"
  shows "cs_Get cs c' m' = Ok (b, None)"
proof -
  note p = put_ok [OF assms(1,2)]
  then have "routable (mo_Oid m)" using oid_of_routable [of b] by (simp add: matches_meta_def)
  from put_keeps [OF assms(1) this assms(2)] p assms(3) show ?thesis
    by (intro get_held) simp_all
qed

text \<open>What a store holds under an OID hashes to that OID, upload after upload.\<close>

definition sound :: "'c \<Rightarrow> bool" where
  "sound c \<longleftrightarrow> (\<forall>oid b. held c oid = Some b \<longrightarrow> oid_of b = oid)"

lemma put_sound:
  assumes "ok c" and "sound c" and "cs_Put cs c m rd = (c', r)"
  shows "sound c'"
proof -
  obtain b err where "rd = (b, err)" by (cases rd)
  with put_frame [OF assms(1)] assms(3)
  have "held c' = held c \<or> matches_meta m b \<and> held c' = (held c)(mo_Oid m \<mapsto> b)" by blast
  then show ?thesis using assms(2) by (auto simp: sound_def matches_meta_def split: if_splits)
qed

lemma put_monotone_content:
  assumes "ok c" and "cs_Put cs c m rd = (c', r)" and "held c oid \<noteq> None"
  shows "held c' oid \<noteq> None"
proof -
  obtain b err where "rd = (b, err)" by (cases rd)
  with put_frame [OF assms(1)] assms(2,3) show ?thesis by fastforce
qed

end

text \<open>
  A store whose failed \<^verbatim>\<open>Put\<close> leaves the contents as they were and which fails when the
  upload cannot be read to its end.  The file store is one; the S3 store is not.
\<close>

locale atomic_content_store = content_store +
  assumes put_reader_err: "ok c \<Longrightarrow> cs_Put cs c m (b, Some e) = (c', r) \<Longrightarrow> \<not> is_ok r"
    and put_failed: "ok c \<Longrightarrow> cs_Put cs c m rd = (c', r) \<Longrightarrow> \<not> is_ok r \<Longrightarrow> held c' = held c"
begin

lemma put_ok_clean:
  assumes "ok c" and "cs_Put cs c m rd = (c', Ok ())"
  shows "snd rd = None"
proof (rule ccontr)
  assume "snd rd \<noteq> None"
  then obtain e where "rd = (fst rd, Some e)" by (metis option.exhaust prod.collapse)
  with put_reader_err [OF assms(1), of m "fst rd" e c' "Ok ()"] assms(2) show False by simp
qed

end

end
