(* ===== verification/Sha256_Vectors.thy ===== *)
theory Sha256_Vectors
  imports Go_Sha256
begin

text \<open>
  Kernel evaluation of the hash on the content that \<^verbatim>\<open>harbour_test.go\<close>
  uploads, whose OID that file states as \<^verbatim>\<open>contentOid\<close>.  The one block is evaluated in
  eight runs of eight rounds.
\<close>

definition test_content :: bytes where
  "test_content = ''this is my content''"

definition test_oid :: bytes where
  "test_oid = ''f97e1b2936a56511b3b6efc99011758e4700d60fb1674d31445d1ee40b663f24''"

definition constants_part :: "nat \<Rightarrow> u32 list" where
  "constants_part i = take 8 (drop (8 * i) round_constants)"

lemma round_constants_parts:
  "round_constants = constants_part 0 @ constants_part 1 @ constants_part 2 @ constants_part 3 @ constants_part 4 @ constants_part 5 @ constants_part 6 @ constants_part 7"
  by (simp add: round_constants_def constants_part_def)

lemmas eval_rounds = constants_part_def round_constants_def initial_digest_def next_word_def rotr_def Let_def

text \<open>The content of the tests.\<close>

lemma test_words:
  "be_words (padded test_content) =
     [0x74686973, 0x20697320, 0x6d792063, 0x6f6e7465, 0x6e748000, 0, 0, 0,
      0, 0, 0, 0, 0, 0, 0, 0x90]"
  by (simp add: test_content_def padded_def pad_zeros_def go_lib)
     (simp add: char_of_def bit_Suc_0_iff)

lemma test_padded_length: "length (padded test_content) = 64"
  by (simp add: test_content_def padded_def pad_zeros_def be_bytes_length)

lemma test_rounds_0:
  "rounds (constants_part 0)
     ([0x74686973, 0x20697320, 0x6d792063, 0x6f6e7465, 0x6e748000, 0, 0, 0,
      0, 0, 0, 0, 0, 0, 0, 0x90],
      initial_digest) =
     ([0, 0, 0, 0, 0, 0, 0, 0x90,
      0x8cee5e0b, 0xa4308032, 0xac8af69f, 0xecb6e1c0, 0x942b8169, 0xace34675, 0xb0bcf300, 0x58cdb947],
      [0x44a5e4af, 0xf66bc589, 0xb2a12b45, 0x893e08ce, 0x92ba8bff, 0xd9161d58, 0x266a320b, 0x8f11c047])"
  by (simp add: eval_rounds)

lemma test_rounds_1:
  "rounds (constants_part 1)
     ([0, 0, 0, 0, 0, 0, 0, 0x90,
      0x8cee5e0b, 0xa4308032, 0xac8af69f, 0xecb6e1c0, 0x942b8169, 0xace34675, 0xb0bcf300, 0x58cdb947],
      [0x44a5e4af, 0xf66bc589, 0xb2a12b45, 0x893e08ce, 0x92ba8bff, 0xd9161d58, 0x266a320b, 0x8f11c047]) =
     ([0x8cee5e0b, 0xa4308032, 0xac8af69f, 0xecb6e1c0, 0x942b8169, 0xace34675, 0xb0bcf300, 0x58cdb947,
      0x8bfce1a7, 0x18286ab0, 0xd97cad79, 0xcc338674, 0x7008cf2f, 0x6484e67e, 0xf7600d90, 0xcedb668],
      [0xd841ee68, 0x357c1b9f, 0x39b59701, 0x810792bc, 0x18703c6f, 0x917df698, 0x56a15db2, 0xccb39f63])"
  by (simp add: eval_rounds)

lemma test_rounds_2:
  "rounds (constants_part 2)
     ([0x8cee5e0b, 0xa4308032, 0xac8af69f, 0xecb6e1c0, 0x942b8169, 0xace34675, 0xb0bcf300, 0x58cdb947,
      0x8bfce1a7, 0x18286ab0, 0xd97cad79, 0xcc338674, 0x7008cf2f, 0x6484e67e, 0xf7600d90, 0xcedb668],
      [0xd841ee68, 0x357c1b9f, 0x39b59701, 0x810792bc, 0x18703c6f, 0x917df698, 0x56a15db2, 0xccb39f63]) =
     ([0x8bfce1a7, 0x18286ab0, 0xd97cad79, 0xcc338674, 0x7008cf2f, 0x6484e67e, 0xf7600d90, 0xcedb668,
      0xfe215e24, 0x83170a4d, 0x21e7706c, 0xe306a73f, 0x7e3d1a74, 0x573aebf8, 0xd80fe370, 0xe5878e33],
      [0x6ccc7088, 0x76abc5e3, 0xe1c2fda1, 0x330eccf9, 0xdd5fca5a, 0x660aeb6d, 0xd25ca2af, 0x998b74bd])"
  by (simp add: eval_rounds)

lemma test_rounds_3:
  "rounds (constants_part 3)
     ([0x8bfce1a7, 0x18286ab0, 0xd97cad79, 0xcc338674, 0x7008cf2f, 0x6484e67e, 0xf7600d90, 0xcedb668,
      0xfe215e24, 0x83170a4d, 0x21e7706c, 0xe306a73f, 0x7e3d1a74, 0x573aebf8, 0xd80fe370, 0xe5878e33],
      [0x6ccc7088, 0x76abc5e3, 0xe1c2fda1, 0x330eccf9, 0xdd5fca5a, 0x660aeb6d, 0xd25ca2af, 0x998b74bd]) =
     ([0xfe215e24, 0x83170a4d, 0x21e7706c, 0xe306a73f, 0x7e3d1a74, 0x573aebf8, 0xd80fe370, 0xe5878e33,
      0x968dbc7b, 0x34b9e556, 0x379d947e, 0x7ba86813, 0x9c701a1, 0xb210ff1a, 0xf9ecde78, 0x56f5548],
      [0xa1ec7c12, 0x541f7ebf, 0x69a76413, 0xa73d6a0, 0xfe118166, 0xf261c70e, 0x86512238, 0xf0521d11])"
  by (simp add: eval_rounds)

lemma test_rounds_4:
  "rounds (constants_part 4)
     ([0xfe215e24, 0x83170a4d, 0x21e7706c, 0xe306a73f, 0x7e3d1a74, 0x573aebf8, 0xd80fe370, 0xe5878e33,
      0x968dbc7b, 0x34b9e556, 0x379d947e, 0x7ba86813, 0x9c701a1, 0xb210ff1a, 0xf9ecde78, 0x56f5548],
      [0xa1ec7c12, 0x541f7ebf, 0x69a76413, 0xa73d6a0, 0xfe118166, 0xf261c70e, 0x86512238, 0xf0521d11]) =
     ([0x968dbc7b, 0x34b9e556, 0x379d947e, 0x7ba86813, 0x9c701a1, 0xb210ff1a, 0xf9ecde78, 0x56f5548,
      0x71a00c0e, 0xfb25212e, 0x6f9398ce, 0xc300db93, 0x306a75d1, 0xca20f9f1, 0xead4e518, 0x45fe37ff],
      [0xdadfb1f6, 0x9676623b, 0x234ae7c4, 0x4621c438, 0xafd9be81, 0x92d706f1, 0xcfe93d3d, 0xb780c80e])"
  by (simp add: eval_rounds)

lemma test_rounds_5:
  "rounds (constants_part 5)
     ([0x968dbc7b, 0x34b9e556, 0x379d947e, 0x7ba86813, 0x9c701a1, 0xb210ff1a, 0xf9ecde78, 0x56f5548,
      0x71a00c0e, 0xfb25212e, 0x6f9398ce, 0xc300db93, 0x306a75d1, 0xca20f9f1, 0xead4e518, 0x45fe37ff],
      [0xdadfb1f6, 0x9676623b, 0x234ae7c4, 0x4621c438, 0xafd9be81, 0x92d706f1, 0xcfe93d3d, 0xb780c80e]) =
     ([0x71a00c0e, 0xfb25212e, 0x6f9398ce, 0xc300db93, 0x306a75d1, 0xca20f9f1, 0xead4e518, 0x45fe37ff,
      0x53747d00, 0x20e1b831, 0xdf59f214, 0x1a6c962c, 0xb847b066, 0x500b7598, 0xb3f1e696, 0x3f23d112],
      [0x6d4c9cd0, 0xad7836a7, 0xfe5082fe, 0x5ba0ae93, 0xae39668f, 0xb2c4d2be, 0x25d4874d, 0x4b04f0b1])"
  by (simp add: eval_rounds)

lemma test_rounds_6:
  "rounds (constants_part 6)
     ([0x71a00c0e, 0xfb25212e, 0x6f9398ce, 0xc300db93, 0x306a75d1, 0xca20f9f1, 0xead4e518, 0x45fe37ff,
      0x53747d00, 0x20e1b831, 0xdf59f214, 0x1a6c962c, 0xb847b066, 0x500b7598, 0xb3f1e696, 0x3f23d112],
      [0x6d4c9cd0, 0xad7836a7, 0xfe5082fe, 0x5ba0ae93, 0xae39668f, 0xb2c4d2be, 0x25d4874d, 0x4b04f0b1]) =
     ([0x53747d00, 0x20e1b831, 0xdf59f214, 0x1a6c962c, 0xb847b066, 0x500b7598, 0xb3f1e696, 0x3f23d112,
      0x6d1088ec, 0xe442738f, 0xe8741807, 0x2bf18079, 0xd45b2be0, 0x84153d49, 0x967e0885, 0x1c42c39],
      [0x3ae173b3, 0x4a314c62, 0x7c2073f4, 0x36dac859, 0x7a6e99fe, 0xc383018b, 0x456b81c4, 0x54f8fe99])"
  by (simp add: eval_rounds)

lemma test_rounds_7:
  "rounds (constants_part 7)
     ([0x53747d00, 0x20e1b831, 0xdf59f214, 0x1a6c962c, 0xb847b066, 0x500b7598, 0xb3f1e696, 0x3f23d112,
      0x6d1088ec, 0xe442738f, 0xe8741807, 0x2bf18079, 0xd45b2be0, 0x84153d49, 0x967e0885, 0x1c42c39],
      [0x3ae173b3, 0x4a314c62, 0x7c2073f4, 0x36dac859, 0x7a6e99fe, 0xc383018b, 0x456b81c4, 0x54f8fe99]) =
     ([0x6d1088ec, 0xe442738f, 0xe8741807, 0x2bf18079, 0xd45b2be0, 0x84153d49, 0x967e0885, 0x1c42c39,
      0x580934f, 0xebc25c79, 0xe60cc253, 0x8ab2d197, 0x1d7e6700, 0x5c218abb, 0x8cfc17a0, 0x30055d9f],
      [0x8f7434c2, 0x7b3db68c, 0x7747fc57, 0xeac18054, 0xf5f28390, 0x1661e4a5, 0x24d94539, 0xaf85720b])"
  by (simp add: eval_rounds)

lemma test_block:
  "sha256_words test_content =
     [0xf97e1b29, 0x36a56511, 0xb3b6efc9, 0x9011758e, 0x4700d60f, 0xb1674d31, 0x445d1ee4, 0xb663f24]"
  by (simp add: sha256_words_def test_padded_length test_words block_def)
     (subst round_constants_parts, simp only: rounds_append test_rounds_0 test_rounds_1
        test_rounds_2 test_rounds_3 test_rounds_4 test_rounds_5 test_rounds_6 test_rounds_7 snd_conv,
      simp add: initial_digest_def)

lemma oid_of_test: "oid_of test_content = test_oid"
  by (simp add: oid_of_def sha256_def test_block hex_EncodeToString_def hex_digit_def test_oid_def
      go_lib)
     (simp add: char_of_def bit_Suc_0_iff)

end
