(* ===== verification/Content_Store.thy ===== *)
theory Content_Store
  imports File_System Interfaces Sha256_Vectors
begin

text \<open>
  \<^verbatim>\<open>content_store.go\<close> and \<^verbatim>\<open>shared_content_store.go\<close>: objects kept as files under a base
  directory, at a path made from the OID.  First the paths, for OIDs of the shape that the
  hash produces and for arbitrary ones; then the three operations; then the contract
  \<open>content_store\<close>, interpreted on them.
\<close>

section \<open>Paths\<close>

definition transformKey :: "bytes \<Rightarrow> bytes" where
  "transformKey key =
     (if length key < 5 then key
      else filepath_Join [take 2 key, take 2 (drop 2 key), drop 4 key])"

definition content_path :: "bytes \<Rightarrow> bytes \<Rightarrow> bytes" where
  "content_path base oid = filepath_Join [base, transformKey oid]"

definition tmp_path :: "bytes \<Rightarrow> bytes \<Rightarrow> bytes" where
  "tmp_path base oid = content_path base oid @ ''.tmp''"

text \<open>The shape of an OID: what hexadecimal text of a SHA-256 digest looks like.\<close>

definition valid_oid :: "bytes \<Rightarrow> bool" where
  "valid_oid oid \<longleftrightarrow> length oid = 64 \<and> list_all is_hex oid"

lemma valid_oid_of [simp]: "valid_oid (oid_of b)"
  using oid_of_shape by (simp add: valid_oid_def)

definition pieces :: "bytes \<Rightarrow> bytes list" where
  "pieces oid = [take 2 oid, take 2 (drop 2 oid), drop 4 oid]"

lemma concat_pieces: "concat (pieces oid) = oid"
  by (simp add: pieces_def flip: drop_drop) (metis append_take_drop_id drop_drop numeral_Bit0)

lemma is_hex_names: "list_all is_hex n \<Longrightarrow> n \<noteq> [] \<Longrightarrow> good_name n"
  by (cases n) (auto simp: good_name_def is_hex_def list_all_iff)

lemma valid_oid_length: "valid_oid oid \<Longrightarrow> length oid = 64"
  by (simp add: valid_oid_def)

lemma valid_pieces_hex: "valid_oid oid \<Longrightarrow> p \<in> set (pieces oid) \<Longrightarrow> list_all is_hex p \<and> p \<noteq> []"
  by (auto simp: pieces_def valid_oid_def list_all_iff dest: in_set_takeD in_set_dropD)

lemma valid_pieces: "valid_oid oid \<Longrightarrow> \<forall>p \<in> set (pieces oid). good_name p"
  using valid_pieces_hex is_hex_names by blast

lemma transformKey_valid:
  assumes "valid_oid oid"
  shows "transformKey oid = JoinByte slash (pieces oid)"
proof -
  have "take 2 oid \<noteq> []" using assms by (auto simp: valid_oid_def)
  then have "transformKey oid = Clean (JoinByte slash (pieces oid))"
    using valid_oid_length [OF assms] by (simp add: transformKey_def filepath_Join_def pieces_def)
  also have "\<dots> = render False (pieces oid)"
    using JoinByte_names_path [of "pieces oid"] valid_pieces [OF assms]
      JoinByte_neq_Nil [of "pieces oid" slash] \<open>take 2 oid \<noteq> []\<close>
    by (simp add: Clean_def path_of_def pieces_def)
  finally show ?thesis by (simp add: render_def pieces_def)
qed

text \<open>Where the content and the temporary file of a valid OID live.\<close>

definition content_key :: "bytes \<Rightarrow> bytes \<Rightarrow> path" where
  "content_key base oid = (rooted base, snd (path_of base) @ pieces oid)"

definition tmp_key :: "bytes \<Rightarrow> bytes \<Rightarrow> path" where
  "tmp_key base oid =
     (rooted base, snd (path_of base) @ [take 2 oid, take 2 (drop 2 oid), drop 4 oid @ ''.tmp''])"

definition dir_key :: "bytes \<Rightarrow> bytes \<Rightarrow> path" where
  "dir_key base oid = (rooted base, snd (path_of base) @ [take 2 oid, take 2 (drop 2 oid)])"

lemma content_path_render:
  assumes "valid_oid oid"
  shows "content_path base oid = render (rooted base) (snd (path_of base) @ pieces oid)"
  using Join_render [of "pieces oid" base] valid_pieces [OF assms] transformKey_valid [OF assms]
  by (simp add: content_path_def pieces_def)

lemma dirs_normal:
  assumes "valid_oid oid"
  shows "normal (rooted base) (snd (path_of base) @ [take 2 oid, take 2 (drop 2 oid)])"
  using valid_pieces [OF assms] by (intro normal_append normal_path_of) (simp add: pieces_def)

lemma path_of_content:
  assumes "valid_oid oid"
  shows "path_of (content_path base oid) = content_key base oid"
  using path_of_render [of "rooted base" "snd (path_of base) @ pieces oid"]
    valid_pieces [OF assms] normal_append [OF normal_path_of]
  by (simp add: content_path_render [OF assms] content_key_def)

lemma path_of_tmp:
  assumes "valid_oid oid"
  shows "path_of (tmp_path base oid) = tmp_key base oid"
proof -
  have "slash \<notin> set (drop 4 oid)"
    using valid_pieces [OF assms] by (simp add: pieces_def good_name_def)
  then have "good_name (drop 4 oid @ ''.tmp'')"
    by (cases "drop 4 oid") (auto simp: good_name_def)
  from path_of_suffix [OF dirs_normal [OF assms] this, of base] show ?thesis
    by (simp add: tmp_path_def content_path_render [OF assms] pieces_def tmp_key_def)
qed

lemma path_of_content_dir:
  assumes "valid_oid oid"
  shows "path_of (filepath_Dir (content_path base oid)) = dir_key base oid"
  using path_of_Dir [OF dirs_normal [OF assms], of "drop 4 oid" base] valid_pieces [OF assms]
  by (simp add: content_path_render [OF assms] pieces_def dir_key_def good_name_def)

text \<open>Distinct OIDs have distinct content paths, and no temporary path is a content path.\<close>

lemma content_key_inj: "content_key base a = content_key base b \<Longrightarrow> a = b"
  using concat_pieces by (metis content_key_def prod.inject same_append_eq)

lemma tmp_key_inj: "tmp_key base a = tmp_key base b \<Longrightarrow> a = b"
proof -
  assume "tmp_key base a = tmp_key base b"
  then have "pieces a = pieces b" by (simp add: tmp_key_def pieces_def)
  then show "a = b" using concat_pieces by metis
qed

lemma tmp_key_not_content: "valid_oid b \<Longrightarrow> tmp_key base a \<noteq> content_key base b"
proof
  assume "valid_oid b" "tmp_key base a = content_key base b"
  then have "drop 4 b = drop 4 a @ ''.tmp''" by (simp add: tmp_key_def content_key_def pieces_def)
  then have "CHR ''.'' \<in> set (drop 4 b)" by simp
  moreover have "list_all is_hex (drop 4 b)"
    using valid_pieces_hex [OF \<open>valid_oid b\<close>] by (simp add: pieces_def)
  moreover have "\<not> is_hex CHR ''.''" by (simp add: is_hex_def)
  ultimately show False unfolding list_all_iff by blast
qed

lemma parent_keys:
  "parent (content_key base oid) = dir_key base oid"
  "parent (tmp_key base oid) = dir_key base oid"
  by (simp_all add: parent_def content_key_def tmp_key_def dir_key_def pieces_def butlast_append)

lemma key_ne [simp]: "snd (content_key base oid) \<noteq> []" "snd (tmp_key base oid) \<noteq> []"
  by (simp_all add: content_key_def tmp_key_def pieces_def)

lemma dir_key_lengths:
  "length (snd (content_key base oid)) = length (snd (path_of base)) + 3"
  "length (snd (tmp_key base oid)) = length (snd (path_of base)) + 3"
  "length (snd (dir_key base oid)) = length (snd (path_of base)) + 2"
  by (simp_all add: content_key_def tmp_key_def dir_key_def pieces_def)

lemma deep_not_dir_chain:
  assumes "length (snd q) = length (snd (path_of base)) + 3"
  shows "q \<noteq> dir_key base oid \<and> q \<notin> set (ancestors (dir_key base oid))"
  using assms ancestor_shorter [of q "dir_key base oid"] by (auto simp: dir_key_lengths)

section \<open>Operations\<close>

definition NewContentStore :: "fs \<Rightarrow> bytes \<Rightarrow> fs \<times> unit outcome" where
  "NewContentStore f base = (if base = [] then (f, Err ENOENT) else MkdirAll f base)"

definition ContentStore_Get :: "bytes \<Rightarrow> fs \<Rightarrow> MetaObject \<Rightarrow> reader outcome" where
  "ContentStore_Get base f m = Open f (content_path base (mo_Oid m))"

text \<open>What \<^verbatim>\<open>Put\<close> decides after the copy: the size first, then the hash.\<close>

definition check_upload :: "MetaObject \<Rightarrow> bytes \<Rightarrow> GoError option" where
  "check_upload m copied =
     (if int64_len copied \<noteq> mo_Size m then Some ErrSizeMismatch
      else if oid_of copied \<noteq> mo_Oid m then Some ErrHashMismatch
      else None)"

definition ContentStore_Put :: "bytes \<Rightarrow> fs \<Rightarrow> MetaObject \<Rightarrow> reader \<Rightarrow> fs \<times> unit outcome" where
  "ContentStore_Put base f m rd =
     (let path = content_path base (mo_Oid m); tmp = tmp_path base (mo_Oid m) in
      case MkdirAll f (filepath_Dir path) of
        (f1, Ok _) \<Rightarrow>
          (case OpenExcl f1 tmp of
             (f2, Ok i) \<Rightarrow>
               (let f3 = Write f2 i (fst rd);
                    (f4, res) =
                      (case snd rd of
                         Some e \<Rightarrow> (f3, Err e)
                       | None \<Rightarrow>
                           (case check_upload m (fst rd) of
                              Some e \<Rightarrow> (f3, Err e)
                            | None \<Rightarrow> Rename f3 tmp path))
                in (Remove f4 tmp, res))
           | (f2, Err e) \<Rightarrow> (f2, Err e)
           | (f2, Panic e) \<Rightarrow> (f2, Panic e))
      | (f1, r) \<Rightarrow> (f1, r))"

definition ContentStore_Exists :: "bytes \<Rightarrow> fs \<Rightarrow> MetaObject \<Rightarrow> bool" where
  "ContentStore_Exists base f m =
     (case Stat f (content_path base (mo_Oid m)) of Err e \<Rightarrow> \<not> IsNotExist e | _ \<Rightarrow> True)"

definition file_store :: "bytes \<Rightarrow> fs GenericContentStore" where
  "file_store base =
     \<lparr>cs_Get = ContentStore_Get base, cs_Put = ContentStore_Put base,
      cs_Exists = ContentStore_Exists base\<rparr>"

section \<open>Well-formed stores\<close>

text \<open>
  The file system is well-formed, the base directory exists, no directory stands where the
  content of an OID goes and no file stands where one of its directories goes.
\<close>

definition clear_way :: "bytes \<Rightarrow> fs \<Rightarrow> bool" where
  "clear_way base f \<longleftrightarrow>
     (\<forall>oid a i. valid_oid oid \<longrightarrow> a \<in> set (ancestors (content_key base oid)) \<longrightarrow>
        entry f a \<noteq> Some (File i))"

definition store_ok :: "bytes \<Rightarrow> fs \<Rightarrow> bool" where
  "store_ok base f \<longleftrightarrow>
     wf_fs f \<and> entry f (path_of base) = Some Dir \<and> clear_way base f \<and>
     (\<forall>oid. valid_oid oid \<longrightarrow> entry f (content_key base oid) \<noteq> Some Dir)"

text \<open>The content that the store holds for an OID.\<close>

definition held_content :: "bytes \<Rightarrow> fs \<Rightarrow> bytes \<Rightarrow> bytes option" where
  "held_content base f oid =
     (if valid_oid oid then
        (case entry f (content_key base oid) of Some (File i) \<Rightarrow> Some (inodes f i) | _ \<Rightarrow> None)
      else None)"

lemma store_ok_wf: "store_ok base f \<Longrightarrow> wf_fs f"
  by (simp add: store_ok_def)

lemma store_ok_not_dir:
  "store_ok base f \<Longrightarrow> valid_oid oid \<Longrightarrow> entry f (content_key base oid) \<noteq> Some Dir"
  by (simp add: store_ok_def)

lemma held_Some:
  "held_content base f oid = Some b \<longleftrightarrow>
     valid_oid oid \<and> (\<exists>i. entry f (content_key base oid) = Some (File i) \<and> inodes f i = b)"
  by (auto simp: held_content_def split: option.splits node.splits)

lemma held_None:
  "store_ok base f \<Longrightarrow> valid_oid oid \<Longrightarrow>
   held_content base f oid = None \<longleftrightarrow> entry f (content_key base oid) = None"
  using store_ok_not_dir [of base f oid]
  by (auto simp: held_content_def split: option.splits node.splits)

lemma Stat_content:
  assumes "store_ok base f" and "valid_oid oid" and "entry f (content_key base oid) = Some n"
  shows "Stat f (content_path base oid) = Ok n"
  using assms Stat_wf [of f "content_path base oid" n] by (simp add: path_of_content store_ok_wf)

lemma Get_held:
  assumes "store_ok base f" and "held_content base f (mo_Oid m) = Some b"
  shows "ContentStore_Get base f m = Ok (b, None)"
  using assms Stat_content [OF assms(1)]
  by (auto simp: held_Some ContentStore_Get_def Open_def)

lemma Get_absent:
  assumes "store_ok base f" and "valid_oid (mo_Oid m)" and "held_content base f (mo_Oid m) = None"
  shows "\<exists>e. ContentStore_Get base f m = Err e"
  using assms Stat_missing [of f "content_path base (mo_Oid m)"]
  by (auto simp: held_None path_of_content ContentStore_Get_def Open_def)

text \<open>
  Steps of an upload in isolation: what each leaves of the held contents.
\<close>

lemma held_cong:
  assumes "\<And>oid i. valid_oid oid \<Longrightarrow>
      entry f' (content_key base oid) = Some (File i) \<longleftrightarrow> entry f (content_key base oid) = Some (File i)"
    and "\<And>oid i. valid_oid oid \<Longrightarrow> entry f (content_key base oid) = Some (File i) \<Longrightarrow>
      inodes f' i = inodes f i"
  shows "held_content base f' = held_content base f"
proof (rule ext, rule option_ext)
  show "held_content base f' oid = Some b \<longleftrightarrow> held_content base f oid = Some b" for oid b
    unfolding held_Some using assms by metis
qed

lemma held_MkdirAll: "MkdirAll f d = (f', r) \<Longrightarrow> held_content base f' = held_content base f"
  using MkdirAll_file [of f d f' r] MkdirAll_ok(2) [of f d f'] MkdirAll_err [of f d f' r]
  by (intro held_cong) (auto simp: MkdirAll_def Let_def split: if_splits)

text \<open>The name of a temporary file, whatever the OID, is never where a content goes.\<close>

lemma tmp_suffix_name: "slash \<notin> set n \<Longrightarrow> good_name (n @ ''.tmp'')"
  by (cases n) (auto simp: good_name_def)

lemma tmp_never_content:
  assumes "valid_oid oid"
  shows "path_of (tmp_path base x) \<noteq> content_key base oid"
proof
  assume eq: "path_of (tmp_path base x) = content_key base oid"
  obtain es n where "snd (path_of (tmp_path base x)) = es @ [n @ ''.tmp'']"
    using path_of_suffix_last [of "''.tmp''" "content_path base x"] tmp_suffix_name
    by (auto simp: tmp_path_def)
  then have "drop 4 oid = n @ ''.tmp''" using eq by (simp add: content_key_def pieces_def)
  then have "CHR ''.'' \<in> set (drop 4 oid)" by simp
  moreover have "list_all is_hex (drop 4 oid)"
    using valid_pieces_hex [OF assms] by (simp add: pieces_def)
  moreover have "\<not> is_hex CHR ''.''" by (simp add: is_hex_def)
  ultimately show False unfolding list_all_iff by blast
qed

section \<open>The course of an upload\<close>

text \<open>
  An upload ends in one of four ways; every fact about \<^verbatim>\<open>Put\<close> starts from this case split.
\<close>

lemma Put_cases:
  assumes "ContentStore_Put base f m rd = (f', r)"
  obtains
    (no_dir) "f' = f" "r = Err ENOTDIR"
  | (no_tmp)
      "MkdirAll f (filepath_Dir (content_path base (mo_Oid m))) = (f', Ok ())" "\<not> is_ok r"
  | (rejected) f1 f2 i e where
      "MkdirAll f (filepath_Dir (content_path base (mo_Oid m))) = (f1, Ok ())"
      "OpenExcl f1 (tmp_path base (mo_Oid m)) = (f2, Ok i)"
      "snd rd = Some e \<or> check_upload m (fst rd) = Some e"
      "f' = Remove (Write f2 i (fst rd)) (tmp_path base (mo_Oid m))" "r = Err e"
  | (renamed) f1 f2 i f4 where
      "MkdirAll f (filepath_Dir (content_path base (mo_Oid m))) = (f1, Ok ())"
      "OpenExcl f1 (tmp_path base (mo_Oid m)) = (f2, Ok i)"
      "snd rd = None" "check_upload m (fst rd) = None"
      "Rename (Write f2 i (fst rd)) (tmp_path base (mo_Oid m)) (content_path base (mo_Oid m)) = (f4, r)"
      "f' = Remove f4 (tmp_path base (mo_Oid m))"
proof -
  obtain f1 r1 where mk: "MkdirAll f (filepath_Dir (content_path base (mo_Oid m))) = (f1, r1)"
    by fastforce
  show thesis
  proof (cases "is_ok r1")
    case False
    with MkdirAll_err [OF mk] assms mk show thesis
      by (intro no_dir) (auto simp: ContentStore_Put_def Let_def)
  next
    case True
    then have r1: "r1 = Ok ()" by (auto simp: is_ok_iff)
    obtain f2 r2 where op: "OpenExcl f1 (tmp_path base (mo_Oid m)) = (f2, r2)" by fastforce
    show thesis
    proof (cases r2)
      case (Ok i)
      note ok = mk [unfolded r1] op [unfolded Ok]
      show thesis
      proof (cases "snd rd = None \<and> check_upload m (fst rd) = None")
        case True
        obtain f4 r4 where rn: "Rename (Write f2 i (fst rd)) (tmp_path base (mo_Oid m))
            (content_path base (mo_Oid m)) = (f4, r4)" by fastforce
        with True ok assms have "f' = Remove f4 (tmp_path base (mo_Oid m))" "r4 = r"
          by (auto simp: ContentStore_Put_def Let_def)
        with True rn show thesis by (intro renamed [OF ok]) auto
      next
        case False
        then obtain e where "snd rd = Some e \<or> check_upload m (fst rd) = Some e \<and> snd rd = None"
          by (cases "snd rd") auto
        with ok assms show thesis
          by (intro rejected [OF ok]) (auto simp: ContentStore_Put_def Let_def)
      qed
    qed (use OpenExcl_err [OF op] op mk r1 assms no_tmp in \<open>auto simp: ContentStore_Put_def Let_def\<close>)
  qed
qed

lemma check_upload_None: "check_upload m b = None \<longleftrightarrow> matches_meta m b"
  by (simp add: check_upload_def matches_meta_def)

lemma matches_valid: "matches_meta m b \<Longrightarrow> valid_oid (mo_Oid m)"
  by (auto simp: matches_meta_def dest: sym)

section \<open>Successful uploads\<close>

lemma Put_ok:
  assumes wf: "wf_fs f" and put: "ContentStore_Put base f m rd = (f', Ok ())"
  shows "snd rd = None" and "matches_meta m (fst rd)"
    and "held_content base f' = (held_content base f)(mo_Oid m \<mapsto> fst rd)"
    and "entry f' (tmp_key base (mo_Oid m)) = None"
proof -
  let ?oid = "mo_Oid m" and ?b = "fst rd"
  from put obtain f1 f2 i f4 where
      mk: "MkdirAll f (filepath_Dir (content_path base ?oid)) = (f1, Ok ())"
    and op: "OpenExcl f1 (tmp_path base ?oid) = (f2, Ok i)"
    and rd: "snd rd = None" and chk: "check_upload m ?b = None"
    and rn: "Rename (Write f2 i ?b) (tmp_path base ?oid) (content_path base ?oid) = (f4, Ok ())"
    and f': "f' = Remove f4 (tmp_path base ?oid)"
    by (cases rule: Put_cases [OF put]) auto
  from chk have mm: "matches_meta m ?b" by (simp add: check_upload_None)
  then have v: "valid_oid ?oid" by (rule matches_valid)
  note keys = path_of_content [OF v, of base] path_of_tmp [OF v, of base]
  have neq: "tmp_key base ?oid \<noteq> content_key base ?oid" by (rule tmp_key_not_content [OF v])
  note o = OpenExcl_ok [OF op]
  note r = Rename_ok [OF rn, unfolded keys, OF neq]
  have wf1: "wf_fs f1" by (rule MkdirAll_wf [OF wf mk])
  have fresh: "entry f1 q \<noteq> Some (File i)" for q
    using wf_fresh [OF wf1] o(4) by blast
  have e': "entry f' q = (if q = content_key base ?oid then Some (File i)
      else if q = tmp_key base ?oid then None else entry f1 q)" for q
    unfolding f' Remove_entry r(1) using neq by (simp add: keys o(1))
  have ino: "inodes f' = (inodes f1)(i := ?b)"
    using f' r(2) o(2) by simp
  show "snd rd = None" "matches_meta m ?b" by (fact rd mm)+
  show "entry f' (tmp_key base ?oid) = None" using e' neq by simp
  show "held_content base f' = (held_content base f)(?oid \<mapsto> ?b)"
  proof (rule ext, rule option_ext)
    fix oid b
    show "held_content base f' oid = Some b \<longleftrightarrow> ((held_content base f)(?oid \<mapsto> ?b)) oid = Some b"
    proof (cases "oid = ?oid")
      case True
      then show ?thesis using e' ino v by (auto simp: held_Some)
    next
      case False
      then have ck: "content_key base oid \<noteq> content_key base ?oid" using content_key_inj by blast
      have "held_content base f' oid = Some b \<longleftrightarrow> held_content base f1 oid = Some b"
      proof (cases "valid_oid oid")
        case True
        then have "entry f' (content_key base oid) = entry f1 (content_key base oid)"
          using ck tmp_key_not_content [OF True, of base ?oid] by (simp add: e')
        with fresh [of "content_key base oid"] show ?thesis
          by (auto simp: held_Some ino)
      qed (simp add: held_Some)
      then show ?thesis using False held_MkdirAll [OF mk, of base] by simp
    qed
  qed
qed

section \<open>Failed uploads\<close>

text \<open>
  A failed upload leaves every regular file as it was, name and content, and adds none:
  what remains of it at most is a directory.
\<close>

definition same_files :: "fs \<Rightarrow> fs \<Rightarrow> bool" where
  "same_files f g \<longleftrightarrow>
     (\<forall>q i. entry g q = Some (File i) \<longleftrightarrow> entry f q = Some (File i)) \<and>
     (\<forall>q i. entry f q = Some (File i) \<longrightarrow> inodes g i = inodes f i)"

lemma same_files_MkdirAll: "MkdirAll f d = (g, r) \<Longrightarrow> same_files f g"
  using MkdirAll_file [of f d g r] MkdirAll_ok(2) [of f d g] MkdirAll_err [of f d g r]
  unfolding same_files_def by (cases "is_ok r") (auto simp: is_ok_iff)

lemma same_files_tmp:
  assumes "wf_fs f1" and "OpenExcl f1 t = (f2, Ok i)"
  shows "same_files f1 (Remove (Write f2 i b) t)"
proof -
  note o = OpenExcl_ok [OF assms(2)]
  have fresh: "entry f1 q \<noteq> Some (File i)" for q
    using wf_fresh [OF assms(1)] o(4) by blast
  have "entry (Remove (Write f2 i b) t) q = entry f1 q" for q
    by (auto simp: Remove_entry o(1,5))
  then show ?thesis using fresh unfolding same_files_def by (auto simp: o(2))
qed

lemma same_files_trans: "same_files f g \<Longrightarrow> same_files g h \<Longrightarrow> same_files f h"
  unfolding same_files_def by metis

lemma same_files_held: "same_files f g \<Longrightarrow> held_content base g = held_content base f"
  unfolding same_files_def by (intro held_cong) blast+

lemma Put_failed:
  assumes wf: "wf_fs f" and put: "ContentStore_Put base f m rd = (f', r)" and "\<not> is_ok r"
  shows "same_files f f'"
  using put
proof (cases rule: Put_cases)
  case no_dir
  then show ?thesis by (simp add: same_files_def)
next
  case no_tmp
  then show ?thesis by (intro same_files_MkdirAll)
next
  case (rejected f1 f2 i e)
  from same_files_MkdirAll [OF rejected(1)] show ?thesis
    unfolding rejected(4)
    by (rule same_files_trans) (rule same_files_tmp [OF MkdirAll_wf [OF wf rejected(1)] rejected(2)])
next
  case (renamed f1 f2 i f4)
  then have "f4 = Write f2 i (fst rd)" using assms(3) Rename_err by blast
  with renamed(6) same_files_tmp [OF MkdirAll_wf [OF wf renamed(1)] renamed(2)]
    same_files_MkdirAll [OF renamed(1)] same_files_trans show ?thesis by blast
qed

lemma Put_wf:
  assumes wf: "wf_fs f" and put: "ContentStore_Put base f m rd = (f', r)"
  shows "wf_fs f'"
  using put
proof (cases rule: Put_cases)
  case (rejected f1 f2 i e)
  then show ?thesis
    using MkdirAll_wf [OF wf rejected(1)] OpenExcl_wf [of f1] Remove_wf by auto
next
  case (renamed f1 f2 i f4)
  then have w2: "wf_fs (Write f2 i (fst rd))"
    using MkdirAll_wf [OF wf renamed(1)] OpenExcl_wf [of f1] by auto
  have v: "valid_oid (mo_Oid m)" using renamed(4) by (simp add: check_upload_None matches_valid)
  have "path_of (tmp_path base (mo_Oid m)) \<noteq> path_of (content_path base (mo_Oid m))"
    using tmp_key_not_content [OF v] by (simp add: path_of_tmp [OF v] path_of_content [OF v])
  moreover have "entry (Write f2 i (fst rd)) (path_of (tmp_path base (mo_Oid m))) = Some (File i)"
    using OpenExcl_ok(1) [OF renamed(2)] by simp
  ultimately have "wf_fs f4" by (rule Rename_wf [OF w2 renamed(5)])
  then show ?thesis using renamed(6) Remove_wf by simp
qed (use wf MkdirAll_wf [OF wf] in auto)

section \<open>The store stays well-formed\<close>

text \<open>
  An OID without a separator, the only kind that a request path can carry, puts its content
  at most three levels below the base; the directories made for it are shallower than any
  content of a proper OID.
\<close>

lemma valid_routable: "valid_oid oid \<Longrightarrow> routable oid"
  by (simp add: valid_oid_def hex_routable)

lemma path_of_length_append:
  "b \<noteq> [] \<Longrightarrow> length (snd (path_of (b @ slash # x))) \<le> length (snd (path_of b)) + length (SplitByte slash x)"
  using foldl_clean_length [of "rooted b" "path_stack b" "SplitByte slash x"]
  by (simp add: path_of_def path_stack_def SplitByte_append_gen rooted_append)

lemma path_of_length: "length (snd (path_of p)) \<le> length (SplitByte slash p)"
  using foldl_clean_length [of "rooted p" "[]" "SplitByte slash p"]
  by (simp add: path_of_def path_stack_def)

lemma rooted_no_slash: "slash \<notin> set p \<Longrightarrow> \<not> rooted p"
  by (cases p) (auto simp: rooted_def HasPrefix_def)

lemma transformKey_split:
  assumes "routable oid"
  shows "length (SplitByte slash (transformKey oid)) \<le> 3"
proof (cases "length oid < 5")
  case True
  with assms show ?thesis by (simp add: transformKey_def routable_def SplitByte_no_sep)
next
  case False
  let ?ps = "pieces oid"
  have ns: "\<forall>p \<in> set ?ps. slash \<notin> set p"
    using assms by (auto simp: pieces_def routable_def dest: in_set_takeD in_set_dropD)
  have hd: "take 2 oid \<noteq> []" using False by auto
  let ?p = "JoinByte slash ?ps"
  have "SplitByte slash ?p = ?ps"
    using ns by (intro SplitByte_JoinByte) (simp_all add: pieces_def)
  then have len: "length (snd (path_of ?p)) \<le> 3" using path_of_length [of ?p] by (simp add: pieces_def)
  have "rooted ?p = rooted (take 2 oid)"
    using hd rooted_append [of "take 2 oid"] by (simp add: pieces_def)
  moreover have "\<not> rooted (take 2 oid)" using ns by (intro rooted_no_slash) (simp add: pieces_def)
  ultimately have "transformKey oid = render False (snd (path_of ?p))"
    using False hd by (simp add: transformKey_def filepath_Join_def pieces_def Clean_def path_of_def)
  moreover have "\<forall>e \<in> set (snd (path_of ?p)). slash \<notin> set e"
    using normal_elems [OF normal_path_of] by (auto simp: clean_elem_def)
  ultimately show ?thesis using len SplitByte_render_length by simp
qed

lemma content_dir_depth:
  assumes "routable oid"
  shows "length (snd (path_of (filepath_Dir (content_path base oid)))) \<le> length (snd (path_of base)) + 2"
proof (cases "base = []")
  case True
  show ?thesis
  proof (cases "transformKey oid = []")
    case True
    with \<open>base = []\<close> show ?thesis
      by (simp add: content_path_def filepath_Join_def filepath_Dir_def Clean_def path_of_def
          path_stack_def clean_step.simps)
  next
    case False
    then have "content_path base oid = Clean (transformKey oid)"
      using \<open>base = []\<close> by (simp add: content_path_def filepath_Join_def)
    then show ?thesis
      using Dir_Clean_length [of "transformKey oid"] path_of_length [of "transformKey oid"]
        transformKey_split [OF assms] by simp
  qed
next
  case False
  then have "content_path base oid = Clean (base @ slash # transformKey oid)"
    by (simp add: content_path_def filepath_Join_two)
  then show ?thesis
    using Dir_Clean_length [of "base @ slash # transformKey oid"]
      path_of_length_append [OF False, of "transformKey oid"] transformKey_split [OF assms] by simp
qed

text \<open>
  Entries survive an upload, but for the temporary file: no name is lost, and a file that
  appears is at the temporary path or, with the right content, at the content path.
\<close>

lemma Put_new_file:
  assumes wf: "wf_fs f" and put: "ContentStore_Put base f m rd = (f', r)"
    and new: "entry f' q = Some (File i)" and old: "entry f q \<noteq> Some (File i)"
  shows "q = content_key base (mo_Oid m) \<and> valid_oid (mo_Oid m)"
proof -
  have "is_ok r"
    using Put_failed [OF wf put] new old unfolding same_files_def by blast
  then have r: "r = Ok ()" by (auto simp: is_ok_iff)
  from put show ?thesis
  proof (cases rule: Put_cases)
    case (renamed f1 f2 k f4)
    have v: "valid_oid (mo_Oid m)" using renamed(4) by (simp add: check_upload_None matches_valid)
    have neq: "path_of (tmp_path base (mo_Oid m)) \<noteq> path_of (content_path base (mo_Oid m))"
      using tmp_key_not_content [OF v] by (simp add: path_of_tmp [OF v] path_of_content [OF v])
    have "q = path_of (content_path base (mo_Oid m)) \<or> entry f1 q = Some (File i)"
      using new Rename_ok(1) [OF renamed(5) [unfolded r] neq] OpenExcl_ok(1) [OF renamed(2)]
      by (auto simp: renamed(6) Remove_entry split: if_splits)
    then show ?thesis
      using old v MkdirAll_file [OF renamed(1)] by (auto simp: path_of_content)
  qed (use r in auto)
qed

lemma Put_keeps_dir:
  assumes put: "ContentStore_Put base f m rd = (f', r)" and dir: "entry f q = Some Dir"
  shows "entry f' q = Some Dir"
proof -
  have mk: "entry f1 q = Some Dir" if "MkdirAll f d = (f1, Ok ())" for d f1
    using MkdirAll_ok(1) [OF that] dir by simp
  have op: "entry f2 q = Some Dir" if "OpenExcl f1 t = (f2, Ok i)" "entry f1 q = Some Dir" for f1 f2 i t
    using OpenExcl_ok(1,5) [OF that(1)] that(2) by auto
  from put show ?thesis
  proof (cases rule: Put_cases)
    case (rejected f1 f2 i e)
    then show ?thesis using op [OF rejected(2) mk [OF rejected(1)]] by (simp add: Remove_entry)
  next
    case (renamed f1 f2 i f4)
    have d2: "entry f2 q = Some Dir" by (rule op [OF renamed(2) mk [OF renamed(1)]])
    have v: "valid_oid (mo_Oid m)" using renamed(4) by (simp add: check_upload_None matches_valid)
    have neq: "path_of (tmp_path base (mo_Oid m)) \<noteq> path_of (content_path base (mo_Oid m))"
      using tmp_key_not_content [OF v] by (simp add: path_of_tmp [OF v] path_of_content [OF v])
    have "entry f4 q = Some Dir"
    proof (cases "is_ok r")
      case True
      then have "Rename (Write f2 i (fst rd)) (tmp_path base (mo_Oid m))
          (content_path base (mo_Oid m)) = (f4, Ok ())"
        using renamed(5) by (auto simp: is_ok_iff)
      from Rename_ok(1,5) [OF this neq] d2 OpenExcl_ok(1) [OF renamed(2), of q] show ?thesis
        by (auto split: if_splits)
    next
      case False
      with Rename_err [OF renamed(5)] d2 show ?thesis by simp
    qed
    then show ?thesis by (simp add: renamed(6) Remove_entry)
  qed (use dir mk in auto)
qed

lemma ancestor_depth: "a \<in> set (ancestors (content_key base oid)) \<Longrightarrow> a \<noteq> content_key base x"
  using ancestor_shorter [of a "content_key base oid"] by (auto simp: dir_key_lengths)

lemma MkdirAll_content_key:
  assumes "MkdirAll f (filepath_Dir (content_path base x)) = (f', Ok ())" and "routable x"
  shows "entry f' (content_key base oid) = entry f (content_key base oid)"
proof -
  let ?d = "path_of (filepath_Dir (content_path base x))"
  have "length (snd ?d) < length (snd (content_key base oid))"
    using content_dir_depth [OF assms(2), of base] by (simp add: dir_key_lengths)
  then have "content_key base oid \<noteq> ?d \<and> content_key base oid \<notin> set (ancestors ?d)"
    using ancestor_shorter [of "content_key base oid" ?d] by auto
  then show ?thesis by (simp add: MkdirAll_ok(1) [OF assms(1)])
qed

lemma Put_content_not_dir:
  assumes ok: "store_ok base f" and put: "ContentStore_Put base f m rd = (f', r)"
    and rt: "routable (mo_Oid m)" and v: "valid_oid oid"
  shows "entry f' (content_key base oid) \<noteq> Some Dir"
proof -
  have e1: "entry f1 (content_key base oid) \<noteq> Some Dir"
    if "MkdirAll f (filepath_Dir (content_path base (mo_Oid m))) = (f1, Ok ())" for f1
    using MkdirAll_content_key [OF that rt] store_ok_not_dir [OF ok v] by simp
  have e2: "entry f2 (content_key base oid) \<noteq> Some Dir"
    if "OpenExcl f1 t = (f2, Ok i)" "entry f1 (content_key base oid) \<noteq> Some Dir" for f1 f2 t i
    using OpenExcl_ok(1) [OF that(1), of "content_key base oid"] that(2) by simp
  from put show ?thesis
  proof (cases rule: Put_cases)
    case no_dir
    then show ?thesis using ok v by (simp add: store_ok_def)
  next
    case no_tmp
    then show ?thesis using e1 by blast
  next
    case (rejected f1 f2 i e)
    then show ?thesis using e2 [OF rejected(2) e1 [OF rejected(1)]] by (simp add: Remove_entry)
  next
    case (renamed f1 f2 i f4)
    note d = e2 [OF renamed(2) e1 [OF renamed(1)]]
    have et: "entry f2 (path_of (tmp_path base (mo_Oid m))) = Some (File i)"
      using OpenExcl_ok(1) [OF renamed(2)] by simp
    have vm: "valid_oid (mo_Oid m)" using renamed(4) by (simp add: check_upload_None matches_valid)
    have neq: "path_of (tmp_path base (mo_Oid m)) \<noteq> path_of (content_path base (mo_Oid m))"
      using tmp_key_not_content [OF vm] by (simp add: path_of_tmp [OF vm] path_of_content [OF vm])
    have "entry f4 (content_key base oid) \<noteq> Some Dir"
    proof (cases "is_ok r")
      case True
      then have "Rename (Write f2 i (fst rd)) (tmp_path base (mo_Oid m))
          (content_path base (mo_Oid m)) = (f4, Ok ())"
        using renamed(5) by (auto simp: is_ok_iff)
      from Rename_ok(1) [OF this neq] d et show ?thesis by simp
    next
      case False
      with Rename_err [OF renamed(5)] d show ?thesis by simp
    qed
    then show ?thesis by (simp add: renamed(6) Remove_entry)
  qed
qed

lemma Put_store_ok:
  assumes ok: "store_ok base f" and put: "ContentStore_Put base f m rd = (f', r)"
    and rt: "routable (mo_Oid m)"
  shows "store_ok base f'"
proof -
  have "clear_way base f'"
    unfolding clear_way_def
    using ok Put_new_file [OF store_ok_wf [OF ok] put] ancestor_depth
    unfolding store_ok_def clear_way_def by blast
  then show ?thesis
    using ok Put_wf [OF store_ok_wf [OF ok] put] Put_keeps_dir [OF put] Put_content_not_dir [OF ok put rt]
    by (simp add: store_ok_def)
qed

section \<open>The contract of the interface\<close>

lemma Exists_held:
  assumes ok: "store_ok base f" and v: "valid_oid (mo_Oid m)"
  shows "ContentStore_Exists base f m \<longleftrightarrow> held_content base f (mo_Oid m) \<noteq> None"
proof (cases "entry f (content_key base (mo_Oid m))")
  case None
  let ?n = "content_path base (mo_Oid m)"
  have "\<not> list_ex (\<lambda>a. entry f a \<noteq> None \<and> entry f a \<noteq> Some Dir) (ancestors (path_of ?n))"
    using ok v unfolding store_ok_def clear_way_def list_ex_iff path_of_content [OF v]
    by (metis node.exhaust option.exhaust)
  then have "Stat f ?n = Err ENOENT" using None by (simp add: Stat_def Let_def path_of_content [OF v])
  then show ?thesis
    using None held_None [OF ok v] by (simp add: ContentStore_Exists_def IsNotExist_def)
next
  case (Some n)
  then show ?thesis
    using Stat_content [OF ok v Some] held_None [OF ok v] by (simp add: ContentStore_Exists_def)
qed

lemma Put_reader_err:
  "ContentStore_Put base f m (b, Some e) = (f', r) \<Longrightarrow> \<not> is_ok r"
  by (cases rule: Put_cases [of base f m "(b, Some e)" f' r]) auto

interpretation files: atomic_content_store "file_store base" "store_ok base" "held_content base" for base
proof (unfold_locales, goal_cases)
  case (1 c m b)
  then show ?case by (simp add: file_store_def Get_held)
next
  case (2 c m b)
  then show ?case by (simp add: file_store_def Get_absent)
next
  case (3 c m b)
  then show ?case by (simp add: file_store_def Exists_held)
next
  case (4 c m b err c')
  then show ?case
    using Put_ok(2,3) [of c base m "(b, err)" c'] by (simp add: file_store_def store_ok_wf)
next
  case (5 c m b err c' r)
  then show ?case
    using Put_ok(2,3) [of c base m "(b, err)" c'] Put_failed [of c base m "(b, err)" c' r] same_files_held
    by (cases "is_ok r") (auto simp: file_store_def store_ok_wf is_ok_iff)
next
  case (6 c m rd c' r)
  then show ?case using Put_store_ok by (simp add: file_store_def)
next
  case (7 c m b e c' r)
  then show ?case using Put_reader_err by (simp add: file_store_def)
next
  case (8 c m rd c' r)
  then show ?case
    using Put_failed [of c base m rd c' r] same_files_held
    by (simp add: file_store_def store_ok_wf)
qed

text \<open>The operations of the interface record, for use with the facts of the interpretation.\<close>

lemma file_store_simps [simp, store_simps]:
  "cs_Get (file_store base) = ContentStore_Get base"
  "cs_Put (file_store base) = ContentStore_Put base"
  "cs_Exists (file_store base) = ContentStore_Exists base"
  by (simp_all add: file_store_def)

section \<open>When an upload succeeds\<close>

text \<open>A disk that the constructor can start on: an empty one, or one that a store has left.\<close>

definition disk_ok :: "bytes \<Rightarrow> fs \<Rightarrow> bool" where
  "disk_ok base f \<longleftrightarrow>
     wf_fs f \<and> clear_way base f \<and> (\<forall>oid. valid_oid oid \<longrightarrow> entry f (content_key base oid) \<noteq> Some Dir)"

lemma disk_ok_empty: "disk_ok base empty_fs"
proof -
  have "entry empty_fs (content_key base oid) \<noteq> Some Dir" for oid
    using key_ne(1) [of base oid] by (simp add: entry_def empty_fs_def)
  moreover have "clear_way base empty_fs" by (auto simp: clear_way_def entry_def empty_fs_def)
  ultimately show ?thesis using wf_empty by (simp add: disk_ok_def)
qed

lemma store_ok_disk: "store_ok base f \<Longrightarrow> disk_ok base f"
  by (simp add: store_ok_def disk_ok_def)

lemma NewContentStore_kept:
  assumes "disk_ok base f" and "NewContentStore f base = (f', Ok ())"
  shows "store_ok base f'" and "held_content base f' = held_content base f"
proof -
  have mk: "MkdirAll f base = (f', Ok ())" using assms(2) by (simp add: NewContentStore_def split: if_splits)
  have "entry f' (content_key base oid) \<noteq> Some Dir" if "valid_oid oid" for oid
    using MkdirAll_ok(1) [OF mk, of "content_key base oid"] key_ne(1) [of base oid]
      ancestor_shorter [of "content_key base oid" "path_of base"] dir_key_lengths(1) [of base oid]
      assms(1) that by (auto simp: disk_ok_def split: if_splits)
  then show "store_ok base f'"
    using MkdirAll_wf [OF _ mk] MkdirAll_ok(1) [OF mk, of "path_of base"] MkdirAll_file [OF mk] assms(1)
    by (simp add: store_ok_def disk_ok_def clear_way_def)
  show "held_content base f' = held_content base f" by (rule held_MkdirAll [OF mk])
qed

lemma NewContentStore_ok:
  assumes "NewContentStore empty_fs base = (f, Ok ())"
  shows "store_ok base f" and "held_content base f = Map.empty"
proof -
  show "store_ok base f" by (rule NewContentStore_kept(1) [OF disk_ok_empty assms])
  have "entry empty_fs q \<noteq> Some (File i)" for q i by (auto simp: entry_def empty_fs_def split: if_splits)
  then have "held_content base empty_fs = Map.empty" by (intro ext option_ext) (simp add: held_Some)
  then show "held_content base f = Map.empty" using NewContentStore_kept(2) [OF disk_ok_empty assms] by simp
qed

lemma dir_key_ancestor:
  "set (ancestors (content_key base oid)) = insert (dir_key base oid) (set (ancestors (dir_key base oid)))"
  using ancestors_parent [of "content_key base oid"] by (simp add: parent_keys)

lemma MkdirAll_content_ok:
  assumes ok: "store_ok base f" and v: "valid_oid oid"
  obtains f1 where "MkdirAll f (filepath_Dir (content_path base oid)) = (f1, Ok ())"
proof -
  have "\<not> list_ex (\<lambda>a. entry f a \<noteq> None \<and> entry f a \<noteq> Some Dir)
      (ancestors (dir_key base oid) @ [dir_key base oid])"
    using ok v dir_key_ancestor [of base oid] unfolding store_ok_def clear_way_def list_ex_iff
    by (metis node.exhaust option.exhaust Un_iff insert_iff empty_iff list.set set_append)
  then show thesis
    by (intro that) (simp add: MkdirAll_def Let_def path_of_content_dir [OF v])
qed

lemma tmp_key_not_dir_chain:
  "tmp_key base oid \<noteq> dir_key base x \<and> tmp_key base oid \<notin> set (ancestors (dir_key base x))"
  by (rule deep_not_dir_chain) (simp add: dir_key_lengths)

text \<open>
  With the directories in place the name of the temporary file decides: free, the upload
  goes through if it matches; taken, every upload of this OID fails.
\<close>

lemma Put_matching:
  assumes ok: "store_ok base f" and mm: "matches_meta m b"
    and free: "entry f (tmp_key base (mo_Oid m)) = None"
  obtains f' where "ContentStore_Put base f m (b, None) = (f', Ok ())"
proof -
  let ?oid = "mo_Oid m"
  have v: "valid_oid ?oid" by (rule matches_valid [OF mm])
  obtain f1 where mk: "MkdirAll f (filepath_Dir (content_path base ?oid)) = (f1, Ok ())"
    by (rule MkdirAll_content_ok [OF ok v])
  note e1 = MkdirAll_ok(1) [OF mk, unfolded path_of_content_dir [OF v]]
  have "entry f1 (tmp_key base ?oid) = None" "entry f1 (dir_key base ?oid) = Some Dir"
    using free e1 tmp_key_not_dir_chain by auto
  then obtain f2 where op: "OpenExcl f1 (tmp_path base ?oid) = (f2, Ok (next_inode f1))"
    by (simp add: OpenExcl_def Let_def path_of_tmp [OF v] parent_keys)
  note e2 = OpenExcl_ok(1) [OF op, unfolded path_of_tmp [OF v]]
  let ?f3 = "Write f2 (next_inode f1) b"
  have "entry f1 (content_key base ?oid) = entry f (content_key base ?oid)"
    by (rule MkdirAll_content_key [OF mk valid_routable [OF v]])
  then have "entry ?f3 (content_key base ?oid) \<noteq> Some Dir"
    using store_ok_not_dir [OF ok v] e2 tmp_key_not_content [OF v, of base ?oid] by simp
  moreover have "entry ?f3 (dir_key base ?oid) = Some Dir"
    using e1 e2 tmp_key_not_dir_chain [of base ?oid ?oid] by auto
  moreover have "entry ?f3 (tmp_key base ?oid) = Some (File (next_inode f1))" using e2 by simp
  ultimately obtain f4 where
    "Rename ?f3 (tmp_path base ?oid) (content_path base ?oid) = (f4, Ok ())"
    using Rename_succeeds [of ?f3 "tmp_path base ?oid" "content_path base ?oid"]
    by (auto simp: path_of_tmp [OF v] path_of_content [OF v] parent_keys)
  then show thesis
    using mk op mm by (intro that) (simp add: ContentStore_Put_def Let_def flip: check_upload_None)
qed

lemma Put_stale_tmp:
  assumes ok: "store_ok base f" and v: "valid_oid (mo_Oid m)"
    and taken: "entry f (tmp_key base (mo_Oid m)) \<noteq> None"
  obtains f' where "ContentStore_Put base f m rd = (f', Err EEXIST)"
proof -
  let ?oid = "mo_Oid m"
  obtain f1 where mk: "MkdirAll f (filepath_Dir (content_path base ?oid)) = (f1, Ok ())"
    by (rule MkdirAll_content_ok [OF ok v])
  have "entry f1 (tmp_key base ?oid) \<noteq> None"
    using taken MkdirAll_ok(1) [OF mk, of "tmp_key base ?oid"] by auto
  then have "OpenExcl f1 (tmp_path base ?oid) = (f1, Err EEXIST)"
    by (simp add: OpenExcl_def Let_def path_of_tmp [OF v])
  then show thesis using mk by (intro that) (simp add: ContentStore_Put_def Let_def)
qed

text \<open>The verdict on any file system, by the branch that decides it.\<close>

lemma content_ancestors:
  "ancestors (content_key base oid) = ancestors (dir_key base oid) @ [dir_key base oid]"
proof -
  obtain es e where "snd (content_key base oid) = es @ [e]"
    using key_ne(1) [of base oid] by (cases "snd (content_key base oid)" rule: rev_cases) auto
  then have "ancestors (content_key base oid) =
      ancestors (parent (content_key base oid)) @ [parent (content_key base oid)]"
    by (simp add: ancestors_def parent_def)
  then show ?thesis unfolding parent_keys .
qed

lemma Put_verdict_any:
  assumes v: "valid_oid (mo_Oid m)"
  shows "snd (ContentStore_Put base f m (b, err)) =
    (if list_ex (\<lambda>a. entry f a \<noteq> None \<and> entry f a \<noteq> Some Dir) (ancestors (content_key base (mo_Oid m)))
     then Err ENOTDIR
     else if entry f (tmp_key base (mo_Oid m)) \<noteq> None then Err EEXIST
     else case err of Some e \<Rightarrow> Err e
       | None \<Rightarrow> if int64_len b \<noteq> mo_Size m then Err ErrSizeMismatch
                 else if oid_of b \<noteq> mo_Oid m then Err ErrHashMismatch
                 else if entry f (content_key base (mo_Oid m)) = Some Dir then Err EISDIR
                 else Ok ())"
proof (cases "list_ex (\<lambda>a. entry f a \<noteq> None \<and> entry f a \<noteq> Some Dir) (ancestors (content_key base (mo_Oid m)))")
  case True
  then show ?thesis
    by (simp add: ContentStore_Put_def Let_def MkdirAll_def path_of_content_dir [OF v] content_ancestors)
next
  case False
  let ?oid = "mo_Oid m"
  obtain f1 where mk: "MkdirAll f (filepath_Dir (content_path base ?oid)) = (f1, Ok ())"
    using False by (simp add: MkdirAll_def Let_def path_of_content_dir [OF v] content_ancestors)
  note e1 = MkdirAll_ok(1) [OF mk, unfolded path_of_content_dir [OF v]]
  have t1: "entry f1 (tmp_key base ?oid) = entry f (tmp_key base ?oid)"
    using e1 tmp_key_not_dir_chain by auto
  have d1: "entry f1 (dir_key base ?oid) = Some Dir" using e1 by simp
  show ?thesis
  proof (cases "entry f (tmp_key base ?oid) = None")
    case taken: False
    then have "OpenExcl f1 (tmp_path base ?oid) = (f1, Err EEXIST)"
      using t1 by (simp add: OpenExcl_def Let_def path_of_tmp [OF v])
    then show ?thesis using False taken mk by (simp add: ContentStore_Put_def Let_def)
  next
    case free: True
    then obtain f2 where op: "OpenExcl f1 (tmp_path base ?oid) = (f2, Ok (next_inode f1))"
      using t1 d1 by (simp add: OpenExcl_def Let_def path_of_tmp [OF v] parent_keys)
    note e2 = OpenExcl_ok(1) [OF op, unfolded path_of_tmp [OF v]]
    let ?f3 = "Write f2 (next_inode f1) b"
    have "entry f1 (content_key base ?oid) = entry f (content_key base ?oid)"
      by (rule MkdirAll_content_key [OF mk valid_routable [OF v]])
    then have c3: "entry ?f3 (content_key base ?oid) = entry f (content_key base ?oid)"
      using e2 tmp_key_not_content [OF v, of base ?oid] by simp
    have d3: "entry ?f3 (dir_key base ?oid) = Some Dir"
      using d1 e2 tmp_key_not_dir_chain [of base ?oid ?oid] by auto
    have t3: "entry ?f3 (tmp_key base ?oid) = Some (File (next_inode f1))" using e2 by simp
    have "snd (Rename ?f3 (tmp_path base ?oid) (content_path base ?oid)) =
        (if entry f (content_key base ?oid) = Some Dir then Err EISDIR else Ok ())"
      using c3 d3 t3
      by (cases "entry f (content_key base ?oid)"; cases "the (entry f (content_key base ?oid))")
        (auto simp: Rename_def Let_def path_of_tmp [OF v] path_of_content [OF v] parent_keys)
    then show ?thesis
      using False free mk op
      by (cases "Rename ?f3 (tmp_path base ?oid) (content_path base ?oid)"; cases err)
        (auto simp: ContentStore_Put_def Let_def check_upload_def)
  qed
qed

lemma Put_verdict:
  assumes ok: "store_ok base f" and v: "valid_oid (mo_Oid m)"
    and free: "entry f (tmp_key base (mo_Oid m)) = None"
  shows "snd (ContentStore_Put base f m (b, err)) =
    (case err of Some e \<Rightarrow> Err e
     | None \<Rightarrow> if int64_len b \<noteq> mo_Size m then Err ErrSizeMismatch
               else if oid_of b \<noteq> mo_Oid m then Err ErrHashMismatch else Ok ())"
proof -
  have "\<not> list_ex (\<lambda>a. entry f a \<noteq> None \<and> entry f a \<noteq> Some Dir) (ancestors (content_key base (mo_Oid m)))"
    using ok v unfolding store_ok_def clear_way_def list_ex_iff by (metis node.exhaust option.exhaust)
  then show ?thesis
    using Put_verdict_any [OF v, of base f b err] free store_ok_not_dir [OF ok v] by (auto split: option.splits)
qed

section \<open>Properties\<close>

text \<open>
  The fixture of the witnesses: a store at the relative path \<^verbatim>\<open>content\<close>, as \<^verbatim>\<open>main\<close>
  creates it, and the object of \<^verbatim>\<open>harbour_test.go\<close>.
\<close>

definition test_base :: bytes where "test_base = ''content''"

definition test_fs :: fs where "test_fs = fst (NewContentStore empty_fs test_base)"

definition test_meta :: MetaObject where
  "test_meta = \<lparr>mo_Oid = test_oid, mo_Size = 18, mo_ProjectNames = [], mo_Existing = False\<rparr>"

lemma test_fs_new: "NewContentStore empty_fs test_base = (test_fs, Ok ())"
proof -
  have "\<not> list_ex (\<lambda>a. entry empty_fs a \<noteq> None \<and> entry empty_fs a \<noteq> Some Dir) as" for as
    by (auto simp: list_ex_iff entry_def empty_fs_def)
  then show ?thesis by (simp add: test_fs_def NewContentStore_def MkdirAll_def Let_def test_base_def)
qed

lemma test_store_ok: "store_ok test_base test_fs"
  by (rule NewContentStore_ok [OF test_fs_new])

lemma test_matches: "matches_meta test_meta test_content"
  using oid_of_test by (simp add: matches_meta_def test_meta_def int64_len_def) (simp add: test_content_def)

lemma test_valid: "valid_oid (mo_Oid test_meta)"
  by (rule matches_valid [OF test_matches])

lemma test_tmp_free: "entry test_fs (tmp_key test_base oid) = None"
proof -
  have mk: "MkdirAll empty_fs test_base = (test_fs, Ok ())"
    using test_fs_new by (simp add: NewContentStore_def test_base_def)
  have "entry empty_fs (tmp_key test_base oid) = None"
    by (simp add: entry_def empty_fs_def)
  then show ?thesis
    using MkdirAll_ok(1) [OF mk, of "tmp_key test_base oid"] dir_key_lengths(2) [of test_base oid]
      ancestor_shorter [of "tmp_key test_base oid" "path_of test_base"]
    by auto
qed

lemma test_put_ok: "\<exists>f'. ContentStore_Put test_base test_fs test_meta (test_content, None) = (f', Ok ())"
  using Put_matching [OF test_store_ok test_matches test_tmp_free] by metis

text \<open>A store in which a directory stands where the content of the test object goes.\<close>

definition blocked_fs :: fs where
  "blocked_fs = fst (MkdirAll test_fs (content_path test_base test_oid))"

lemma blocked_fs_entries:
  "\<not> list_ex (\<lambda>a. entry blocked_fs a \<noteq> None \<and> entry blocked_fs a \<noteq> Some Dir)
     (ancestors (path_of (content_path test_base test_oid)))"
  "entry blocked_fs (path_of (tmp_path test_base test_oid)) = None"
  "entry blocked_fs (path_of (content_path test_base test_oid)) = Some Dir"
  "\<not> list_ex (\<lambda>a. entry test_fs a \<noteq> None \<and> entry test_fs a \<noteq> Some Dir)
     (ancestors (path_of (content_path test_base test_oid)))"
proof -
  have v: "valid_oid test_oid" using test_valid by (simp add: test_meta_def)
  let ?p = "path_of (content_path test_base test_oid)"
  have nofile: "entry test_fs q \<noteq> Some (File i)" for q i
    using MkdirAll_file [of empty_fs test_base test_fs "Ok ()" q i] test_fs_new
    by (simp add: NewContentStore_def test_base_def) (simp add: entry_def empty_fs_def)
  then have "entry test_fs q = None \<or> entry test_fs q = Some Dir" for q
    by (cases "entry test_fs q"; cases "the (entry test_fs q)") auto
  then have clear: "\<not> list_ex (\<lambda>a. entry test_fs a \<noteq> None \<and> entry test_fs a \<noteq> Some Dir) as" for as
    unfolding list_ex_iff by metis
  show "\<not> list_ex (\<lambda>a. entry test_fs a \<noteq> None \<and> entry test_fs a \<noteq> Some Dir) (ancestors ?p)"
    by (rule clear)
  have mk: "MkdirAll test_fs (content_path test_base test_oid) = (blocked_fs, Ok ())"
    using clear [of "ancestors ?p @ [?p]"] unfolding blocked_fs_def MkdirAll_def Let_def
    by (simp only: if_False fst_conv)
  note e = MkdirAll_ok(1) [OF mk]
  show "entry blocked_fs ?p = Some Dir" by (simp add: e)
  show "\<not> list_ex (\<lambda>a. entry blocked_fs a \<noteq> None \<and> entry blocked_fs a \<noteq> Some Dir) (ancestors ?p)"
    by (auto simp: list_ex_iff e)
  show "entry blocked_fs (path_of (tmp_path test_base test_oid)) = None"
    using ancestor_shorter [of "tmp_key test_base test_oid" "content_key test_base test_oid"]
      tmp_key_not_content [OF v, of test_base test_oid] test_tmp_free [of test_oid]
    by (auto simp: e path_of_tmp [OF v] path_of_content [OF v] dir_key_lengths)
qed

text \<open>
  C18: an upload that reports success stores exactly the bytes it read: a later download of
  the OID returns them to the end, the existence test sees them, their hash is the OID and
  their number the announced size; the contents of all other OIDs are unchanged.
\<close>

theorem upload_then_download:
  assumes "store_ok base f" and "ContentStore_Put base f m (b, err) = (f', Ok ())"
    and "mo_Oid m' = mo_Oid m"
  shows "err = None \<and> ContentStore_Get base f' m' = Ok (b, None) \<and> ContentStore_Exists base f' m' \<and>
    oid_of b = mo_Oid m \<and> int64_len b = mo_Size m \<and>
    (\<forall>oid. oid \<noteq> mo_Oid m \<longrightarrow> held_content base f' oid = held_content base f oid)"
proof -
  note p = Put_ok [OF store_ok_wf [OF assms(1)] assms(2), simplified]
  have "store_ok base f'"
    by (rule Put_store_ok [OF assms(1,2) valid_routable [OF matches_valid [OF p(2)]]])
  then have "ContentStore_Exists base f' m'"
    using Exists_held [of base f' m'] p(2,3) matches_valid assms(3) by simp
  moreover have "ContentStore_Get base f' m' = Ok (b, None)"
    using files.download_after_put [of base f m b f' m'] assms p(1) by simp
  ultimately show ?thesis using p by (simp add: matches_meta_def)
qed

lemma upload_then_download_witness:
  "\<exists>f'. ContentStore_Put test_base test_fs test_meta (test_content, None) = (f', Ok ()) \<and>
     ContentStore_Get test_base f' test_meta = Ok (test_content, None)"
  using test_put_ok upload_then_download [OF test_store_ok _ refl] by blast

text \<open>
  C19: the verdict of an upload under any well-formed OID, on every branch, told from the file
  system before it and from the reader.  A file where one of the directories belongs: not a
  directory.  Else a file or directory with the name of the temporary file: it exists.  Else the
  error of the reader, the size, the hash, in this order.  Else, if a directory stands where the
  content goes, the error of the final renaming; success in all other cases.
\<close>

theorem upload_verdict:
  assumes v: "valid_oid (mo_Oid m)"
  shows "snd (ContentStore_Put base f m (b, err)) =
    (if list_ex (\<lambda>a. entry f a \<noteq> None \<and> entry f a \<noteq> Some Dir) (ancestors (path_of (content_path base (mo_Oid m))))
     then Err ENOTDIR
     else if entry f (path_of (tmp_path base (mo_Oid m))) \<noteq> None then Err EEXIST
     else case err of Some e \<Rightarrow> Err e
       | None \<Rightarrow> if int64_len b \<noteq> mo_Size m then Err ErrSizeMismatch
                 else if oid_of b \<noteq> mo_Oid m then Err ErrHashMismatch
                 else if entry f (path_of (content_path base (mo_Oid m))) = Some Dir then Err EISDIR
                 else Ok ())"
  unfolding path_of_content [OF v] path_of_tmp [OF v] by (rule Put_verdict_any [OF v])

lemma upload_verdict_witness:
  "snd (ContentStore_Put test_base test_fs test_meta (''x'', None)) = Err ErrSizeMismatch \<and>
   snd (ContentStore_Put test_base blocked_fs test_meta (test_content, None)) = Err EISDIR"
proof -
  let ?f = "blocked_fs" and ?p = "path_of (content_path test_base test_oid)"
  have oid: "mo_Oid test_meta = test_oid" by (simp add: test_meta_def)
  note clear = blocked_fs_entries
  have test: "\<not> list_ex (\<lambda>a. entry test_fs a \<noteq> None \<and> entry test_fs a \<noteq> Some Dir) (ancestors ?p)"
    using clear(4) .
  have "path_of (tmp_path test_base test_oid) = tmp_key test_base test_oid"
    using path_of_tmp [OF test_valid] oid by simp
  then have free: "entry test_fs (path_of (tmp_path test_base test_oid)) = None"
    using test_tmp_free by simp
  have m: "int64_len test_content = mo_Size test_meta" "oid_of test_content = test_oid"
    using test_matches oid by (simp_all add: matches_meta_def)
  have "snd (ContentStore_Put test_base ?f test_meta (test_content, None)) = Err EISDIR"
    using upload_verdict [OF test_valid, of test_base ?f test_content None] clear(1,2,3) m oid by simp
  moreover have "snd (ContentStore_Put test_base test_fs test_meta (''x'', None)) = Err ErrSizeMismatch"
    using upload_verdict [OF test_valid, of test_base test_fs "''x''" None] test free oid
    by (simp add: int64_len_def test_meta_def)
  ultimately show ?thesis by blast
qed

text \<open>
  C31: an upload that fails, for whatever reason and wherever it was interrupted by an
  error, leaves every file of the file system as it was, name and bytes, and adds none: no
  partial content becomes visible and no temporary file stays behind.
\<close>

theorem failed_upload_changes_no_file:
  assumes "wf_fs f" and "ContentStore_Put base f m rd = (f', r)" and "r \<noteq> Ok ()"
  shows "(\<forall>q i. entry f' q = Some (File i) \<longleftrightarrow> entry f q = Some (File i)) \<and>
    (\<forall>q i. entry f q = Some (File i) \<longrightarrow> inodes f' i = inodes f i)"
proof -
  have "\<not> is_ok r" using assms(3) by (auto simp: is_ok_iff)
  then show ?thesis using Put_failed [OF assms(1,2)] by (simp add: same_files_def)
qed

lemma failed_upload_changes_no_file_witness:
  "\<exists>f' r. ContentStore_Put test_base test_fs test_meta (''x'', None) = (f', r) \<and> r \<noteq> Ok () \<and>
     (\<forall>q i. entry f' q = Some (File i) \<longleftrightarrow> entry test_fs q = Some (File i))"
proof -
  obtain f' r where p: "ContentStore_Put test_base test_fs test_meta (''x'', None) = (f', r)"
    by fastforce
  then have "r \<noteq> Ok ()"
    by (cases rule: Put_cases) (auto simp: check_upload_def int64_len_def test_meta_def)
  with p failed_upload_changes_no_file [OF store_ok_wf [OF test_store_ok] p] show ?thesis by auto
qed

text \<open>
  C32: OIDs of the proper shape never collide: the content and the temporary file of each lie
  three levels below the base directory, in the same directory, and all these places are distinct.
\<close>

theorem object_paths_distinct:
  assumes "valid_oid a" and "valid_oid b"
  shows "(path_of (content_path base a) = path_of (content_path base b) \<longrightarrow> a = b) \<and>
    (path_of (tmp_path base a) = path_of (tmp_path base b) \<longrightarrow> a = b) \<and>
    path_of (tmp_path base a) \<noteq> path_of (content_path base b) \<and>
    (\<exists>x y z. concat [x, y, z] = a \<and>
       path_of (content_path base a) = (rooted base, snd (path_of base) @ [x, y, z]) \<and>
       path_of (tmp_path base a) = (rooted base, snd (path_of base) @ [x, y, z @ ''.tmp'']))"
proof -
  have "concat [take 2 a, take 2 (drop 2 a), drop 4 a] = a"
    using concat_pieces [of a] unfolding pieces_def .
  then show ?thesis
    using content_key_inj [of base a b] tmp_key_inj [of base a b] tmp_key_not_content [OF assms(2), of base a]
    unfolding path_of_content [OF assms(1)] path_of_content [OF assms(2)]
      path_of_tmp [OF assms(1)] path_of_tmp [OF assms(2)]
    by (auto simp: content_key_def tmp_key_def pieces_def)
qed

lemma object_paths_distinct_witness:
  "\<exists>x y z. concat [x, y, z] = test_oid \<and>
     path_of (tmp_path test_base test_oid) = (False, [''content'', x, y, z @ ''.tmp'']) \<and>
     path_of (tmp_path test_base test_oid) \<noteq> path_of (content_path test_base (oid_of ''a''))"
proof -
  have v: "valid_oid test_oid" using test_valid by (simp add: test_meta_def)
  have "path_of test_base = (False, [''content''])" "\<not> rooted test_base"
    by (simp_all add: test_base_def path_of_def rooted_def HasPrefix_def path_stack_def clean_step.simps)
  then show ?thesis
    using object_paths_distinct [OF v valid_oid_of, of test_base "''a''"] by auto
qed

text \<open>
  C33: OIDs that no hash produces are not confined.  Neither store nor handlers check the
  shape of an OID, and \<^verbatim>\<open>transformKey\<close> splits the four dots in front of a name into two
  \<^verbatim>\<open>..\<close>: such an OID, which a request path can carry, names a file in the directory two
  levels above the base, and a download of it returns that file.
\<close>

theorem dotted_oid_escapes_base:
  assumes n: "good_name n" and base: "path_of base = (True, es @ [d1, d2])"
    and d: "d1 \<noteq> ''..''" "d2 \<noteq> ''..''"
  shows "routable (''....'' @ n) \<and> path_of (content_path base (''....'' @ n)) = (True, es @ [n]) \<and>
    (wf_fs f \<and> entry f (True, es @ [n]) = Some (File i) \<and> mo_Oid m = ''....'' @ n \<longrightarrow>
       ContentStore_Get base f m = Ok (inodes f i, None))"
proof -
  have n0: "n \<noteq> []" "slash \<notin> set n" using n by (auto simp: good_name_def)
  have "rev (path_stack base) = es @ [d1, d2]" and "rooted base" using base by (simp_all add: path_of_def)
  then have b: "path_stack base = d2 # d1 # rev es" "base \<noteq> []" "rooted base"
    by (simp add: rev_swap, auto simp: rooted_def HasPrefix_def)
  have "normal False (replicate 2 ''..'' @ [n])" using n by (intro normalI) auto
  then have nm: "normal False [''..'', ''..'', n]" by (simp add: numeral_2_eq_2)
  let ?x = "''../../'' @ n"
  have x: "?x = render False [''..'', ''..'', n]"
    by (simp add: render_def)
  have px: "SplitByte slash ?x = [''..'', ''..'', n]"
    unfolding x using SplitByte_render [of "[''..'', ''..'', n]" False] n0 by simp
  have "path_of ?x = (False, [''..'', ''..'', n])"
    unfolding x by (rule path_of_render [OF nm])
  then have "transformKey (''....'' @ n) = ?x"
    using n0 by (cases n)
      (simp_all add: transformKey_def filepath_Join_def Clean_def path_of_def render_def)
  then have "path_of (content_path base (''....'' @ n)) = path_of (base @ slash # ?x)"
    using b(2) by (simp add: content_path_def filepath_Join_two)
  also have "\<dots> = (True, es @ [n])"
    using b n d px
    by (simp add: path_of_def rooted_append path_stack_def SplitByte_append_gen clean_step_good)
      (simp add: clean_step.simps)
  finally have p: "path_of (content_path base (''....'' @ n)) = (True, es @ [n])" .
  moreover have "ContentStore_Get base f m = Ok (inodes f i, None)"
    if "wf_fs f" "entry f (True, es @ [n]) = Some (File i)" "mo_Oid m = ''....'' @ n"
    using Stat_wf [OF that(1), of "content_path base (mo_Oid m)" "File i"] that p
    by (simp add: ContentStore_Get_def Open_def)
  ultimately show ?thesis using n0 by (simp add: routable_def)
qed

lemma dotted_oid_escapes_base_witness:
  "path_of (content_path ''/srv/lfs/content'' ''....passwd'') = (True, [''srv'', ''passwd''])"
proof -
  have "path_of (''/srv/lfs'' @ slash # JoinByte slash [''content'']) = (True, [''srv'', ''lfs'', ''content''])"
    by (subst path_of_names) (simp_all add: good_name_def path_of_def rooted_def HasPrefix_def
        path_stack_def clean_step.simps)
  then show ?thesis
    using dotted_oid_escapes_base [of "''passwd''" "''/srv/lfs/content''" "[''srv'']" "''lfs''" "''content''"]
    by (simp add: good_name_def)
qed

end
