(* ===== verification/Upload_Race.thy ===== *)
theory Upload_Race
  imports Content_Store
begin

text \<open>
  \<^verbatim>\<open>ContentStore.Put\<close> as the sequence of system calls that it is, run by any number of
  request goroutines at once.  \<open>upload_step\<close> is one system call of one upload; a run of it
  alone gives the sequential \<open>ContentStore_Put\<close>.  Interleaved, the store is sound in every run
  in which no two uploads with the same temporary path are in flight at once, which nothing in
  the code enforces, and it is not in a run in which they are.
\<close>

section \<open>One upload, call by call\<close>

datatype phase =
    Start                     \<comment> \<open>about to make the directory\<close>
  | Made                      \<comment> \<open>about to open the temporary file\<close>
  | Copying nat               \<comment> \<open>in \<^verbatim>\<open>io.Copy\<close>, with the inode of the open file\<close>
  | Renaming nat              \<comment> \<open>checks passed, about to rename\<close>
  | Removing "unit outcome"   \<comment> \<open>about to run the deferred remove, result decided\<close>
  | Done "unit outcome"

record upload =
  up_meta :: MetaObject
  up_input :: reader
  up_copied :: bytes
  up_phase :: phase

definition new_upload :: "MetaObject \<Rightarrow> reader \<Rightarrow> upload" where
  "new_upload m rd = \<lparr>up_meta = m, up_input = rd, up_copied = [], up_phase = Start\<rparr>"

text \<open>
  The next system call of an upload.  In the copy loop \<open>Suc n\<close> bounds the bytes that one
  round of \<^verbatim>\<open>io.Copy\<close> moves; hash and file see the same bytes.
\<close>

definition upload_step :: "bytes \<Rightarrow> nat \<Rightarrow> fs \<Rightarrow> upload \<Rightarrow> fs \<times> upload" where
  "upload_step base n f u =
     (let m = up_meta u; path = content_path base (mo_Oid m); tmp = tmp_path base (mo_Oid m) in
      case up_phase u of
        Start \<Rightarrow>
          (case MkdirAll f (filepath_Dir path) of
             (f', Ok _) \<Rightarrow> (f', u\<lparr>up_phase := Made\<rparr>)
           | (f', r) \<Rightarrow> (f', u\<lparr>up_phase := Done r\<rparr>))
      | Made \<Rightarrow>
          (case OpenExcl f tmp of
             (f', Ok i) \<Rightarrow> (f', u\<lparr>up_phase := Copying i\<rparr>)
           | (f', Err e) \<Rightarrow> (f', u\<lparr>up_phase := Done (Err e)\<rparr>)
           | (f', Panic e) \<Rightarrow> (f', u\<lparr>up_phase := Done (Panic e)\<rparr>))
      | Copying i \<Rightarrow>
          (case up_input u of
             ([], Some e) \<Rightarrow> (f, u\<lparr>up_phase := Removing (Err e)\<rparr>)
           | ([], None) \<Rightarrow>
               (case check_upload m (up_copied u) of
                  Some e \<Rightarrow> (f, u\<lparr>up_phase := Removing (Err e)\<rparr>)
                | None \<Rightarrow> (f, u\<lparr>up_phase := Renaming i\<rparr>))
           | (b, end) \<Rightarrow>
               (Write f i (take (Suc n) b),
                u\<lparr>up_input := (drop (Suc n) b, end), up_copied := up_copied u @ take (Suc n) b\<rparr>))
      | Renaming i \<Rightarrow>
          (let (f', r) = Rename f tmp path in (f', u\<lparr>up_phase := Removing r\<rparr>))
      | Removing r \<Rightarrow> (Remove f tmp, u\<lparr>up_phase := Done r\<rparr>)
      | Done r \<Rightarrow> (f, u))"

subsection \<open>Alone, the calls add up to the sequential operation\<close>

text \<open>
  \<open>finish\<close> completes an upload in one go from any point; every single call leaves what it
  computes unchanged, and from the start it computes \<open>ContentStore_Put\<close>.
\<close>

definition finish_copy :: "bytes \<Rightarrow> fs \<Rightarrow> upload \<Rightarrow> nat \<Rightarrow> fs \<times> unit outcome" where
  "finish_copy base f u i =
     (let m = up_meta u; b = up_copied u @ fst (up_input u); f3 = Write f i (fst (up_input u));
          tmp = tmp_path base (mo_Oid m);
          (f4, r) = (case snd (up_input u) of
              Some e \<Rightarrow> (f3, Err e)
            | None \<Rightarrow> (case check_upload m b of
                Some e \<Rightarrow> (f3, Err e)
              | None \<Rightarrow> Rename f3 tmp (content_path base (mo_Oid m))))
      in (Remove f4 tmp, r))"

definition finish :: "bytes \<Rightarrow> fs \<Rightarrow> upload \<Rightarrow> fs \<times> unit outcome" where
  "finish base f u =
     (let m = up_meta u; tmp = tmp_path base (mo_Oid m); path = content_path base (mo_Oid m) in
      case up_phase u of
        Start \<Rightarrow> ContentStore_Put base f m (up_copied u @ fst (up_input u), snd (up_input u))
      | Made \<Rightarrow>
          (case OpenExcl f tmp of
             (f', Ok i) \<Rightarrow> finish_copy base f' u i
           | (f', Err e) \<Rightarrow> (f', Err e)
           | (f', Panic e) \<Rightarrow> (f', Panic e))
      | Copying i \<Rightarrow> finish_copy base f u i
      | Renaming i \<Rightarrow> (let (f', r) = Rename f tmp path in (Remove f' tmp, r))
      | Removing r \<Rightarrow> (Remove f tmp, r)
      | Done r \<Rightarrow> (f, r))"

lemma finish_copy_phase [simp]:
  "finish_copy base f (u\<lparr>up_phase := p\<rparr>) i = finish_copy base f u i"
  by (simp add: finish_copy_def)

lemma Write_Write: "Write (Write f i a) i b = Write f i (a @ b)"
  by (simp add: Write_def)

lemma Write_Nil [simp]: "Write f i [] = f"
  by (simp add: Write_def)

lemma finish_copy_chunk:
  "finish_copy base (Write f i (take k b))
     (u\<lparr>up_input := (drop k b, end), up_copied := up_copied u @ take k b\<rparr>) i =
   finish_copy base f (u\<lparr>up_input := (b, end)\<rparr>) i"
  by (simp add: finish_copy_def Write_Write)

lemma finish_step:
  assumes "up_phase u = Start \<longrightarrow> up_copied u = []"
    and "upload_step base n f u = (f', u')"
  shows "finish base f' u' = finish base f u"
proof (cases "up_phase u")
  case Start
  with assms show ?thesis
    by (auto simp: upload_step_def Let_def finish_def ContentStore_Put_def finish_copy_def
        split: prod.splits outcome.splits option.splits)
next
  case Made
  with assms show ?thesis
    by (auto simp: upload_step_def Let_def finish_def split: prod.splits outcome.splits)
next
  case (Copying i)
  obtain b err where inp: "up_input u = (b, err)" by (cases "up_input u")
  show ?thesis
  proof (cases b)
    case Nil
    with Copying inp assms show ?thesis
      by (auto simp: upload_step_def Let_def finish_def finish_copy_def split: option.splits)
  next
    case (Cons x xs)
    with Copying inp assms have "f' = Write f i (take (Suc n) b)"
      "u' = u\<lparr>up_input := (drop (Suc n) b, err), up_copied := up_copied u @ take (Suc n) b\<rparr>"
      by (auto simp: upload_step_def Let_def)
    moreover have "u\<lparr>up_input := (b, err)\<rparr> = u" using inp by simp
    ultimately show ?thesis
      using Copying finish_copy_chunk [of base f i "Suc n" b u err] by (simp add: finish_def Let_def)
  qed
qed (use assms in \<open>auto simp: upload_step_def Let_def finish_def split: prod.splits\<close>)

fun solo_run :: "bytes \<Rightarrow> nat list \<Rightarrow> fs \<Rightarrow> upload \<Rightarrow> fs \<times> upload" where
  "solo_run base [] f u = (f, u)"
| "solo_run base (n # ns) f u = (let (f', u') = upload_step base n f u in solo_run base ns f' u')"

lemma upload_step_not_start:
  "upload_step base n f u = (f', u') \<Longrightarrow> up_phase u' \<noteq> Start"
  by (auto simp: upload_step_def Let_def
      split: phase.splits prod.splits outcome.splits option.splits list.splits)

lemma finish_solo_run:
  "up_phase u = Start \<longrightarrow> up_copied u = [] \<Longrightarrow> solo_run base ns f u = (f', u') \<Longrightarrow>
   finish base f' u' = finish base f u"
proof (induction ns arbitrary: f u)
  case (Cons n ns)
  obtain g v where st: "upload_step base n f u = (g, v)" by fastforce
  then have "solo_run base ns g v = (f', u')" using Cons.prems(2) by simp
  then have "finish base f' u' = finish base g v"
    using Cons.IH upload_step_not_start [OF st] by blast
  with finish_step [OF Cons.prems(1) st] show ?case by simp
qed simp

text \<open>
  The size of an upload is the number of calls it has left to make: an upload that keeps
  being scheduled ends.
\<close>

instantiation upload_ext :: (type) size
begin

definition size_upload_ext :: "'a upload_scheme \<Rightarrow> nat" where
  "size_upload_ext u =
     (case up_phase u of
        Start \<Rightarrow> length (fst (up_input u)) + 5
      | Made \<Rightarrow> length (fst (up_input u)) + 4
      | Copying i \<Rightarrow> length (fst (up_input u)) + 3
      | Renaming i \<Rightarrow> 2
      | Removing r \<Rightarrow> 1
      | Done r \<Rightarrow> 0)"

instance ..

end

lemma size_decreases:
  assumes "upload_step base n f u = (f', u')" and "size u \<noteq> 0"
  shows "size u' < size u"
  using assms
  by (auto simp: upload_step_def Let_def size_upload_ext_def
      split: phase.splits prod.splits outcome.splits option.splits list.splits)

lemma size_zero: "size u = 0 \<longleftrightarrow> (\<exists>r. up_phase u = Done r)"
  by (auto simp: size_upload_ext_def split: phase.splits)

lemma Done_stays: "up_phase u = Done r \<Longrightarrow> solo_run base ns f u = (f, u)"
  by (induction ns) (simp_all add: upload_step_def Let_def)

lemma solo_run_done:
  "size u \<le> length ns \<Longrightarrow> solo_run base ns f u = (f', u') \<Longrightarrow> \<exists>r. up_phase u' = Done r"
proof (induction ns arbitrary: f u)
  case Nil
  then show ?case using size_zero [of u] by simp
next
  case (Cons n ns)
  obtain g v where st: "upload_step base n f u = (g, v)" by fastforce
  show ?case
  proof (cases "size u = 0")
    case True
    then obtain r where "up_phase u = Done r" using size_zero by blast
    with Cons.prems Done_stays show ?thesis by (metis prod.inject)
  next
    case False
    from size_decreases [OF st False] Cons.prems(1) have "size v \<le> length ns" by simp
    with Cons.IH [of v g] Cons.prems(2) st show ?thesis by simp
  qed
qed

text \<open>
  C10: an upload made call by call, with any chunking of the copy, ends, and alone it does
  what the sequential \<^verbatim>\<open>Put\<close> does: the same file system, the same result.
\<close>

theorem upload_calls_refine_Put:
  assumes "length (fst rd) + 5 \<le> length ns" and "solo_run base ns f (new_upload m rd) = (f', u')"
  shows "\<exists>r. up_phase u' = Done r \<and> ContentStore_Put base f m rd = (f', r)"
proof -
  have "\<exists>r. up_phase u' = Done r"
    using assms by (intro solo_run_done) (simp_all add: size_upload_ext_def new_upload_def)
  then obtain r where r: "up_phase u' = Done r" ..
  have "finish base f' u' = finish base f (new_upload m rd)"
    using assms(2) by (intro finish_solo_run) (simp_all add: new_upload_def)
  with r show ?thesis by (simp add: finish_def new_upload_def)
qed

lemma upload_calls_refine_Put_witness:
  "\<exists>f' u r. solo_run test_base (replicate 23 3) test_fs (new_upload test_meta (test_content, None)) = (f', u) \<and>
     up_phase u = Done r \<and> ContentStore_Put test_base test_fs test_meta (test_content, None) = (f', r)"
proof -
  have "length (fst (test_content, None :: GoError option)) + 5 \<le> length (replicate 23 (3 :: nat))"
    by (simp add: test_content_def)
  moreover obtain f' u where
    "solo_run test_base (replicate 23 3) test_fs (new_upload test_meta (test_content, None)) = (f', u)"
    by fastforce
  ultimately show ?thesis using upload_calls_refine_Put by blast
qed

section \<open>Many uploads at once\<close>

record server =
  sv_fs :: fs
  sv_uploads :: "nat \<Rightarrow> upload option"

definition fresh_server :: "fs \<Rightarrow> server" where
  "fresh_server f = \<lparr>sv_fs = f, sv_uploads = Map.empty\<rparr>"

definition arrive :: "nat \<Rightarrow> MetaObject \<Rightarrow> reader \<Rightarrow> server \<Rightarrow> server" where
  "arrive k m rd s = s\<lparr>sv_uploads := (sv_uploads s)(k \<mapsto> new_upload m rd)\<rparr>"

definition advance :: "bytes \<Rightarrow> nat \<Rightarrow> nat \<Rightarrow> server \<Rightarrow> server" where
  "advance base n k s =
     (case sv_uploads s k of
        None \<Rightarrow> s
      | Some u \<Rightarrow> (let (f, u') = upload_step base n (sv_fs s) u
                   in \<lparr>sv_fs = f, sv_uploads = (sv_uploads s)(k \<mapsto> u')\<rparr>))"

fun in_flight :: "upload \<Rightarrow> bool" where
  "in_flight u = (case up_phase u of Done _ \<Rightarrow> False | _ \<Rightarrow> True)"

definition upload_tmp :: "bytes \<Rightarrow> upload \<Rightarrow> path" where
  "upload_tmp base u = path_of (tmp_path base (mo_Oid (up_meta u)))"

text \<open>A schedule: which upload makes the next call, and how much its copy moves.\<close>

fun run_calls :: "bytes \<Rightarrow> (nat \<times> nat) list \<Rightarrow> server \<Rightarrow> server" where
  "run_calls base [] s = s"
| "run_calls base ((k, n) # ps) s = run_calls base ps (advance base n k s)"

definition turns :: "nat \<Rightarrow> (nat \<times> nat) list \<Rightarrow> nat" where
  "turns k ps = length (filter (\<lambda>p. fst p = k) ps)"

lemma run_calls_done:
  "sv_uploads s k = Some u \<Longrightarrow> size u \<le> turns k ps \<Longrightarrow>
   \<exists>u' r. sv_uploads (run_calls base ps s) k = Some u' \<and> up_phase u' = Done r"
proof (induction ps arbitrary: s u)
  case Nil
  then show ?case using size_zero [of u] by (auto simp: turns_def)
next
  case (Cons p ps)
  obtain j n where p: "p = (j, n)" by (cases p)
  show ?case
  proof (cases "j = k")
    case False
    then have "sv_uploads (advance base n j s) k = Some u"
      using Cons.prems(1) by (simp add: advance_def split: option.splits prod.splits)
    with Cons False p show ?thesis by (simp add: turns_def)
  next
    case True
    obtain f u1 where st: "upload_step base n (sv_fs s) u = (f, u1)" by fastforce
    then have up: "sv_uploads (advance base n k s) k = Some u1"
      using Cons.prems(1) by (simp add: advance_def)
    have "size u1 \<le> turns k ps"
    proof (cases "size u = 0")
      case True
      then obtain r where "up_phase u = Done r" using size_zero by blast
      then have "u1 = u" using st by (simp add: upload_step_def Let_def)
      with True show ?thesis by simp
    next
      case False
      from size_decreases [OF st False] Cons.prems(2) True p show ?thesis by (simp add: turns_def)
    qed
    with Cons.IH [OF up] True p show ?thesis by simp
  qed
qed

text \<open>The server as it is: nothing keeps a second upload of an OID from starting.\<close>

inductive server_step :: "bytes \<Rightarrow> server \<Rightarrow> server \<Rightarrow> bool" for base where
  request: "sv_uploads s k = None \<Longrightarrow> server_step base s (arrive k m rd s)"
| call: "sv_uploads s k \<noteq> None \<Longrightarrow> server_step base s (advance base n k s)"

inductive_cases server_stepE [consumes 1, case_names request call]: "server_step base s s'"

text \<open>
  A moment at which the uploads in flight have different temporary files.  For well-formed
  OIDs that is to say that no OID is being uploaded twice.
\<close>

definition apart :: "bytes \<Rightarrow> server \<Rightarrow> bool" where
  "apart base s \<longleftrightarrow>
     (\<forall>j k u v. sv_uploads s j = Some u \<longrightarrow> sv_uploads s k = Some v \<longrightarrow> in_flight u \<longrightarrow>
        in_flight v \<longrightarrow> j \<noteq> k \<longrightarrow> upload_tmp base u \<noteq> upload_tmp base v)"

definition apart_step :: "bytes \<Rightarrow> server \<Rightarrow> server \<Rightarrow> bool" where
  "apart_step base s s' \<longleftrightarrow> server_step base s s' \<and> apart base s'"

subsection \<open>One upload per temporary file keeps the store sound\<close>

definition sound_files :: "bytes \<Rightarrow> fs \<Rightarrow> bool" where
  "sound_files base f \<longleftrightarrow> (\<forall>oid b. held_content base f oid = Some b \<longrightarrow> oid_of b = oid)"

text \<open>What holds of one upload at each point, given the file system.\<close>

definition upload_inv :: "bytes \<Rightarrow> fs \<Rightarrow> upload \<Rightarrow> bool" where
  "upload_inv base f u =
     (case up_phase u of
        Copying i \<Rightarrow> entry f (upload_tmp base u) = Some (File i) \<and> inodes f i = up_copied u
      | Renaming i \<Rightarrow> entry f (upload_tmp base u) = Some (File i) \<and> inodes f i = up_copied u \<and>
          check_upload (up_meta u) (up_copied u) = None
      | Removing r \<Rightarrow> r = Ok () \<longrightarrow> held_content base f (mo_Oid (up_meta u)) \<noteq> None
      | Done r \<Rightarrow> r = Ok () \<longrightarrow> held_content base f (mo_Oid (up_meta u)) \<noteq> None
      | _ \<Rightarrow> up_copied u = [])"

definition server_inv :: "bytes \<Rightarrow> server \<Rightarrow> bool" where
  "server_inv base s \<longleftrightarrow>
     wf_fs (sv_fs s) \<and> sound_files base (sv_fs s) \<and>
     (\<forall>k u. sv_uploads s k = Some u \<longrightarrow> upload_inv base (sv_fs s) u) \<and> apart base s"

text \<open>
  What a system call may do to the rest of the server: contents only get replaced by
  contents that match, and a temporary file that belongs to another upload stays as it is.
\<close>

definition harmless :: "bytes \<Rightarrow> path \<Rightarrow> fs \<Rightarrow> fs \<Rightarrow> bool" where
  "harmless base own f f' \<longleftrightarrow>
     wf_fs f' \<and>
     (\<forall>oid b. held_content base f' oid = Some b \<longrightarrow>
        held_content base f oid = Some b \<or> oid_of b = oid) \<and>
     (\<forall>oid. held_content base f oid \<noteq> None \<longrightarrow> held_content base f' oid \<noteq> None) \<and>
     (\<forall>p i. p \<noteq> own \<longrightarrow> (\<forall>oid. valid_oid oid \<longrightarrow> p \<noteq> content_key base oid) \<longrightarrow>
        entry f p = Some (File i) \<longrightarrow> entry f' p = Some (File i) \<and> inodes f' i = inodes f i)"

lemma harmless_refl: "wf_fs f \<Longrightarrow> harmless base own f f"
  by (simp add: harmless_def)

lemma harmless_same_held:
  assumes "wf_fs f'" and "held_content base f' = held_content base f"
    and "\<And>p i. p \<noteq> own \<Longrightarrow> entry f p = Some (File i) \<Longrightarrow>
      entry f' p = Some (File i) \<and> inodes f' i = inodes f i"
  shows "harmless base own f f'"
  using assms by (simp add: harmless_def)

lemma harmless_MkdirAll:
  assumes "wf_fs f" and "MkdirAll f d = (f', r)"
  shows "harmless base own f f'"
proof (cases "is_ok r")
  case True
  then have m: "MkdirAll f d = (f', Ok ())" using assms by (auto simp: is_ok_iff)
  show ?thesis
    using MkdirAll_wf [OF assms] held_MkdirAll [OF assms(2)] MkdirAll_file [OF assms(2)]
      MkdirAll_ok(2) [OF m]
    by (intro harmless_same_held) auto
qed (use MkdirAll_err [OF assms(2)] assms(1) in \<open>simp add: harmless_refl\<close>)

lemma harmless_OpenExcl:
  assumes wf: "wf_fs f" and op: "OpenExcl f (tmp_path base oid) = (f', Ok i)"
  shows "harmless base own f f'"
proof -
  note o = OpenExcl_ok [OF op]
  have fresh: "entry f q \<noteq> Some (File i)" for q using wf_fresh [OF wf] o(4) by blast
  have nc: "content_key base x \<noteq> path_of (tmp_path base oid)" if "valid_oid x" for x
    using tmp_never_content [OF that, of base oid] by metis
  show ?thesis
  proof (rule harmless_same_held)
    show "held_content base f' = held_content base f"
      using fresh [of "content_key base _"] nc
      by (intro held_cong) (metis o(1), metis o(2) fun_upd_other fresh)
    show "entry f' p = Some (File j) \<and> inodes f' j = inodes f j" if "entry f p = Some (File j)" for p j
      using that fresh [of p] o(5) by (cases "p = path_of (tmp_path base oid)"; cases "j = i") (simp_all add: o(1,2))
  qed (rule OpenExcl_wf [OF wf op])
qed

lemma harmless_Write:
  assumes wf: "wf_fs f" and own: "entry f (path_of (tmp_path base oid)) = Some (File i)"
  shows "harmless base (path_of (tmp_path base oid)) f (Write f i b)"
proof -
  have other: "j \<noteq> i" if "entry f p = Some (File j)" "p \<noteq> path_of (tmp_path base oid)" for p j
    using wf_unshared [OF wf] own that by blast
  have nc: "content_key base x \<noteq> path_of (tmp_path base oid)" if "valid_oid x" for x
    using tmp_never_content [OF that, of base oid] by metis
  show ?thesis
  proof (rule harmless_same_held)
    show "held_content base (Write f i b) = held_content base f"
      using other nc by (intro held_cong) auto
    show "entry (Write f i b) p = Some (File j) \<and> inodes (Write f i b) j = inodes f j"
      if "p \<noteq> path_of (tmp_path base oid)" "entry f p = Some (File j)" for p j
      using that other by auto
  qed (use wf in simp)
qed

lemma harmless_Remove:
  assumes wf: "wf_fs f"
  shows "harmless base (path_of (tmp_path base oid)) f (Remove f (tmp_path base oid))"
proof (rule harmless_same_held)
  have nc: "content_key base x \<noteq> path_of (tmp_path base oid)" if "valid_oid x" for x
    using tmp_never_content [OF that, of base oid] by metis
  show "held_content base (Remove f (tmp_path base oid)) = held_content base f"
    using nc by (intro held_cong) (auto simp: Remove_entry)
qed (use Remove_wf [OF wf] in \<open>auto simp: Remove_entry\<close>)

lemma harmless_Rename:
  assumes wf: "wf_fs f" and own: "entry f (path_of (tmp_path base oid)) = Some (File i)"
    and v: "valid_oid oid" and h: "oid_of (inodes f i) = oid"
    and rn: "Rename f (tmp_path base oid) (content_path base oid) = (f', Ok ())"
  shows "harmless base (path_of (tmp_path base oid)) f f' \<and> held_content base f' oid \<noteq> None"
proof -
  let ?t = "path_of (tmp_path base oid)" and ?c = "content_key base oid"
  have pc: "path_of (content_path base oid) = ?c" by (rule path_of_content [OF v])
  have nc: "content_key base x \<noteq> ?t" if "valid_oid x" for x
    using tmp_never_content [OF that, of base oid] by metis
  have neq: "?t \<noteq> path_of (content_path base oid)" using nc [OF v] pc by simp
  note r = Rename_ok [OF rn neq]
  have e: "entry f' q = (if q = ?c then Some (File i) else entry f q)" if "q \<noteq> ?t" for q
    using that own r(1) [of q] pc by simp
  have hl: "held_content base f' x = (if x = oid then Some (inodes f i) else held_content base f x)" for x
  proof (cases "valid_oid x")
    case True
    then show ?thesis
      using e [OF nc [OF True]] content_key_inj [of base x oid]
      by (auto simp: held_content_def r(2) split: option.splits node.splits)
  qed (use v in \<open>auto simp: held_content_def\<close>)
  have "wf_fs f'" by (rule Rename_wf [OF wf rn neq own])
  moreover have "entry f' p = Some (File j) \<and> inodes f' j = inodes f j"
    if "p \<noteq> ?t" "p \<noteq> ?c" "entry f p = Some (File j)" for p j
    using that e by (simp add: r(2))
  ultimately show ?thesis
    unfolding harmless_def using h hl v by auto
qed

lemma upload_step_tmp:
  "upload_step base n f u = (f', u') \<Longrightarrow> up_meta u' = up_meta u"
  by (auto simp: upload_step_def Let_def
      split: phase.splits prod.splits outcome.splits option.splits list.splits)

text \<open>Every call of an upload is harmless to the others and keeps the upload's own invariant.\<close>

lemma upload_step_inv:
  assumes wf: "wf_fs f" and inv: "upload_inv base f u" and st: "upload_step base n f u = (f', u')"
  shows "harmless base (upload_tmp base u) f f' \<and> upload_inv base f' u'"
proof (cases "up_phase u")
  case Start
  obtain g r where mk: "MkdirAll f (filepath_Dir (content_path base (mo_Oid (up_meta u)))) = (g, r)"
    by fastforce
  with st Start have "f' = g" by (cases r) (auto simp: upload_step_def Let_def)
  moreover have "upload_inv base f' u'"
    using st Start mk inv by (cases r) (auto simp: upload_step_def Let_def upload_inv_def
        dest: MkdirAll_err)
  ultimately show ?thesis using harmless_MkdirAll [OF wf mk] by simp
next
  case Made
  obtain g r where op: "OpenExcl f (tmp_path base (mo_Oid (up_meta u))) = (g, r)" by fastforce
  show ?thesis
  proof (cases r)
    case (Ok i)
    with st Made op have f': "f' = g" and u': "u' = u\<lparr>up_phase := Copying i\<rparr>"
      by (auto simp: upload_step_def Let_def)
    have "up_copied u = []" using inv Made by (simp add: upload_inv_def)
    then show ?thesis
      using harmless_OpenExcl [OF wf op [unfolded Ok]] OpenExcl_ok(1,2) [OF op [unfolded Ok]]
      by (simp add: f' u' upload_inv_def upload_tmp_def)
  qed (use st Made op OpenExcl_err [OF op] wf harmless_refl in
      \<open>auto simp: upload_step_def Let_def upload_inv_def\<close>)
next
  case (Copying i)
  then have own: "entry f (upload_tmp base u) = Some (File i)" "inodes f i = up_copied u"
    using inv by (simp_all add: upload_inv_def)
  obtain b err where inp: "up_input u = (b, err)" by (cases "up_input u")
  show ?thesis
  proof (cases b)
    case Nil
    with st Copying inp own wf harmless_refl show ?thesis
      by (auto simp: upload_step_def Let_def upload_inv_def upload_tmp_def split: option.splits)
  next
    case (Cons x xs)
    with st Copying inp have f': "f' = Write f i (take (Suc n) b)"
      and u': "u' = u\<lparr>up_input := (drop (Suc n) b, err), up_copied := up_copied u @ take (Suc n) b\<rparr>"
      by (auto simp: upload_step_def Let_def)
    show ?thesis
      using harmless_Write [OF wf own(1) [unfolded upload_tmp_def]] own Copying
      by (simp add: f' u' upload_inv_def upload_tmp_def)
  qed
next
  case (Renaming i)
  let ?oid = "mo_Oid (up_meta u)"
  have own: "entry f (upload_tmp base u) = Some (File i)" "inodes f i = up_copied u"
    "matches_meta (up_meta u) (up_copied u)"
    using inv Renaming by (simp_all add: upload_inv_def check_upload_None)
  obtain g r where rn: "Rename f (tmp_path base ?oid) (content_path base ?oid) = (g, r)" by fastforce
  with st Renaming have f': "f' = g" and u': "u' = u\<lparr>up_phase := Removing r\<rparr>"
    by (auto simp: upload_step_def Let_def)
  show ?thesis
  proof (cases "r = Ok ()")
    case True
    have "harmless base (upload_tmp base u) f g \<and> held_content base g ?oid \<noteq> None"
      using harmless_Rename [OF wf own(1) [unfolded upload_tmp_def] matches_valid [OF own(3)] _
          rn [unfolded True]] own(2,3)
      by (simp add: matches_meta_def upload_tmp_def)
    then show ?thesis by (simp add: f' u' upload_inv_def)
  next
    case False
    then have "g = f" using Rename_err [OF rn] by (auto simp: is_ok_iff)
    with False show ?thesis using wf harmless_refl by (simp add: f' u' upload_inv_def)
  qed
next
  case (Removing r)
  then have f': "f' = Remove f (tmp_path base (mo_Oid (up_meta u)))" and u': "u' = u\<lparr>up_phase := Done r\<rparr>"
    using st by (auto simp: upload_step_def Let_def)
  note h = harmless_Remove [OF wf, of base "mo_Oid (up_meta u)"]
  then have "r = Ok () \<longrightarrow> held_content base f' (mo_Oid (up_meta u)) \<noteq> None"
    using inv Removing unfolding f' harmless_def by (simp add: upload_inv_def)
  with h show ?thesis by (simp add: f' u' upload_inv_def upload_tmp_def)
next
  case (Done r)
  then show ?thesis
    using st inv wf harmless_refl by (auto simp: upload_step_def Let_def)
qed

text \<open>An upload survives a call that is harmless and not its own.\<close>

lemma upload_inv_harmless:
  assumes h: "harmless base own f f'" and inv: "upload_inv base f v"
    and other: "in_flight v \<Longrightarrow> own \<noteq> upload_tmp base v"
  shows "upload_inv base f' v"
proof -
  have nc: "upload_tmp base v \<noteq> content_key base oid" if "valid_oid oid" for oid
    using tmp_never_content [OF that] by (simp add: upload_tmp_def)
  have keep: "entry f' (upload_tmp base v) = Some (File i) \<and> inodes f' i = inodes f i"
    if "entry f (upload_tmp base v) = Some (File i)" "in_flight v" for i
    using h nc that other unfolding harmless_def by metis
  have held: "held_content base f' oid \<noteq> None" if "held_content base f oid \<noteq> None" for oid
    using h that unfolding harmless_def by blast
  show ?thesis
    using inv keep held by (auto simp: upload_inv_def split: phase.splits)
qed

lemma harmless_sound: "harmless base own f f' \<Longrightarrow> sound_files base f \<Longrightarrow> sound_files base f'"
  unfolding harmless_def sound_files_def by blast

lemma in_flight_before: "upload_step base n f u = (f', u') \<Longrightarrow> in_flight u' \<Longrightarrow> in_flight u"
  by (auto simp: upload_step_def Let_def split: phase.splits)

lemma advance_inv:
  assumes inv: "server_inv base s" and s': "s' = advance base n k s"
  shows "server_inv base s' \<and>
    (\<forall>oid. held_content base (sv_fs s) oid \<noteq> None \<longrightarrow> held_content base (sv_fs s') oid \<noteq> None)"
proof (cases "sv_uploads s k")
  case None
  with inv s' show ?thesis by (simp add: advance_def)
next
  case (Some u)
  obtain f' u' where st: "upload_step base n (sv_fs s) u = (f', u')" by fastforce
  have f': "sv_fs s' = f'" and ups: "sv_uploads s' = (sv_uploads s)(k \<mapsto> u')"
    using Some st s' by (simp_all add: advance_def)
  have wf: "wf_fs (sv_fs s)" and sound: "sound_files base (sv_fs s)"
    and each: "\<And>j v. sv_uploads s j = Some v \<Longrightarrow> upload_inv base (sv_fs s) v"
    and apart: "\<And>j l v w. sv_uploads s j = Some v \<Longrightarrow> sv_uploads s l = Some w \<Longrightarrow> in_flight v \<Longrightarrow>
      in_flight w \<Longrightarrow> j \<noteq> l \<Longrightarrow> upload_tmp base v \<noteq> upload_tmp base w"
    using inv unfolding server_inv_def apart_def by blast+
  have tmp: "upload_tmp base u' = upload_tmp base u"
    using upload_step_tmp [OF st] by (simp add: upload_tmp_def)
  from upload_step_inv [OF wf each [OF Some] st]
  have h: "harmless base (upload_tmp base u) (sv_fs s) f'" and own: "upload_inv base f' u'" by simp_all
  have active: "in_flight u" if "up_phase u' \<noteq> up_phase u \<or> f' \<noteq> sv_fs s"
    using that st by (auto simp: upload_step_def Let_def split: phase.splits)
  have others: "upload_inv base f' v" if "j \<noteq> k" "sv_uploads s j = Some v" for j v
  proof (cases "f' = sv_fs s")
    case True
    then show ?thesis using each [OF that(2)] by simp
  next
    case False
    then show ?thesis
      using upload_inv_harmless [OF h each [OF that(2)]] apart [OF Some that(2)] active that(1) by blast
  qed
  have "\<forall>j v. sv_uploads s' j = Some v \<longrightarrow> upload_inv base f' v"
    using own others ups by (auto split: if_splits)
  moreover have "apart base s'"
    using apart Some tmp in_flight_before [OF st] unfolding ups apart_def
    by (auto split: if_splits simp del: in_flight.simps; metis)
  moreover have "wf_fs f'" using h by (simp add: harmless_def)
  moreover have "\<forall>oid. held_content base (sv_fs s) oid \<noteq> None \<longrightarrow> held_content base f' oid \<noteq> None"
    using h unfolding harmless_def by blast
  ultimately show ?thesis
    using harmless_sound [OF h sound] unfolding server_inv_def f' by blast
qed

lemma arrive_inv:
  assumes inv: "server_inv base s" and "apart base (arrive k m rd s)"
  shows "server_inv base (arrive k m rd s)"
proof -
  have "upload_inv base (sv_fs s) (new_upload m rd)" by (simp add: upload_inv_def new_upload_def)
  then have "\<forall>j v. sv_uploads (arrive k m rd s) j = Some v \<longrightarrow> upload_inv base (sv_fs s) v"
    using inv by (auto simp: server_inv_def arrive_def)
  then show ?thesis
    using inv assms(2) unfolding server_inv_def by (simp add: arrive_def)
qed

lemma apart_step_inv:
  assumes "apart_step base s s'" and "server_inv base s"
  shows "server_inv base s' \<and>
    (\<forall>oid. held_content base (sv_fs s) oid \<noteq> None \<longrightarrow> held_content base (sv_fs s') oid \<noteq> None)"
proof -
  have "server_step base s s'" and a: "apart base s'" using assms(1) by (simp_all add: apart_step_def)
  from this(1) show ?thesis
  proof (cases rule: server_stepE)
    case (request k m rd)
    then show ?thesis using arrive_inv [OF assms(2)] a by (simp add: arrive_def)
  next
    case (call k n)
    then show ?thesis using advance_inv [OF assms(2)] by blast
  qed
qed

lemma apart_run_inv:
  "(apart_step base)\<^sup>*\<^sup>* s s' \<Longrightarrow> server_inv base s \<Longrightarrow>
   server_inv base s' \<and>
   (\<forall>oid. held_content base (sv_fs s) oid \<noteq> None \<longrightarrow> held_content base (sv_fs s') oid \<noteq> None)"
  by (induction rule: rtranclp_induct) (auto dest!: apart_step_inv)

lemma fresh_server_inv:
  "wf_fs f \<Longrightarrow> sound_files base f \<Longrightarrow> server_inv base (fresh_server f)"
  by (simp add: server_inv_def fresh_server_def apart_def)

text \<open>
  A run that brings only uploads with different temporary files keeps them apart all the time:
  an upload stays in the books with its name, so the last moment tells of all before it.
\<close>

definition all_distinct :: "bytes \<Rightarrow> server \<Rightarrow> bool" where
  "all_distinct base s \<longleftrightarrow>
     (\<forall>j k u v. sv_uploads s j = Some u \<longrightarrow> sv_uploads s k = Some v \<longrightarrow> j \<noteq> k \<longrightarrow>
        upload_tmp base u \<noteq> upload_tmp base v)"

lemma server_step_books:
  assumes "server_step base s s'" and "sv_uploads s k = Some u"
  shows "\<exists>u'. sv_uploads s' k = Some u' \<and> upload_tmp base u' = upload_tmp base u"
  using assms(1)
proof (cases rule: server_stepE)
  case (request j m rd)
  then show ?thesis using assms(2) by (auto simp: arrive_def)
next
  case (call j n)
  show ?thesis
  proof (cases "j = k")
    case True
    obtain f' u' where st: "upload_step base n (sv_fs s) u = (f', u')" by fastforce
    then show ?thesis
      using call True assms(2) upload_step_tmp [OF st] by (simp add: advance_def upload_tmp_def)
  qed (use call assms(2) in \<open>auto simp: advance_def split: option.splits prod.splits\<close>)
qed

lemma all_distinct_before:
  assumes "server_step base s s'" and "all_distinct base s'"
  shows "all_distinct base s"
  unfolding all_distinct_def
proof (intro allI impI)
  fix j k u v
  assume "sv_uploads s j = Some u" "sv_uploads s k = Some v" "j \<noteq> k"
  with server_step_books [OF assms(1), of j u] server_step_books [OF assms(1), of k v] assms(2)
  show "upload_tmp base u \<noteq> upload_tmp base v" unfolding all_distinct_def by metis
qed

lemma distinct_run_apart:
  "(server_step base)\<^sup>*\<^sup>* s s' \<Longrightarrow> all_distinct base s' \<Longrightarrow> (apart_step base)\<^sup>*\<^sup>* s s'"
proof (induction rule: rtranclp_induct)
  case (step y z)
  have "apart base z" using step.prems unfolding all_distinct_def apart_def by blast
  then have "apart_step base y z" using step.hyps(2) by (simp add: apart_step_def)
  then show ?case using step.IH [OF all_distinct_before [OF step.hyps(2) step.prems]] by simp
qed simp

subsection \<open>Two uploads with the same temporary file\<close>

text \<open>
  The schedule below needs only these facts: the directories of the OID are in place, and
  what the names of the temporary file and of the content stand for.
\<close>

definition makeable :: "bytes \<Rightarrow> bytes \<Rightarrow> fs \<Rightarrow> bool" where
  "makeable base oid f \<longleftrightarrow>
     (\<forall>a \<in> insert (dir_key base oid) (set (ancestors (dir_key base oid))). \<forall>i. entry f a \<noteq> Some (File i))"

definition ready :: "bytes \<Rightarrow> bytes \<Rightarrow> fs \<Rightarrow> bool" where
  "ready base oid f \<longleftrightarrow>
     (\<forall>a \<in> insert (dir_key base oid) (set (ancestors (dir_key base oid))). entry f a = Some Dir)"

lemma ready_makeable: "ready base oid f \<Longrightarrow> makeable base oid f"
  by (simp add: ready_def makeable_def)

lemma store_ok_makeable: "store_ok base f \<Longrightarrow> valid_oid oid \<Longrightarrow> makeable base oid f"
  using dir_key_ancestor [of base oid] unfolding store_ok_def clear_way_def makeable_def by blast

lemma ready_other:
  assumes "ready base oid f"
    and "\<And>q. q \<noteq> tmp_key base oid \<Longrightarrow> q \<noteq> content_key base oid \<Longrightarrow> entry f' q = entry f q"
  shows "ready base oid f'"
  using assms deep_not_dir_chain [of "tmp_key base oid" base oid]
    deep_not_dir_chain [of "content_key base oid" base oid]
  unfolding ready_def dir_key_lengths by (metis insert_iff)

lemma ready_Get:
  assumes "ready base (mo_Oid m) f" and v: "valid_oid (mo_Oid m)"
    and "entry f (content_key base (mo_Oid m)) = Some (File i)"
  shows "ContentStore_Get base f m = Ok (inodes f i, None)"
  using assms(1,3) dir_key_ancestor [of base "mo_Oid m"]
  by (auto simp: ready_def ContentStore_Get_def Open_def Stat_def Let_def path_of_content [OF v]
      list_ex_iff)

lemma call_step:
  assumes "sv_uploads s k = Some u" and "upload_step base n (sv_fs s) u = (f', u')"
  shows "server_step base s \<lparr>sv_fs = f', sv_uploads = (sv_uploads s)(k \<mapsto> u')\<rparr>"
  using server_step.call [of s k base n] assms by (simp add: advance_def)

text \<open>One request up to the open temporary file.\<close>

lemma request_opens:
  assumes mk: "makeable base (mo_Oid m) (sv_fs s)" and v: "valid_oid (mo_Oid m)"
    and free: "entry (sv_fs s) (tmp_key base (mo_Oid m)) = None" and new: "sv_uploads s k = None"
  obtains f i where
    "(server_step base)\<^sup>*\<^sup>* s \<lparr>sv_fs = f, sv_uploads =
       (sv_uploads s)(k \<mapsto> (new_upload m rd)\<lparr>up_phase := Copying i\<rparr>)\<rparr>"
    "ready base (mo_Oid m) f" "entry f (tmp_key base (mo_Oid m)) = Some (File i)" "inodes f i = []"
    "entry f (content_key base (mo_Oid m)) = entry (sv_fs s) (content_key base (mo_Oid m))"
proof -
  let ?oid = "mo_Oid m"
  let ?d = "filepath_Dir (content_path base ?oid)"
  have "\<not> list_ex (\<lambda>a. entry (sv_fs s) a \<noteq> None \<and> entry (sv_fs s) a \<noteq> Some Dir)
      (ancestors (dir_key base ?oid) @ [dir_key base ?oid])"
    using mk unfolding makeable_def list_ex_iff
    by (metis node.exhaust option.exhaust Un_iff insert_iff empty_iff list.set set_append)
  then obtain f1 where m1: "MkdirAll (sv_fs s) ?d = (f1, Ok ())"
    by (simp add: MkdirAll_def Let_def path_of_content_dir [OF v])
  note e1 = MkdirAll_ok(1) [OF m1, unfolded path_of_content_dir [OF v]]
  have r1: "ready base ?oid f1" by (simp add: ready_def e1)
  have t1: "entry f1 (tmp_key base ?oid) = None"
    and c1: "entry f1 (content_key base ?oid) = entry (sv_fs s) (content_key base ?oid)"
    using deep_not_dir_chain [of "tmp_key base ?oid" base ?oid]
      deep_not_dir_chain [of "content_key base ?oid" base ?oid] free by (simp_all add: e1 dir_key_lengths)
  obtain f2 where op: "OpenExcl f1 (tmp_path base ?oid) = (f2, Ok (next_inode f1))"
    using t1 r1 by (simp add: OpenExcl_def Let_def path_of_tmp [OF v] parent_keys ready_def)
  note o = OpenExcl_ok(1,2) [OF op, unfolded path_of_tmp [OF v]]
  let ?made = "(new_upload m rd)\<lparr>up_phase := Made\<rparr>"
  let ?smade = "\<lparr>sv_fs = f1, sv_uploads = (sv_uploads s)(k \<mapsto> ?made)\<rparr>"
  have "server_step base s (arrive k m rd s)" by (rule server_step.request [OF new])
  moreover have "server_step base (arrive k m rd s) ?smade"
    using call_step [of "arrive k m rd s" k "new_upload m rd" base 0 f1 ?made] m1
    by (simp add: arrive_def upload_step_def new_upload_def Let_def)
  moreover have "server_step base ?smade \<lparr>sv_fs = f2, sv_uploads =
      (sv_uploads s)(k \<mapsto> (new_upload m rd)\<lparr>up_phase := Copying (next_inode f1)\<rparr>)\<rparr>"
    using call_step [of ?smade k ?made base 0 f2] op by (simp add: upload_step_def new_upload_def Let_def)
  ultimately have "(server_step base)\<^sup>*\<^sup>* s \<lparr>sv_fs = f2, sv_uploads =
      (sv_uploads s)(k \<mapsto> (new_upload m rd)\<lparr>up_phase := Copying (next_inode f1)\<rparr>)\<rparr>"
    by (meson converse_rtranclp_into_rtranclp rtranclp.rtrancl_refl)
  then show thesis
  proof (rule that)
    show "ready base ?oid f2" using ready_other [OF r1] o(1) by simp
    show "entry f2 (content_key base ?oid) = entry (sv_fs s) (content_key base ?oid)"
      using c1 o(1) tmp_key_not_content [OF v, of base ?oid] by simp
  qed (simp_all add: o)
qed

text \<open>A matching request up to the point where it is about to rename.\<close>

lemma request_copies:
  assumes mk: "makeable base (mo_Oid m) (sv_fs s)" and mm: "matches_meta m b" and b: "b \<noteq> []"
    and free: "entry (sv_fs s) (tmp_key base (mo_Oid m)) = None" and new: "sv_uploads s k = None"
  obtains f i where
    "(server_step base)\<^sup>*\<^sup>* s \<lparr>sv_fs = f, sv_uploads = (sv_uploads s)
       (k \<mapsto> \<lparr>up_meta = m, up_input = ([], None), up_copied = b, up_phase = Renaming i\<rparr>)\<rparr>"
    "ready base (mo_Oid m) f" "entry f (tmp_key base (mo_Oid m)) = Some (File i)"
    "entry f (content_key base (mo_Oid m)) = entry (sv_fs s) (content_key base (mo_Oid m))"
proof -
  have v: "valid_oid (mo_Oid m)" by (rule matches_valid [OF mm])
  let ?u = "\<lambda>cp ph. \<lparr>up_meta = m, up_input = ([], None), up_copied = cp, up_phase = ph\<rparr>"
  let ?start = "\<lambda>i. (new_upload m (b, None))\<lparr>up_phase := Copying i\<rparr>"
  let ?s = "\<lambda>f u. \<lparr>sv_fs = f, sv_uploads = (sv_uploads s)(k \<mapsto> u)\<rparr>"
  obtain f i where run: "(server_step base)\<^sup>*\<^sup>* s (?s f (?start i))" and
    rd: "ready base (mo_Oid m) f" and t: "entry f (tmp_key base (mo_Oid m)) = Some (File i)" and
    c: "entry f (content_key base (mo_Oid m)) = entry (sv_fs s) (content_key base (mo_Oid m))"
    by (rule request_opens [OF mk v free new])
  obtain x xs where bx: "b = x # xs" using b by (cases b) auto
  have "server_step base (?s f (?start i)) (?s (Write f i b) (?u b (Copying i)))"
    using call_step [of "?s f (?start i)" k "?start i" base "length b" "Write f i b"]
    by (simp add: upload_step_def new_upload_def Let_def bx)
  moreover have "server_step base (?s (Write f i b) (?u b (Copying i))) (?s (Write f i b) (?u b (Renaming i)))"
    using call_step [of "?s (Write f i b) (?u b (Copying i))" k "?u b (Copying i)" base 0 "Write f i b"]
      mm by (simp add: upload_step_def Let_def flip: check_upload_None)
  ultimately have "(server_step base)\<^sup>*\<^sup>* s (?s (Write f i b) (?u b (Renaming i)))"
    using run by (meson rtranclp.rtrancl_into_rtrancl)
  then show thesis by (rule that) (use rd t c in \<open>simp_all add: ready_def\<close>)
qed

lemma renames:
  assumes u: "sv_uploads s k = Some u" "up_phase u = Renaming i" and v: "valid_oid (mo_Oid (up_meta u))"
    and rd: "ready base (mo_Oid (up_meta u)) (sv_fs s)"
    and t: "entry (sv_fs s) (tmp_key base (mo_Oid (up_meta u))) = Some (File j)"
    and c: "entry (sv_fs s) (content_key base (mo_Oid (up_meta u))) \<noteq> Some Dir"
  obtains f where
    "server_step base s \<lparr>sv_fs = f, sv_uploads = (sv_uploads s)(k \<mapsto> u\<lparr>up_phase := Removing (Ok ())\<rparr>)\<rparr>"
    "ready base (mo_Oid (up_meta u)) f" "entry f (tmp_key base (mo_Oid (up_meta u))) = None"
    "entry f (content_key base (mo_Oid (up_meta u))) = Some (File j)" "inodes f = inodes (sv_fs s)"
proof -
  let ?oid = "mo_Oid (up_meta u)"
  note pt = path_of_tmp [OF v, of base] and pc = path_of_content [OF v, of base]
  obtain f where rn: "Rename (sv_fs s) (tmp_path base ?oid) (content_path base ?oid) = (f, Ok ())"
    using Rename_succeeds [of "sv_fs s" "tmp_path base ?oid" "content_path base ?oid"] rd t c
    by (auto simp: pt pc parent_keys ready_def)
  note r = Rename_ok(1,2) [OF rn, unfolded pt pc, OF tmp_key_not_content [OF v]]
  have st: "server_step base s
      \<lparr>sv_fs = f, sv_uploads = (sv_uploads s)(k \<mapsto> u\<lparr>up_phase := Removing (Ok ())\<rparr>)\<rparr>"
    using call_step [of s k u base 0 f, OF u(1)] u(2) rn by (simp add: upload_step_def Let_def)
  have "ready base ?oid f" by (rule ready_other [OF rd]) (simp add: r)
  then show thesis
    using that [OF st] tmp_key_not_content [OF v, of base ?oid] t by (simp add: r)
qed

lemma removes:
  assumes u: "sv_uploads s k = Some u" "up_phase u = Removing r" and v: "valid_oid (mo_Oid (up_meta u))"
    and rd: "ready base (mo_Oid (up_meta u)) (sv_fs s)"
    and t: "entry (sv_fs s) (tmp_key base (mo_Oid (up_meta u))) \<noteq> Some Dir"
  obtains f where
    "server_step base s \<lparr>sv_fs = f, sv_uploads = (sv_uploads s)(k \<mapsto> u\<lparr>up_phase := Done r\<rparr>)\<rparr>"
    "ready base (mo_Oid (up_meta u)) f" "entry f (tmp_key base (mo_Oid (up_meta u))) = None"
    "entry f (content_key base (mo_Oid (up_meta u))) = entry (sv_fs s) (content_key base (mo_Oid (up_meta u)))"
    "inodes f = inodes (sv_fs s)"
proof -
  let ?oid = "mo_Oid (up_meta u)" and ?f = "Remove (sv_fs s) (tmp_path base (mo_Oid (up_meta u)))"
  note e = Remove_entry [of "sv_fs s" "tmp_path base ?oid", unfolded path_of_tmp [OF v]]
  have st: "server_step base s \<lparr>sv_fs = ?f, sv_uploads = (sv_uploads s)(k \<mapsto> u\<lparr>up_phase := Done r\<rparr>)\<rparr>"
    using call_step [of s k u base 0 ?f, OF u(1)] u(2) by (simp add: upload_step_def Let_def)
  have gone: "entry ?f (tmp_key base ?oid) = None"
    using t unfolding e by (metis node.exhaust not_Some_eq)
  have "ready base ?oid ?f" by (rule ready_other [OF rd]) (simp add: e)
  then show thesis
    using that [OF st] gone tmp_key_not_content [OF v, of base ?oid] by (metis e Remove_inodes(1))
qed

text \<open>A state of the schedule: what the two names stand for, after some interleaving.\<close>

definition reaches ::
  "bytes \<Rightarrow> bytes \<Rightarrow> fs \<Rightarrow> fs \<Rightarrow> (nat \<Rightarrow> upload option) \<Rightarrow> node option \<Rightarrow> node option \<Rightarrow> bool" where
  "reaches base oid f0 f ups t c \<longleftrightarrow>
     (server_step base)\<^sup>*\<^sup>* (fresh_server f0) \<lparr>sv_fs = f, sv_uploads = ups\<rparr> \<and> ready base oid f \<and>
     entry f (tmp_key base oid) = t \<and> entry f (content_key base oid) = c"

lemma reaches_first:
  assumes "store_ok base f0" and "matches_meta m b" and "b \<noteq> []"
    and "entry f0 (tmp_key base (mo_Oid m)) = None"
  shows "\<exists>f i c. c \<noteq> Some Dir \<and> reaches base (mo_Oid m) f0 f
     [k \<mapsto> \<lparr>up_meta = m, up_input = ([], None), up_copied = b, up_phase = Renaming i\<rparr>] (Some (File i)) c"
proof -
  have v: "valid_oid (mo_Oid m)" by (rule matches_valid [OF assms(2)])
  show ?thesis
    using request_copies [of base m "fresh_server f0" b k] store_ok_makeable [OF assms(1) v]
      store_ok_not_dir [OF assms(1) v] assms
    by (simp add: reaches_def fresh_server_def) metis
qed

lemma reaches_copy:
  assumes "reaches base (mo_Oid m) f0 f ups None c" and "matches_meta m b" and "b \<noteq> []"
    and "ups k = None"
  shows "\<exists>f' i. reaches base (mo_Oid m) f0 f' (ups
     (k \<mapsto> \<lparr>up_meta = m, up_input = ([], None), up_copied = b, up_phase = Renaming i\<rparr>)) (Some (File i)) c"
  using request_copies [of base m "\<lparr>sv_fs = f, sv_uploads = ups\<rparr>" b k] assms
  by (simp add: reaches_def ready_makeable) (metis rtranclp_trans)

lemma reaches_open:
  assumes "reaches base (mo_Oid m) f0 f ups None c" and "valid_oid (mo_Oid m)" and "ups k = None"
  shows "\<exists>f' i. inodes f' i = [] \<and> reaches base (mo_Oid m) f0 f'
     (ups(k \<mapsto> (new_upload m rd)\<lparr>up_phase := Copying i\<rparr>)) (Some (File i)) c"
  using request_opens [of base m "\<lparr>sv_fs = f, sv_uploads = ups\<rparr>" k rd] assms
  by (simp add: reaches_def ready_makeable) (metis rtranclp_trans)

lemma reaches_rename:
  assumes "reaches base (mo_Oid (up_meta u)) f0 f ups (Some (File j)) c" and "c \<noteq> Some Dir"
    and "valid_oid (mo_Oid (up_meta u))" and "ups k = Some u" and "up_phase u = Renaming i"
  shows "\<exists>f'. inodes f' = inodes f \<and> reaches base (mo_Oid (up_meta u)) f0 f'
     (ups(k \<mapsto> u\<lparr>up_phase := Removing (Ok ())\<rparr>)) None (Some (File j))"
  using renames [of "\<lparr>sv_fs = f, sv_uploads = ups\<rparr>" k u i base j] assms
  by (simp add: reaches_def) (metis rtranclp.rtrancl_into_rtrancl)

lemma reaches_remove:
  assumes "reaches base (mo_Oid (up_meta u)) f0 f ups t c" and "t \<noteq> Some Dir"
    and "valid_oid (mo_Oid (up_meta u))" and "ups k = Some u" and "up_phase u = Removing r"
  shows "\<exists>f'. inodes f' = inodes f \<and> reaches base (mo_Oid (up_meta u)) f0 f'
     (ups(k \<mapsto> u\<lparr>up_phase := Done r\<rparr>)) None c"
  using removes [of "\<lparr>sv_fs = f, sv_uploads = ups\<rparr>" k u r base] assms
  by (simp add: reaches_def) (metis rtranclp.rtrancl_into_rtrancl)

lemma reaches_break:
  assumes "reaches base oid f0 f ups t c" and "ups k = Some u" and "up_phase u = Copying i"
    and "up_input u = ([], Some e)"
  shows "reaches base oid f0 f (ups(k \<mapsto> u\<lparr>up_phase := Removing (Err e)\<rparr>)) t c"
  using call_step [of "\<lparr>sv_fs = f, sv_uploads = ups\<rparr>" k u base 0 f] assms
  by (auto simp: reaches_def upload_step_def Let_def intro: rtranclp.rtrancl_into_rtrancl)

text \<open>
  C11: interleaving alone does no harm.  Take any run of the server, its system calls interleaved
  in any way, in which the uploads that are in flight at the same moment have different
  temporary files (for well-formed OIDs: no OID is being uploaded twice at once).  Then the
  store stays sound: each content it holds hashes to its OID, no OID loses its content, and an
  upload that reported success has its content held.  Nothing in the code enforces the condition;
  clients that upload different objects meet it.
\<close>

theorem separate_uploads_sound:
  assumes "wf_fs f" and "\<forall>oid b. held_content base f oid = Some b \<longrightarrow> oid_of b = oid"
    and "(apart_step base)\<^sup>*\<^sup>* (fresh_server f) s"
  shows "(\<forall>oid b. held_content base (sv_fs s) oid = Some b \<longrightarrow> oid_of b = oid) \<and>
    (\<forall>oid. held_content base f oid \<noteq> None \<longrightarrow> held_content base (sv_fs s) oid \<noteq> None) \<and>
    (\<forall>k u. sv_uploads s k = Some u \<longrightarrow> up_phase u = Done (Ok ()) \<longrightarrow>
       (\<exists>b. held_content base (sv_fs s) (mo_Oid (up_meta u)) = Some b \<and> oid_of b = mo_Oid (up_meta u)))"
proof -
  have inv: "server_inv base s"
    and kept: "\<forall>oid. held_content base f oid \<noteq> None \<longrightarrow> held_content base (sv_fs s) oid \<noteq> None"
    using apart_run_inv [OF assms(3) fresh_server_inv] assms(1,2) by (simp_all add: sound_files_def fresh_server_def)
  have sound: "\<forall>oid b. held_content base (sv_fs s) oid = Some b \<longrightarrow> oid_of b = oid"
    using inv unfolding server_inv_def sound_files_def by blast
  have "held_content base (sv_fs s) (mo_Oid (up_meta u)) \<noteq> None"
    if "sv_uploads s k = Some u" "up_phase u = Done (Ok ())" for k u
    using inv that unfolding server_inv_def upload_inv_def by fastforce
  with sound kept show ?thesis by (meson not_None_eq)
qed

definition zeros :: bytes where "zeros = replicate 64 (CHR ''0'')"

lemma zeros: "valid_oid zeros" "zeros \<noteq> test_oid"
proof -
  have "hd zeros \<noteq> hd test_oid" by (simp add: test_oid_def zeros_def)
  then show "zeros \<noteq> test_oid" by metis
qed (simp add: valid_oid_def list_all_iff is_hex_def zeros_def)

text \<open>One upload from its request to its success while another, of a different OID, has arrived.\<close>

lemma separate_uploads_sound_witness:
  "\<exists>s u b. (apart_step test_base)\<^sup>*\<^sup>* (fresh_server test_fs) s \<and> sv_uploads s 0 = Some u \<and>
     up_phase u = Done (Ok ()) \<and> up_meta u = test_meta \<and>
     sv_uploads s 1 = Some (new_upload (test_meta\<lparr>mo_Oid := zeros\<rparr>) (''a'', None)) \<and>
     held_content test_base (sv_fs s) test_oid = Some b \<and> oid_of b = test_oid"
proof -
  let ?R = "reaches test_base test_oid test_fs" and ?other = "test_meta\<lparr>mo_Oid := zeros\<rparr>"
  let ?u = "\<lambda>ph. \<lparr>up_meta = test_meta, up_input = ([], None), up_copied = test_content, up_phase = ph\<rparr>"
  have oid: "mo_Oid test_meta = test_oid" by (simp add: test_meta_def)
  have v: "valid_oid test_oid" using test_valid oid by simp
  obtain f1 i c where 1: "?R f1 [0 \<mapsto> ?u (Renaming i)] (Some (File i)) c" "c \<noteq> Some Dir"
    using reaches_first [OF test_store_ok test_matches _ test_tmp_free, of 0] oid by (auto simp: test_content_def)
  obtain f2 where 2: "?R f2 [0 \<mapsto> ?u (Removing (Ok ()))] None (Some (File i))"
    using reaches_rename [of test_base "?u (Renaming i)" test_fs f1 "[0 \<mapsto> ?u (Renaming i)]" i c 0 i] 1 v oid by auto
  obtain f3 where 3: "?R f3 [0 \<mapsto> ?u (Done (Ok ()))] None (Some (File i))"
    using reaches_remove [of test_base "?u (Removing (Ok ()))" test_fs f2 "[0 \<mapsto> ?u (Removing (Ok ()))]" None
        "Some (File i)" 0 "Ok ()"] 2 v oid by auto
  let ?s = "\<lparr>sv_fs = f3, sv_uploads = [0 \<mapsto> ?u (Done (Ok ()))]\<rparr>" and ?s' = "arrive 1 ?other (''a'', None)
    \<lparr>sv_fs = f3, sv_uploads = [0 \<mapsto> ?u (Done (Ok ()))]\<rparr>"
  have "(server_step test_base)\<^sup>*\<^sup>* (fresh_server test_fs) ?s" using 3 by (simp add: reaches_def)
  moreover have "server_step test_base ?s ?s'" by (rule server_step.request) simp
  ultimately have run: "(server_step test_base)\<^sup>*\<^sup>* (fresh_server test_fs) ?s'" by simp
  have "tmp_key test_base zeros \<noteq> tmp_key test_base test_oid" using tmp_key_inj zeros(2) by metis
  then have "upload_tmp test_base (new_upload ?other (''a'', None)) \<noteq> upload_tmp test_base (?u (Done (Ok ())))"
    using path_of_tmp [OF v, of test_base] path_of_tmp [OF zeros(1), of test_base]
    by (simp add: upload_tmp_def new_upload_def oid)
  then have "all_distinct test_base ?s'"
    unfolding all_distinct_def arrive_def by simp
  from distinct_run_apart [OF run this] have apart: "(apart_step test_base)\<^sup>*\<^sup>* (fresh_server test_fs) ?s'" .
  have none: "\<forall>oid b. held_content test_base test_fs oid = Some b \<longrightarrow> oid_of b = oid"
    by (simp add: NewContentStore_ok(2) [OF test_fs_new])
  have up: "sv_uploads ?s' 0 = Some (?u (Done (Ok ())))" "sv_uploads ?s' 1 = Some (new_upload ?other (''a'', None))"
    by (simp_all add: arrive_def)
  have sound: "\<forall>k u. sv_uploads ?s' k = Some u \<longrightarrow> up_phase u = Done (Ok ()) \<longrightarrow>
      (\<exists>b. held_content test_base (sv_fs ?s') (mo_Oid (up_meta u)) = Some b \<and> oid_of b = mo_Oid (up_meta u))"
    using separate_uploads_sound [OF store_ok_wf [OF test_store_ok] none apart] by (elim conjE)
  have "up_phase (?u (Done (Ok ()))) = Done (Ok ())" "up_meta (?u (Done (Ok ()))) = test_meta" by simp_all
  moreover have "\<exists>b. held_content test_base (sv_fs ?s') test_oid = Some b \<and> oid_of b = test_oid"
    using sound [THEN spec, THEN spec, THEN mp, OF up(1)] by (simp add: oid)
  ultimately show ?thesis using apart up by blast
qed

text \<open>
  C12: the server keeps nothing apart, and two uploads of one OID that both report success
  can leave the store without the content, for good.
  Upload 0 renames and is preempted before its deferred remove; upload 1 opens the same
  temporary path and copies; upload 0 removes that file; upload 2 opens the path again;
  upload 1, whose hash is right, renames the empty file of upload 2 over the content.
\<close>

theorem concurrent_uploads_lose_content:
  assumes ok: "store_ok base f0" and mm: "matches_meta m b" and b: "b \<noteq> []"
    and free: "entry f0 (tmp_key base (mo_Oid m)) = None"
  shows "\<exists>s u. (server_step base)\<^sup>*\<^sup>* (fresh_server f0) s \<and>
     sv_uploads s 1 = Some u \<and> up_meta u = m \<and> up_phase u = Done (Ok ()) \<and>
     (\<forall>k v. sv_uploads s k = Some v \<longrightarrow> \<not> in_flight v) \<and>
     ContentStore_Get base (sv_fs s) m = Ok ([], None)"
proof -
  have v: "valid_oid (mo_Oid m)" by (rule matches_valid [OF mm])
  let ?R = "reaches base (mo_Oid m) f0"
  let ?u = "\<lambda>ph. \<lparr>up_meta = m, up_input = ([], None), up_copied = b, up_phase = ph\<rparr>"
  let ?e = "ErrExt ''unexpected EOF''"
  let ?w = "\<lambda>ph. (new_upload m ([], Some ?e))\<lparr>up_phase := ph\<rparr>"
  obtain f1 i c where 1: "?R f1 [0 \<mapsto> ?u (Renaming i)] (Some (File i)) c" "c \<noteq> Some Dir"
    using reaches_first [OF ok mm b free] by blast
  obtain f2 where 2: "?R f2 [0 \<mapsto> ?u (Removing (Ok ()))] None (Some (File i))"
    using reaches_rename [of base "?u (Renaming i)" f0 f1 "[0 \<mapsto> ?u (Renaming i)]" i c 0 i] 1 v by auto
  obtain f3 j where 3: "?R f3 [0 \<mapsto> ?u (Removing (Ok ())), 1 \<mapsto> ?u (Renaming j)] (Some (File j)) (Some (File i))"
    using reaches_copy [OF 2 mm b, of 1] by auto
  obtain f4 where 4: "?R f4 [0 \<mapsto> ?u (Done (Ok ())), 1 \<mapsto> ?u (Renaming j)] None (Some (File i))"
    using reaches_remove [of base "?u (Removing (Ok ()))" f0 f3 _ _ _ 0 "Ok ()"] 3 v
    by (fastforce simp: fun_upd_twist)
  obtain f5 k where 5: "?R f5 [0 \<mapsto> ?u (Done (Ok ())), 1 \<mapsto> ?u (Renaming j), 2 \<mapsto> ?w (Copying k)]
      (Some (File k)) (Some (File i))" "inodes f5 k = []"
    using reaches_open [OF 4 v, of 2 "([], Some ?e)"] by auto
  obtain f6 where 6: "?R f6 [0 \<mapsto> ?u (Done (Ok ())), 1 \<mapsto> ?u (Removing (Ok ())), 2 \<mapsto> ?w (Copying k)]
      None (Some (File k))" "inodes f6 k = []"
    using reaches_rename [of base "?u (Renaming j)" f0 f5 _ k "Some (File i)" 1 j] 5 v
    by (fastforce simp: fun_upd_twist)
  obtain f7 where 7: "?R f7 [0 \<mapsto> ?u (Done (Ok ())), 1 \<mapsto> ?u (Done (Ok ())), 2 \<mapsto> ?w (Copying k)]
      None (Some (File k))" "inodes f7 k = []"
    using reaches_remove [of base "?u (Removing (Ok ()))" f0 f6 _ _ _ 1 "Ok ()"] 6 v
    by (fastforce simp: fun_upd_twist)
  have 8: "?R f7 [0 \<mapsto> ?u (Done (Ok ())), 1 \<mapsto> ?u (Done (Ok ())), 2 \<mapsto> ?w (Removing (Err ?e))]
      None (Some (File k))"
    using reaches_break [OF 7(1), of 2 "?w (Copying k)" k ?e] by (simp add: new_upload_def)
  obtain f9 where 9: "?R f9 [0 \<mapsto> ?u (Done (Ok ())), 1 \<mapsto> ?u (Done (Ok ())), 2 \<mapsto> ?w (Done (Err ?e))]
      None (Some (File k))" "inodes f9 k = []"
    using reaches_remove [of base "?w (Removing (Err ?e))" f0 f7 _ _ _ 2 "Err ?e"] 8 7(2) v
    by (fastforce simp: new_upload_def)
  let ?s = "\<lparr>sv_fs = f9, sv_uploads =
      [0 \<mapsto> ?u (Done (Ok ())), 1 \<mapsto> ?u (Done (Ok ())), 2 \<mapsto> ?w (Done (Err ?e))]\<rparr>"
  have "(server_step base)\<^sup>*\<^sup>* (fresh_server f0) ?s" using 9(1) by (simp add: reaches_def)
  moreover have "\<forall>k v. sv_uploads ?s k = Some v \<longrightarrow> \<not> in_flight v" by auto
  moreover have "ContentStore_Get base (sv_fs ?s) m = Ok ([], None)"
    using 9 ready_Get [of base m f9 k] v by (simp add: reaches_def)
  moreover have "sv_uploads ?s 1 = Some (?u (Done (Ok ())))" by simp
  ultimately show ?thesis
    by (intro exI [of _ ?s] exI [of _ "?u (Done (Ok ()))"]) simp
qed

lemma concurrent_uploads_lose_content_witness:
  "\<exists>s. (server_step test_base)\<^sup>*\<^sup>* (fresh_server test_fs) s \<and>
     ContentStore_Get test_base (sv_fs s) test_meta = Ok ([], None) \<and> mo_Size test_meta = 18"
proof -
  have "test_content \<noteq> []" by (simp add: test_content_def)
  from concurrent_uploads_lose_content [OF test_store_ok test_matches this test_tmp_free]
  show ?thesis by (auto simp: test_meta_def)
qed

section \<open>An upload that is cut off\<close>

text \<open>
  The temporary file of an upload in flight is there, in directories that are in place.
\<close>

definition leaves_tmp :: "bytes \<Rightarrow> bytes \<Rightarrow> fs \<Rightarrow> bool" where
  "leaves_tmp base oid f \<longleftrightarrow> ready base oid f \<and> (\<exists>i. entry f (tmp_key base oid) = Some (File i))"

definition solo_inv :: "bytes \<Rightarrow> fs \<Rightarrow> upload \<Rightarrow> bool" where
  "solo_inv base f u =
     (case up_phase u of
        Made \<Rightarrow> ready base (mo_Oid (up_meta u)) f
      | Copying i \<Rightarrow> leaves_tmp base (mo_Oid (up_meta u)) f
      | Renaming i \<Rightarrow> leaves_tmp base (mo_Oid (up_meta u)) f
      | _ \<Rightarrow> True)"

lemma MkdirAll_ready:
  assumes "valid_oid oid" and "MkdirAll f (filepath_Dir (content_path base oid)) = (f', Ok ())"
  shows "ready base oid f'" and "entry f' (tmp_key base oid) = entry f (tmp_key base oid)"
  using MkdirAll_ok(1) [OF assms(2), unfolded path_of_content_dir [OF assms(1)]]
    tmp_key_not_dir_chain [of base oid oid] by (simp_all add: ready_def)

lemma leaves_tmp_Write: "leaves_tmp base oid f \<Longrightarrow> leaves_tmp base oid (Write f i b)"
  by (simp add: leaves_tmp_def ready_def)

lemma solo_inv_step:
  assumes v: "valid_oid (mo_Oid (up_meta u))" and inv: "solo_inv base f u"
    and st: "upload_step base n f u = (f', u')"
  shows "solo_inv base f' u'"
proof (cases "up_phase u")
  case Start
  with st show ?thesis using MkdirAll_ready(1) [OF v]
    by (auto simp: upload_step_def Let_def solo_inv_def split: prod.splits outcome.splits)
next
  case Made
  obtain g r where op: "OpenExcl f (tmp_path base (mo_Oid (up_meta u))) = (g, r)" by fastforce
  show ?thesis
  proof (cases r)
    case (Ok i)
    note e = OpenExcl_ok(1) [OF op [unfolded Ok], unfolded path_of_tmp [OF v]]
    have "ready base (mo_Oid (up_meta u)) f" using inv Made by (simp add: solo_inv_def)
    then have "ready base (mo_Oid (up_meta u)) g" by (rule ready_other) (simp add: e)
    then have "leaves_tmp base (mo_Oid (up_meta u)) g" using e by (simp add: leaves_tmp_def)
    then show ?thesis
      using st Made op Ok by (auto simp: upload_step_def Let_def solo_inv_def)
  qed (use st Made op in \<open>auto simp: upload_step_def Let_def solo_inv_def\<close>)
qed (use st inv leaves_tmp_Write in
    \<open>auto simp: upload_step_def Let_def solo_inv_def split: prod.splits option.splits list.splits\<close>)

lemma solo_run_inv:
  "valid_oid (mo_Oid (up_meta u)) \<Longrightarrow> solo_inv base f u \<Longrightarrow> solo_run base ns f u = (f', u') \<Longrightarrow>
   solo_inv base f' u' \<and> up_meta u' = up_meta u"
proof (induction ns arbitrary: f u)
  case (Cons n ns)
  obtain g v where st: "upload_step base n f u = (g, v)" by fastforce
  then show ?case
    using Cons.IH [of v g] Cons.prems solo_inv_step [OF Cons.prems(1,2) st] upload_step_tmp [OF st] by simp
qed simp

text \<open>
  What may come after the process was killed: the server is started again, any number of
  times, and serves uploads of any OIDs.  \<open>afterwards\<close> gives what the uploads report, each with
  its OID; a start that fails to make the base directory leaves the disk as it is.
\<close>

datatype later_event = Restart | Upload MetaObject reader

fun do_later :: "bytes \<Rightarrow> fs \<Rightarrow> later_event \<Rightarrow> fs \<times> (bytes \<times> unit outcome) list" where
  "do_later base f Restart = (fst (NewContentStore f base), [])"
| "do_later base f (Upload m rd) =
     (let (f', r) = ContentStore_Put base f m rd in (f', [(mo_Oid m, r)]))"

fun afterwards :: "bytes \<Rightarrow> fs \<Rightarrow> later_event list \<Rightarrow> (bytes \<times> unit outcome) list" where
  "afterwards base f [] = []"
| "afterwards base f (e # es) = (let (f', rs) = do_later base f e in rs @ afterwards base f' es)"

lemma Put_leaves_tmp:
  assumes v: "valid_oid (mo_Oid m)" and t: "leaves_tmp base (mo_Oid m) f"
  shows "\<exists>f'. ContentStore_Put base f m rd = (f', Err EEXIST)"
proof -
  let ?oid = "mo_Oid m"
  have "\<not> list_ex (\<lambda>a. entry f a \<noteq> None \<and> entry f a \<noteq> Some Dir) (ancestors (dir_key base ?oid) @ [dir_key base ?oid])"
    using t by (auto simp: leaves_tmp_def ready_def list_ex_iff)
  then obtain f1 where mk: "MkdirAll f (filepath_Dir (content_path base ?oid)) = (f1, Ok ())"
    by (simp add: MkdirAll_def Let_def path_of_content_dir [OF v])
  note r1 = MkdirAll_ready [OF v mk]
  with t have l: "leaves_tmp base ?oid f1" by (simp add: leaves_tmp_def)
  then have "OpenExcl f1 (tmp_path base ?oid) = (f1, Err EEXIST)"
    by (auto simp: OpenExcl_def Let_def path_of_tmp [OF v] leaves_tmp_def)
  with mk show ?thesis by (simp add: ContentStore_Put_def Let_def)
qed

text \<open>No upload, of whatever OID, removes the temporary file of another one.\<close>

lemma Put_keeps_tmp:
  assumes wf: "wf_fs f" and v: "valid_oid oid" and t: "leaves_tmp base oid f"
    and put: "ContentStore_Put base f m rd = (f', r)"
  shows "leaves_tmp base oid f'"
proof -
  have "ready base oid f'" using t Put_keeps_dir [OF put] unfolding leaves_tmp_def ready_def by blast
  moreover obtain i where i: "entry f (tmp_key base oid) = Some (File i)" using t by (auto simp: leaves_tmp_def)
  have "entry f' (tmp_key base oid) = Some (File i)"
  proof (cases "is_ok r")
    case False
    then show ?thesis using Put_failed [OF wf put] i unfolding same_files_def by blast
  next
    case True
    then have ok: "r = Ok ()" by (auto simp: is_ok_iff)
    have vm: "valid_oid (mo_Oid m)" using Put_ok(2) [OF wf] put ok matches_valid by blast
    have "mo_Oid m \<noteq> oid" using Put_leaves_tmp [of m base f rd] v t put ok by auto
    then have other: "tmp_key base oid \<noteq> tmp_key base (mo_Oid m)" using tmp_key_inj by blast
    from put show ?thesis
    proof (cases rule: Put_cases)
      case (renamed f1 f2 k f4)
      note keys = path_of_tmp [OF vm, of base] path_of_content [OF vm, of base]
      have "entry f1 (tmp_key base oid) = Some (File i)" using MkdirAll_file [OF renamed(1)] i by blast
      then have "entry f2 (tmp_key base oid) = Some (File i)"
        using OpenExcl_ok(1) [OF renamed(2)] other keys by simp
      then have "entry f4 (tmp_key base oid) = Some (File i)"
        using Rename_ok(1) [OF renamed(5) [unfolded ok]] tmp_key_not_content [OF vm] other by (simp add: keys)
      then show ?thesis using renamed(6) other keys by (simp add: Remove_entry)
    qed (use ok in auto)
  qed
  ultimately show ?thesis by (auto simp: leaves_tmp_def)
qed

lemma NewContentStore_keeps_tmp:
  assumes "wf_fs f" and "leaves_tmp base oid f"
  shows "wf_fs (fst (NewContentStore f base)) \<and> leaves_tmp base oid (fst (NewContentStore f base))"
proof (cases "base = []")
  case False
  obtain f' r where mk: "MkdirAll f base = (f', r)" by fastforce
  have "entry f' q = Some n" if "entry f q = Some n" for q n
  proof (cases "is_ok r")
    case True
    then have "MkdirAll f base = (f', Ok ())" using mk by (auto simp: is_ok_iff)
    from MkdirAll_ok(1,4) [OF this, of q] that show ?thesis by auto
  qed (use MkdirAll_err [OF mk] that in simp)
  then have "leaves_tmp base oid f'" using assms(2) unfolding leaves_tmp_def ready_def by blast
  then show ?thesis
    using False mk MkdirAll_wf [OF assms(1) mk] by (simp add: NewContentStore_def)
qed (use assms in \<open>simp add: NewContentStore_def\<close>)

lemma do_later_keeps:
  assumes "wf_fs f" and "valid_oid oid" and "leaves_tmp base oid f" and "do_later base f e = (f', rs)"
  shows "wf_fs f' \<and> leaves_tmp base oid f' \<and> (\<forall>r. (oid, r) \<in> set rs \<longrightarrow> r = Err EEXIST)"
proof (cases e)
  case Restart
  then show ?thesis using NewContentStore_keeps_tmp [OF assms(1,3)] assms(4) by auto
next
  case (Upload m rd)
  obtain g r where put: "ContentStore_Put base f m rd = (g, r)" by fastforce
  then have e: "f' = g" "rs = [(mo_Oid m, r)]" using assms(4) Upload by simp_all
  have "r = Err EEXIST" if "mo_Oid m = oid"
    using Put_leaves_tmp [of m base f rd] assms(2,3) that put by auto
  then show ?thesis
    using e Put_keeps_tmp [OF assms(1-3) put] Put_wf [OF assms(1) put] by auto
qed

lemma afterwards_blocked:
  "wf_fs f \<Longrightarrow> valid_oid oid \<Longrightarrow> leaves_tmp base oid f \<Longrightarrow> (oid, r) \<in> set (afterwards base f es) \<Longrightarrow>
   r = Err EEXIST"
proof (induction es arbitrary: f)
  case (Cons e es)
  obtain f' rs where ev: "do_later base f e = (f', rs)" by fastforce
  note keeps = do_later_keeps [OF Cons.prems(1-3) ev]
  then show ?case using Cons.IH [of f'] Cons.prems(2,4) ev by auto
qed simp

lemma solo_run_wf:
  "wf_fs f \<Longrightarrow> upload_inv base f u \<Longrightarrow> solo_run base ns f u = (f', u') \<Longrightarrow> wf_fs f'"
proof (induction ns arbitrary: f u)
  case (Cons n ns)
  obtain g v where st: "upload_step base n f u = (g, v)" by fastforce
  have "wf_fs g" "upload_inv base g v"
    using upload_step_inv [OF Cons.prems(1,2) st] by (simp_all add: harmless_def)
  then show ?case using Cons.IH [of g v] Cons.prems(3) st by simp
qed simp

text \<open>
  C40: a server killed while it copies an upload with a well-formed OID, or before it renames
  it, leaves the temporary file, and nothing ever removes it.  However often the server is
  started again and whatever uploads of other OIDs it then serves, successful or not: every
  later upload of that OID is refused with \<^verbatim>\<open>EEXIST\<close>, whatever it brings and however often it
  is repeated.
\<close>

theorem interrupted_upload_blocks_oid:
  assumes "wf_fs f" and "valid_oid (mo_Oid m)" and "solo_run base ns f (new_upload m rd) = (f', u)"
    and "up_phase u = Copying i \<or> up_phase u = Renaming i"
    and "(mo_Oid m, r) \<in> set (afterwards base f' es)"
  shows "r = Err EEXIST"
proof -
  have "solo_inv base f' u \<and> up_meta u = m"
    using solo_run_inv [OF _ _ assms(3)] assms(2) by (simp add: solo_inv_def new_upload_def)
  then have "leaves_tmp base (mo_Oid m) f'" using assms(4) by (auto simp: solo_inv_def)
  moreover have "wf_fs f'"
    using solo_run_wf [OF assms(1) _ assms(3)] by (simp add: upload_inv_def new_upload_def)
  ultimately show ?thesis using afterwards_blocked [OF _ assms(2) _ assms(5)] by blast
qed

lemma interrupted_upload_blocks_oid_witness:
  "\<exists>f u i other. solo_run test_base [0, 0] test_fs (new_upload test_meta (test_content, None)) = (f, u) \<and>
     up_phase u = Copying i \<and>
     afterwards test_base f [Restart, Upload (test_meta\<lparr>mo_Oid := oid_of ''x''\<rparr>) (''x'', None),
       Upload test_meta (test_content, None)] = [(oid_of ''x'', other), (test_oid, Err EEXIST)]"
proof -
  let ?m' = "test_meta\<lparr>mo_Oid := oid_of ''x''\<rparr>"
  obtain f1 where mk: "MkdirAll test_fs (filepath_Dir (content_path test_base (mo_Oid test_meta))) = (f1, Ok ())"
    by (rule MkdirAll_content_ok [OF test_store_ok test_valid])
  note r1 = MkdirAll_ready [OF test_valid mk]
  obtain f2 where "OpenExcl f1 (tmp_path test_base (mo_Oid test_meta)) = (f2, Ok (next_inode f1))"
    using r1 test_tmp_free
    by (simp add: OpenExcl_def Let_def path_of_tmp [OF test_valid] parent_keys ready_def)
  then have run: "solo_run test_base [0, 0] test_fs (new_upload test_meta (test_content, None)) =
      (f2, (new_upload test_meta (test_content, None))\<lparr>up_phase := Copying (next_inode f1)\<rparr>)"
    using mk by (simp add: upload_step_def new_upload_def Let_def)
  obtain f3 other where p1: "ContentStore_Put test_base (fst (NewContentStore f2 test_base)) ?m' (''x'', None) = (f3, other)"
    by fastforce
  obtain f4 r where p2: "ContentStore_Put test_base f3 test_meta (test_content, None) = (f4, r)" by fastforce
  have after: "afterwards test_base f2 [Restart, Upload ?m' (''x'', None), Upload test_meta (test_content, None)] =
      [(oid_of ''x'', other), (test_oid, r)]"
    using p1 p2 by (simp add: test_meta_def)
  have "(mo_Oid test_meta, r) \<in> set (afterwards test_base f2
      [Restart, Upload ?m' (''x'', None), Upload test_meta (test_content, None)])"
    unfolding after by (simp add: test_meta_def)
  from interrupted_upload_blocks_oid [OF store_ok_wf [OF test_store_ok] test_valid run _ this]
  have "r = Err EEXIST" by simp
  with run after show ?thesis by fastforce
qed

text \<open>
  C29: every upload returns.  Whatever other uploads are under way, of the same OID or of
  others, and however the calls of all of them interleave: an upload that has made as many
  calls as its body has bytes and five more has returned, with success or with an error.
\<close>

theorem every_upload_returns:
  assumes "sv_uploads s k = Some (new_upload m rd)" and "length (fst rd) + 5 \<le> turns k ps"
  shows "\<exists>u r. sv_uploads (run_calls base ps s) k = Some u \<and> up_phase u = Done r"
  using assms(2) by (intro run_calls_done [OF assms(1)]) (simp add: size_upload_ext_def new_upload_def)

lemma every_upload_returns_witness:
  "\<exists>u r. sv_uploads (run_calls test_base (concat (replicate 25 [(1, 0), (2, 7)]))
       (arrive 1 test_meta (test_content, None) (arrive 2 test_meta (''junk'', None) (fresh_server test_fs)))) 1 = Some u \<and>
     up_phase u = Done r"
proof -
  have "turns 1 (concat (replicate 25 [(1, 0), (2, 7)])) = 25" by (simp add: turns_def eval_nat_numeral)
  then show ?thesis
    using every_upload_returns [where k = 1 and m = test_meta and rd = "(test_content, None)"]
    by (simp add: arrive_def test_content_def)
qed

end
