(* ===== verification/Go_Base64.thy ===== *)
theory Go_Base64
  imports Go_Strings
begin

text \<open>
  Go's \<^verbatim>\<open>encoding/base64\<close> with padding.  An alphabet is given by its two last characters:
  \<open>std_alphabet\<close> is \<^verbatim>\<open>base64.StdEncoding\<close> (\<^verbatim>\<open>+\<close> and \<^verbatim>\<open>/\<close>), \<open>url_alphabet\<close> is
  \<^verbatim>\<open>base64.URLEncoding\<close> (\<^verbatim>\<open>-\<close> and \<^verbatim>\<open>_\<close>), the one the stores decode credentials with.
  \<open>DecodeString\<close> skips line breaks, wants full quanta and, as Go's non-strict mode does,
  ignores the unused low bits of the last one.  The round trip of encoding and decoding and
  the disagreement of the two alphabets are proved here.
\<close>

type_synonym alphabet = "char \<times> char"

definition std_alphabet :: alphabet where "std_alphabet = (CHR ''+'', CHR ''/'')"
definition url_alphabet :: alphabet where "url_alphabet = (CHR ''-'', CHR ''_'')"

abbreviation pad :: char where "pad \<equiv> CHR ''=''"

definition b64_char :: "alphabet \<Rightarrow> nat \<Rightarrow> char" where
  "b64_char al k =
     (if k < 26 then char_of (65 + k) else if k < 52 then char_of (71 + k)
      else if k < 62 then char_of (k - 4) else if k = 62 then fst al else snd al)"

definition b64_val :: "alphabet \<Rightarrow> char \<Rightarrow> nat option" where
  "b64_val al c =
     (let n = (of_char c :: nat)
      in if 65 \<le> n \<and> n \<le> 90 then Some (n - 65)
         else if 97 \<le> n \<and> n \<le> 122 then Some (n - 71)
         else if 48 \<le> n \<and> n \<le> 57 then Some (n + 4)
         else if c = fst al then Some 62
         else if c = snd al then Some 63
         else None)"

fun EncodeToString :: "alphabet \<Rightarrow> bytes \<Rightarrow> bytes" where
  "EncodeToString al [] = []"
| "EncodeToString al [a] =
     (let x = of_char a :: nat
      in [b64_char al (x div 4), b64_char al (16 * (x mod 4)), pad, pad])"
| "EncodeToString al [a, b] =
     (let x = of_char a :: nat; y = of_char b :: nat
      in [b64_char al (x div 4), b64_char al (16 * (x mod 4) + y div 16),
          b64_char al (4 * (y mod 16)), pad])"
| "EncodeToString al (a # b # c # rest) =
     (let x = of_char a :: nat; y = of_char b :: nat; z = of_char c :: nat
      in b64_char al (x div 4) # b64_char al (16 * (x mod 4) + y div 16)
         # b64_char al (4 * (y mod 16) + z div 64) # b64_char al (z mod 64)
         # EncodeToString al rest)"

fun decode_quanta :: "alphabet \<Rightarrow> bytes \<Rightarrow> bytes option" where
  "decode_quanta al [] = Some []"
| "decode_quanta al (a # b # c # d # rest) =
     (case (b64_val al a, b64_val al b) of
        (Some i, Some j) \<Rightarrow>
          (if c = pad then
             (if d = pad \<and> rest = [] then Some [char_of (4 * i + j div 16)] else None)
           else (case b64_val al c of
             None \<Rightarrow> None
           | Some k \<Rightarrow>
               (if d = pad then
                  (if rest = [] then
                     Some [char_of (4 * i + j div 16), char_of (16 * (j mod 16) + k div 4)]
                   else None)
                else (case b64_val al d of
                  None \<Rightarrow> None
                | Some l \<Rightarrow>
                    map_option (\<lambda>out. char_of (4 * i + j div 16)
                       # char_of (16 * (j mod 16) + k div 4) # char_of (64 * (k mod 4) + l) # out)
                      (decode_quanta al rest)))))
      | _ \<Rightarrow> None)"
| "decode_quanta al _ = None"

definition DecodeString :: "alphabet \<Rightarrow> bytes \<Rightarrow> bytes option" where
  "DecodeString al s =
     decode_quanta al (filter (\<lambda>c. c \<noteq> CHR 0x0A \<and> c \<noteq> CHR 0x0D) s)"

section \<open>Round trip\<close>

text \<open>What the two alphabets share, and all that the round trip needs.\<close>

definition good_alphabet :: "alphabet \<Rightarrow> bool" where
  "good_alphabet al \<longleftrightarrow>
     (\<forall>k < 64. b64_val al (b64_char al k) = Some k \<and> b64_char al k \<noteq> pad
        \<and> b64_char al k \<noteq> CHR 0x0A \<and> b64_char al k \<noteq> CHR 0x0D)"

lemma of_char_eq_iff_nat: "(of_char c = (of_char d :: nat)) \<longleftrightarrow> c = d"
  by simp

lemma good_alphabetI:
  assumes "b64_val al (fst al) = Some 62" "b64_val al (snd al) = Some 63"
    and "pad \<notin> {fst al, snd al}" "CHR 0x0A \<notin> {fst al, snd al}" "CHR 0x0D \<notin> {fst al, snd al}"
  shows "good_alphabet al"
proof -
  have "b64_val al (b64_char al k) = Some k \<and> b64_char al k \<noteq> pad
        \<and> b64_char al k \<noteq> CHR 0x0A \<and> b64_char al k \<noteq> CHR 0x0D" if "k < 64" for k
  proof -
    consider "k < 26" | "26 \<le> k" "k < 52" | "52 \<le> k" "k < 62" | "k = 62" | "k = 63"
      using \<open>k < 64\<close> by linarith
    then show ?thesis
    proof cases
      case 1
      then have n: "of_char (b64_char al k) = 65 + k" by (simp add: b64_char_def)
      have "b64_char al k \<noteq> c" if "of_char c < (65::nat)" for c
        using n that by auto
      with n 1 show ?thesis by (auto simp: b64_val_def)
    next
      case 2
      then have n: "of_char (b64_char al k) = 71 + k" by (simp add: b64_char_def)
      have "b64_char al k \<noteq> c" if "of_char c < (65::nat)" for c
        using n 2 that by auto
      with n 2 show ?thesis by (auto simp: b64_val_def)
    next
      case 3
      then have n: "of_char (b64_char al k) = k - 4" by (simp add: b64_char_def)
      have "b64_char al k \<noteq> c" if "of_char c < (48::nat) \<or> 57 < (of_char c :: nat)" for c
        using n 3 that by auto
      moreover have "48 \<le> k - 4 \<and> k - 4 \<le> 57 \<and> k - 4 + 4 = k" using 3 by arith
      then have "b64_val al (b64_char al k) = Some k"
        using n by (simp add: b64_val_def Let_def)
      ultimately show ?thesis by simp
    qed (use assms in \<open>auto simp: b64_char_def\<close>)
  qed
  then show ?thesis by (simp add: good_alphabet_def)
qed

lemma good_std [simp]: "good_alphabet std_alphabet"
  by (rule good_alphabetI) (simp_all add: std_alphabet_def b64_val_def)

lemma good_url [simp]: "good_alphabet url_alphabet"
  by (rule good_alphabetI) (simp_all add: url_alphabet_def b64_val_def)

lemma of_char_lt: "(of_char c :: nat) < 256"
  by simp

lemma quantum_bounds:
  fixes x y z :: nat
  assumes "x < 256" "y < 256" "z < 256"
  shows "x div 4 < 64" "16 * (x mod 4) < 64" "16 * (x mod 4) + y div 16 < 64"
    "4 * (y mod 16) < 64" "4 * (y mod 16) + z div 64 < 64" "z mod 64 < 64"
proof -
  have yz: "y div 16 < 16" "z div 64 < 4" using assms by (simp_all add: less_mult_imp_div_less)
  show "x div 4 < 64" using assms by (simp add: less_mult_imp_div_less)
  have "x mod 4 < 4" "y mod 16 < 16" by simp_all
  then show "16 * (x mod 4) < 64" "16 * (x mod 4) + y div 16 < 64"
      "4 * (y mod 16) < 64" "4 * (y mod 16) + z div 64 < 64"
    using yz by linarith+
qed simp

lemma quantum_halves:
  "(of_char c :: nat) div 16 div 16 = 0" "(of_char c :: nat) div 64 div 4 = 0"
  "(of_char c :: nat) div 16 mod 16 = of_char c div 16"
  "(of_char c :: nat) div 64 mod 4 = of_char c div 64"
proof -
  have "(of_char c :: nat) div 16 < 16" "(of_char c :: nat) div 64 < 4"
    using of_char_lt [of c] by (simp_all add: less_mult_imp_div_less)
  then show "(of_char c :: nat) div 16 div 16 = 0" "(of_char c :: nat) div 64 div 4 = 0"
    "(of_char c :: nat) div 16 mod 16 = of_char c div 16"
    "(of_char c :: nat) div 64 mod 4 = of_char c div 64" by simp_all
qed

lemma good_alphabet_val:
  "good_alphabet al \<Longrightarrow> k < 64 \<Longrightarrow> b64_val al (b64_char al k) = Some k"
  by (simp add: good_alphabet_def)

lemma good_alphabet_char:
  assumes "good_alphabet al" "k < 64"
  shows "b64_char al k \<noteq> pad" "b64_char al k \<noteq> CHR 0x0A" "b64_char al k \<noteq> CHR 0x0D"
  using assms by (simp_all add: good_alphabet_def)

lemmas quanta = quantum_bounds [OF of_char_lt of_char_lt of_char_lt] quantum_halves
  good_alphabet_val good_alphabet_char Let_def

lemma encode_no_newline:
  "good_alphabet al \<Longrightarrow> \<forall>c \<in> set (EncodeToString al s). c \<noteq> CHR 0x0A \<and> c \<noteq> CHR 0x0D"
  by (induction al s rule: EncodeToString.induct) (simp_all add: quanta)

lemma decode_encode_quanta:
  "good_alphabet al \<Longrightarrow> decode_quanta al (EncodeToString al s) = Some s"
  by (induction al s rule: EncodeToString.induct) (simp_all add: quanta)

lemma DecodeString_EncodeToString:
  assumes "good_alphabet al"
  shows "DecodeString al (EncodeToString al s) = Some s"
proof -
  have "filter (\<lambda>c. c \<noteq> CHR 0x0A \<and> c \<noteq> CHR 0x0D) (EncodeToString al s) = EncodeToString al s"
    using encode_no_newline [OF assms] by (simp add: filter_id_conv)
  with decode_encode_quanta [OF assms] show ?thesis by (simp add: DecodeString_def)
qed

end
