(* ===== verification/Ldap_Auth.thy ===== *)
theory Ldap_Auth
  imports Config Go_Base64
begin

text \<open>
  \<^verbatim>\<open>meta_store_auth.go\<close>, and the decoding of the \<^verbatim>\<open>Authorization\<close> header that the three
  metadata stores share.  The LDAP client is a third-party package: its dial, search and
  bind are parameters, collected in a record with the parser of \<^verbatim>\<open>net/url\<close>.
\<close>

section \<open>Credentials in the Authorization header\<close>

definition basic_credentials :: "bytes \<Rightarrow> (bytes \<times> bytes) option" where
  "basic_credentials authorization =
     (if authorization = [] then None
      else if \<not> HasPrefix authorization ''Basic '' then None
      else case DecodeString url_alphabet (TrimPrefix authorization ''Basic '') of
          None \<Rightarrow> None
        | Some cs \<Rightarrow>
            let i = IndexByte cs CHR '':''
            in if i < 0 then None else Some (cut_at cs i))"

text \<open>The header that a client sends, with the alphabet it encodes in.\<close>

definition basic_header :: "alphabet \<Rightarrow> bytes \<Rightarrow> bytes \<Rightarrow> bytes" where
  "basic_header al user password = ''Basic '' @ EncodeToString al (user @ CHR '':'' # password)"

lemma basic_header_form:
  "basic_header al user password \<noteq> []" "HasPrefix (basic_header al user password) ''Basic ''"
  "TrimPrefix (basic_header al user password) ''Basic '' = EncodeToString al (user @ CHR '':'' # password)"
  unfolding basic_header_def by (simp, rule HasPrefix_append, rule TrimPrefix_append)

lemma basic_credentials_header:
  assumes "CHR '':'' \<notin> set user"
  shows "basic_credentials (basic_header url_alphabet user password) = Some (user, password)"
  using DecodeString_EncodeToString [OF good_url] cut_at_IndexByte [OF assms, of password]
    IndexByte_append [OF assms, of password]
  by (simp only: basic_credentials_def basic_header_form Let_def if_False if_True not_True_eq_False
      option.case) simp

lemma basic_credentials_user: "basic_credentials a = Some (user, password) \<Longrightarrow> CHR '':'' \<notin> set user"
  by (auto simp: basic_credentials_def Let_def split: if_splits option.splits
      dest!: cut_at_append [rotated] simp: not_less)

section \<open>The LDAP client\<close>

record SearchRequest =
  sr_BaseDN :: bytes
  sr_Filter :: bytes
  sr_Scope :: int
  sr_Attributes :: "bytes list"

text \<open>
  \<open>la_Parse\<close> is \<^verbatim>\<open>url.Parse\<close>: the \<^verbatim>\<open>Host\<close> of the URL and its \<^verbatim>\<open>String()\<close>, \<open>None\<close> when it
  fails.  \<open>la_Dial tls addr\<close> connects; a search yields the DNs of the entries found.  The
  server's answers may depend on the session, which a successful bind changes.
\<close>

record 'c ldap_api =
  la_Parse :: "bytes \<Rightarrow> (bytes \<times> bytes) option"
  la_Dial :: "bool \<Rightarrow> bytes \<Rightarrow> GoError + 'c"
  la_Search :: "'c \<Rightarrow> SearchRequest \<Rightarrow> GoError + bytes list"
  la_Bind :: "'c \<Rightarrow> bytes \<Rightarrow> bytes \<Rightarrow> GoError + 'c"

definition ldapHost :: "'c ldap_api \<Rightarrow> LdapConfig \<Rightarrow> (bytes \<times> bytes) option" where
  "ldapHost api cfg = la_Parse api (Ldap_Server cfg)"

text \<open>The port: \<^verbatim>\<open>uint16(port)\<close> keeps the low 16 bits of what \<^verbatim>\<open>Atoi\<close> read.\<close>

definition ldap_port :: "bytes list \<Rightarrow> uint16 outcome" where
  "ldap_port hoster =
     (if length hoster < 2 then Ok 389
      else case Atoi (hoster ! 1) of
          None \<Rightarrow> Panic (ErrExt ''strconv.Atoi'')
        | Some port \<Rightarrow> Ok (word_of_int port))"

definition ldap_address :: "bytes \<Rightarrow> bytes outcome" where
  "ldap_address host =
     (let hoster = SplitByte CHR '':'' host
      in bind_outcome (ldap_port hoster) (\<lambda>port. Ok (hoster ! 0 @ '':'' @ Itoa (uint port))))"

text \<open>
  \<^verbatim>\<open>NewLdapConnection\<close>.  A failed parse is logged and the nil URL dereferenced.
\<close>

definition NewLdapConnection :: "'c ldap_api \<Rightarrow> LdapConfig \<Rightarrow> 'c outcome" where
  "NewLdapConnection api cfg =
     (case ldapHost api cfg of
        None \<Rightarrow> Panic (ErrExt ''nil pointer dereference'')
      | Some (host, str) \<Rightarrow>
          bind_outcome (ldap_address host) (\<lambda>addr.
            (case la_Dial api (Contains str ''ldaps'') addr of
               Inl e \<Rightarrow> Err e
             | Inr con \<Rightarrow> Ok con)))"

text \<open>The search runs before the connection is bound; the bind only decides whether its result counts.\<close>

definition LdapSearch :: "'c ldap_api \<Rightarrow> LdapConfig \<Rightarrow> SearchRequest \<Rightarrow> bytes list outcome" where
  "LdapSearch api cfg search =
     bind_outcome (NewLdapConnection api cfg) (\<lambda>con.
       (case la_Search api con search of
          Inl e \<Rightarrow> Err e
        | Inr dns \<Rightarrow>
            (case (if length (Ldap_BindDn cfg) + length (Ldap_BindPass cfg) > 0
                   then la_Bind api con (Ldap_BindDn cfg) (Ldap_BindPass cfg) else Inr con) of
               Inl e \<Rightarrow> Err e
             | Inr _ \<Rightarrow> if dns = [] then Err ErrNoLdapSearchResults else Ok dns)))"

definition LdapBind :: "'c ldap_api \<Rightarrow> LdapConfig \<Rightarrow> bytes \<Rightarrow> bytes \<Rightarrow> bool outcome" where
  "LdapBind api cfg user password =
     (case NewLdapConnection api cfg of
        Panic e \<Rightarrow> Panic e
      | Err e \<Rightarrow> Ok False
      | Ok con \<Rightarrow> (case la_Bind api con user password of Inl _ \<Rightarrow> Ok False | Inr _ \<Rightarrow> Ok True))"

definition user_filter :: "LdapConfig \<Rightarrow> bytes \<Rightarrow> bytes" where
  "user_filter cfg user =
     ''(&(objectclass='' @ Ldap_UserObjectClass cfg @ '')('' @ Ldap_UserCn cfg @ ''='' @ user @ ''))''"

definition user_search :: "LdapConfig \<Rightarrow> bytes \<Rightarrow> SearchRequest" where
  "user_search cfg user =
     \<lparr>sr_BaseDN = Ldap_Base cfg, sr_Filter = user_filter cfg user, sr_Scope = 1,
      sr_Attributes = [''dn'']\<rparr>"

definition findUserDn :: "'c ldap_api \<Rightarrow> LdapConfig \<Rightarrow> bytes \<Rightarrow> bytes outcome" where
  "findUserDn api cfg user =
     bind_outcome (LdapSearch api cfg (user_search cfg user)) (\<lambda>dns.
       (case dns of dn # _ \<Rightarrow> Ok dn | [] \<Rightarrow> Err ErrLdapUserNotFound))"

definition authenticateLdap :: "'c ldap_api \<Rightarrow> LdapConfig \<Rightarrow> bytes \<Rightarrow> bytes \<Rightarrow> bool outcome" where
  "authenticateLdap api cfg user password =
     (case findUserDn api cfg user of
        Panic e \<Rightarrow> Panic e
      | Err e \<Rightarrow> Ok False
      | Ok dn \<Rightarrow> LdapBind api cfg dn password)"

section \<open>Lemmas\<close>

lemma NewLdapConnection_ok:
  assumes "NewLdapConnection api cfg = Ok con"
  shows "\<exists>host str addr. la_Parse api (Ldap_Server cfg) = Some (host, str) \<and> ldap_address host = Ok addr \<and>
    la_Dial api (Contains str ''ldaps'') addr = Inr con"
proof -
  obtain host str where u: "la_Parse api (Ldap_Server cfg) = Some (host, str)"
    using assms by (auto simp: NewLdapConnection_def ldapHost_def split: option.splits)
  obtain addr where a: "ldap_address host = Ok addr"
    using assms u by (auto simp: NewLdapConnection_def ldapHost_def bind_outcome_ok_iff)
  have "la_Dial api (Contains str ''ldaps'') addr = Inr con"
    using assms u a
    by (cases "la_Dial api (Contains str ''ldaps'') addr") (simp_all add: NewLdapConnection_def ldapHost_def)
  with u a show ?thesis by blast
qed

lemma LdapSearch_ok_iff:
  "LdapSearch api cfg search = Ok dns \<longleftrightarrow>
     (\<exists>con. NewLdapConnection api cfg = Ok con \<and> la_Search api con search = Inr dns \<and> dns \<noteq> [] \<and>
        (Ldap_BindDn cfg @ Ldap_BindPass cfg = [] \<or>
           (\<exists>c'. la_Bind api con (Ldap_BindDn cfg) (Ldap_BindPass cfg) = Inr c')))"
proof (cases "NewLdapConnection api cfg")
  case (Ok con)
  show ?thesis
  proof (cases "la_Search api con search")
    case (Inr found)
    then show ?thesis
      using Ok by (cases "la_Bind api con (Ldap_BindDn cfg) (Ldap_BindPass cfg)")
        (auto simp: LdapSearch_def)
  qed (use Ok in \<open>simp add: LdapSearch_def\<close>)
qed (simp_all add: LdapSearch_def)

lemma findUserDn_ok_iff:
  "findUserDn api cfg user = Ok dn \<longleftrightarrow>
     (\<exists>dns. LdapSearch api cfg (user_search cfg user) = Ok (dn # dns))"
proof (cases "LdapSearch api cfg (user_search cfg user)")
  case (Ok dns)
  then show ?thesis by (cases dns) (auto simp: findUserDn_def)
qed (simp_all add: findUserDn_def)

lemma LdapBind_true_iff:
  "LdapBind api cfg dn password = Ok True \<longleftrightarrow>
     (\<exists>con c'. NewLdapConnection api cfg = Ok con \<and> la_Bind api con dn password = Inr c')"
  by (auto simp: LdapBind_def split: outcome.splits sum.splits)

lemma authenticateLdap_no_err: "authenticateLdap api cfg user password \<noteq> Err e"
  by (simp add: authenticateLdap_def LdapBind_def split: outcome.splits sum.splits)

lemma Itoa_uint: "Itoa (uint (p :: uint16)) = dec_digits (unat p)"
  by (simp add: Itoa_def)

lemma ldap_address_plain:
  assumes "CHR '':'' \<notin> set h"
  shows "ldap_address h = Ok (h @ '':389'')"
proof -
  have "dec_digits 389 = ''389''" by (simp add: dec_digits.simps char_of_def bit_Suc_0_iff)
  then show ?thesis by (simp add: ldap_address_def SplitByte_no_sep [OF assms] ldap_port_def Itoa_def)
qed

lemma split_host_port:
  "CHR '':'' \<notin> set h \<Longrightarrow> CHR '':'' \<notin> set p \<Longrightarrow> SplitByte CHR '':'' (h @ CHR '':'' # p) = [h, p]"
  by (simp add: SplitByte_append SplitByte_no_sep)

lemma ldap_address_port:
  assumes h: "CHR '':'' \<notin> set h" and n: "n < 2 ^ 63"
  shows "ldap_address (h @ '':'' @ dec_digits n) = Ok (h @ '':'' @ dec_digits (n mod 65536))"
proof -
  have digits: "CHR '':'' \<notin> set (dec_digits n)"
    using dec_digits_valid [of n] by (auto simp: list_all_iff is_digit_def)
  have "unat (word_of_int (int n) :: uint16) = n mod 65536"
    by (simp add: unsigned_of_nat take_bit_eq_mod)
  then show ?thesis
    by (simp add: ldap_address_def split_host_port [OF h digits] ldap_port_def Atoi_dec_digits [OF n]
        Itoa_uint)
qed

section \<open>Properties\<close>

text \<open>
  C30: a login through LDAP succeeds exactly when the connection can be made, the search for
  the user, made before any bind, yields entries, the configured service account (if any)
  binds, and the first entry's name binds with the password given.  It never returns an
  error: it accepts, refuses or panics.
\<close>

theorem ldap_login_iff:
  "(authenticateLdap api cfg user password = Ok True \<longleftrightarrow>
     (\<exists>con dn dns c'. NewLdapConnection api cfg = Ok con \<and>
        la_Search api con (user_search cfg user) = Inr (dn # dns) \<and>
        (Ldap_BindDn cfg @ Ldap_BindPass cfg = [] \<or>
           (\<exists>c''. la_Bind api con (Ldap_BindDn cfg) (Ldap_BindPass cfg) = Inr c'')) \<and>
        la_Bind api con dn password = Inr c')) \<and>
   (\<nexists>e. authenticateLdap api cfg user password = Err e)"
proof -
  have "authenticateLdap api cfg user password = Ok True \<longleftrightarrow>
      (\<exists>dn. findUserDn api cfg user = Ok dn \<and> LdapBind api cfg dn password = Ok True)"
    by (auto simp: authenticateLdap_def split: outcome.splits)
  then show ?thesis
    unfolding findUserDn_ok_iff LdapSearch_ok_iff LdapBind_true_iff
    using authenticateLdap_no_err [of api cfg user password] by fastforce
qed

text \<open>
  C38: the address dialled for a configured host: port 389 when none is given, the panic of
  \<^verbatim>\<open>Atoi\<close> when it is not a number, and otherwise the number modulo 65536.
\<close>

theorem ldap_address_of_host:
  assumes h: "CHR '':'' \<notin> set h"
  shows "ldap_address h = Ok (h @ '':389'') \<and>
    (n < 2 ^ 63 \<longrightarrow>
       ldap_address (h @ '':'' @ dec_digits n) = Ok (h @ '':'' @ dec_digits (n mod 65536))) \<and>
    (CHR '':'' \<notin> set p \<longrightarrow> Atoi p = None \<longrightarrow> (\<exists>e. ldap_address (h @ '':'' @ p) = Panic e))"
proof -
  have "\<exists>e. ldap_address (h @ '':'' @ p) = Panic e" if "CHR '':'' \<notin> set p" "Atoi p = None"
    using that by (simp add: ldap_address_def split_host_port [OF h] ldap_port_def)
  then show ?thesis using ldap_address_plain [OF h] ldap_address_port [OF h] by blast
qed

lemma ldap_address_of_host_witness:
  "ldap_address ''ldap.test'' = Ok ''ldap.test:389''"
  using ldap_address_of_host [of "''ldap.test''"] by simp

lemma decode_quanta_chars:
  "decode_quanta al s = Some out \<Longrightarrow> c \<in> set s \<Longrightarrow> c = pad \<or> b64_val al c \<noteq> None"
proof (induction al s arbitrary: out rule: decode_quanta.induct)
  case (2 al x y z w rest)
  then show ?case by (auto split: option.splits if_splits)
qed auto

text \<open>
  Basic credentials are standard Base64, whose last two digits are \<^verbatim>\<open>+\<close> and \<^verbatim>\<open>/\<close>; the
  stores decode with the URL alphabet.  Every pair of a user and a password whose standard
  encoding needs one of the two is taken for malformed, however right it is; a client that
  encoded with the URL alphabet would get through.
\<close>

theorem standard_credentials_rejected:
  assumes "CHR '':'' \<notin> set user"
    and "CHR ''+'' \<in> set (EncodeToString std_alphabet (user @ CHR '':'' # password)) \<or>
         CHR ''/'' \<in> set (EncodeToString std_alphabet (user @ CHR '':'' # password))"
  shows "basic_credentials (basic_header std_alphabet user password) = None \<and>
    basic_credentials (basic_header url_alphabet user password) = Some (user, password)"
proof -
  let ?s = "EncodeToString std_alphabet (user @ CHR '':'' # password)"
  obtain c where c: "c \<in> set ?s" "c = CHR ''+'' \<or> c = CHR ''/''" using assms(2) by blast
  then have "c \<in> set (filter (\<lambda>c. c \<noteq> CHR 0x0A \<and> c \<noteq> CHR 0x0D) ?s)" by auto
  moreover have "c \<noteq> pad \<and> b64_val url_alphabet c = None"
    using c(2) by (auto simp: b64_val_def url_alphabet_def)
  ultimately have "DecodeString url_alphabet ?s = None"
    unfolding DecodeString_def
    by (cases "decode_quanta url_alphabet (filter (\<lambda>c. c \<noteq> CHR 0x0A \<and> c \<noteq> CHR 0x0D) ?s)")
      (use decode_quanta_chars [of url_alphabet _ _ c] in blast)+
  then have "basic_credentials (basic_header std_alphabet user password) = None"
    by (simp only: basic_credentials_def basic_header_form if_False if_True not_True_eq_False option.case)
  then show ?thesis using basic_credentials_header [OF assms(1)] by simp
qed

lemma standard_credentials_rejected_witness:
  "basic_credentials (basic_header std_alphabet ''a'' ''?'') = None"
proof -
  have "EncodeToString std_alphabet ''a:?'' = ''YTo/''"
    by (simp add: b64_char_def std_alphabet_def) (simp add: char_of_def bit_Suc_0_iff)
  with standard_credentials_rejected [of "''a''" "''?''"] show ?thesis by simp
qed

text \<open>
  C39: the name that a client sends goes into the LDAP filter as it is.  With the wildcard
  for a name, the password of whichever entry the directory lists first logs the client in.
\<close>

theorem ldap_wildcard_login:
  assumes "NewLdapConnection api cfg = Ok con" and "Ldap_BindDn cfg = []" and "Ldap_BindPass cfg = []"
    and "la_Search api con \<lparr>sr_BaseDN = Ldap_Base cfg,
        sr_Filter = ''(&(objectclass='' @ Ldap_UserObjectClass cfg @ '')('' @ Ldap_UserCn cfg @ ''=*))'',
        sr_Scope = 1, sr_Attributes = [''dn'']\<rparr> = Inr (dn # dns)"
    and "la_Bind api con dn password = Inr con'"
  shows "authenticateLdap api cfg ''*'' password = Ok True"
  using assms
  by (simp add: authenticateLdap_def findUserDn_def LdapSearch_def LdapBind_def user_search_def
      user_filter_def)

section \<open>The test server\<close>

text \<open>
  \<^verbatim>\<open>test_ldap_server.go\<close>: a directory of four entries, a name with attributes each, whose search
  returns them all for any request and whose bind wants a name that is part of one of theirs
  and the password \<^verbatim>\<open>admin\<close>.
\<close>

type_synonym ldap_entry = "bytes \<times> (bytes \<times> bytes list) list"

datatype ldap_code = LDAPResultSuccess | LDAPResultInvalidCredentials

definition test_entries :: "ldap_entry list" where
  "test_entries =
     [(''cn=ned,o=testers,o=company'',
        [(''cn'', [''ned'']), (''o'', [''ate'']), (''uidNumber'', [''5000'']), (''accountstatus'', [''active'']),
         (''uid'', [''ned'']), (''description'', [''ned via sa'']), (''objectclass'', [''posixaccount''])]),
      (''cn=admin,o=testers,o=company'',
        [(''cn'', [''admin'']), (''o'', [''ate'']), (''uidNumber'', [''5001'']), (''accountstatus'', [''active'']),
         (''uid'', [''admin'']), (''description'', [''admin via sa'']), (''objectclass'', [''posixaccount'', ''user''])]),
      (''cn=trent,o=testers,o=company'',
        [(''cn'', [''trent'']), (''o'', [''ate'']), (''uidNumber'', [''5005'']), (''accountstatus'', [''active'']),
         (''uid'', [''trent'']), (''description'', [''trent via sa'']), (''objectclass'', [''posixaccount''])]),
      (''cn=randy,o=testers,o=company'',
        [(''cn'', [''randy'']), (''o'', [''ate'']), (''uidNumber'', [''5555'']), (''accountstatus'', [''active'']),
         (''uid'', [''randy'']), (''objectclass'', [''posixaccount''])])]"

definition searchSimple_Search :: "SearchRequest \<Rightarrow> GoError + ldap_entry list \<times> ldap_code" where
  "searchSimple_Search req = Inr (test_entries, LDAPResultSuccess)"

definition ldapHandler_Bind :: "bytes \<Rightarrow> bytes \<Rightarrow> ldap_code \<times> GoError option" where
  "ldapHandler_Bind bindDN bindSimplePw =
     (case searchSimple_Search
         \<lparr>sr_BaseDN = ''o=testers,o=company'', sr_Filter = ''(cn=admin*)'', sr_Scope = 0, sr_Attributes = []\<rparr> of
        Inl err \<Rightarrow> (LDAPResultInvalidCredentials, Some err)
      | Inr (entries, _) \<Rightarrow>
          if \<not> list_ex (\<lambda>e. Contains (fst e) bindDN) entries then (LDAPResultInvalidCredentials, None)
          else if bindSimplePw = ''admin'' then (LDAPResultSuccess, None)
          else (LDAPResultInvalidCredentials, None))"

text \<open>
  \<^verbatim>\<open>main\<close>: both handlers serve every base, and the message it ends with when the server stops
  with an error.  (\<^verbatim>\<open>log.Fatal\<close> does not read its first argument as a format.)
\<close>

record test_server =
  ts_BindFunc :: "bytes \<Rightarrow> (bytes \<Rightarrow> bytes \<Rightarrow> ldap_code \<times> GoError option) option"
  ts_SearchFunc :: "bytes \<Rightarrow> (SearchRequest \<Rightarrow> GoError + ldap_entry list \<times> ldap_code) option"

definition test_server_main :: "(test_server \<Rightarrow> bytes \<Rightarrow> GoError option) \<Rightarrow> bytes option" where
  "test_server_main ListenAndServe =
     (let s = \<lparr>ts_BindFunc = [[] \<mapsto> ldapHandler_Bind], ts_SearchFunc = [[] \<mapsto> searchSimple_Search]\<rparr>
      in case ListenAndServe s ''localhost:1389'' of
           Some err \<Rightarrow> Some (''LDAP Server Failed: %s'' @ Error err)
         | None \<Rightarrow> None)"

text \<open>The client of that server: what a connection to it answers.\<close>

definition test_ldap :: "unit ldap_api" where
  "test_ldap =
     \<lparr>la_Parse = (\<lambda>s. Some (''localhost'' @ '':'' @ dec_digits 1389, s)),
      la_Dial = (\<lambda>tls addr. if addr = ''localhost'' @ '':'' @ dec_digits 1389 then Inr ()
                            else Inl (ErrExt ''connection refused'')),
      la_Search = (\<lambda>con req. map_sum id (map fst \<circ> fst) (searchSimple_Search req)),
      la_Bind = (\<lambda>con dn pw. case ldapHandler_Bind dn pw of
          (LDAPResultSuccess, None) \<Rightarrow> Inr () | (_, Some err) \<Rightarrow> Inl err
        | _ \<Rightarrow> Inl (ErrExt ''Invalid Credentials''))\<rparr>"

lemma Contains_self: "Contains s s"
  by (metis Contains_iff append_Nil append_Nil2)

lemma ldapHandler_Bind_success:
  "ldapHandler_Bind dn pw = (LDAPResultSuccess, None) \<longleftrightarrow>
     list_ex (\<lambda>e. Contains (fst e) dn) test_entries \<and> pw = ''admin''"
  by (simp add: ldapHandler_Bind_def searchSimple_Search_def)

lemma test_ldap_Bind:
  assumes "dn \<in> fst ` set test_entries"
  shows "la_Bind test_ldap con dn ''admin'' = Inr ()"
proof -
  have "list_ex (\<lambda>e. Contains (fst e) dn) test_entries"
    using assms Contains_self unfolding list_ex_iff by fastforce
  then show ?thesis using ldapHandler_Bind_success [of dn "''admin''"] by (simp add: test_ldap_def)
qed

lemma test_ldap_connection: "NewLdapConnection test_ldap cfg = Ok ()"
proof -
  have "ldap_address (''localhost'' @ '':'' @ dec_digits 1389) = Ok (''localhost'' @ '':'' @ dec_digits 1389)"
    using ldap_address_port [of "''localhost''" 1389] by simp
  then show ?thesis
    by (simp only: NewLdapConnection_def ldapHost_def test_ldap_def ldap_api.simps option.case prod.case
        bind_outcome.simps simp_thms if_True sum.case)
qed

lemma ldap_wildcard_login_witness:
  "authenticateLdap test_ldap default_ldap ''*'' ''admin'' = Ok True"
proof (rule ldap_wildcard_login [OF test_ldap_connection])
  have "fst (hd test_entries) \<in> fst ` set test_entries" by (simp add: test_entries_def)
  then show "la_Bind test_ldap () (fst (hd test_entries)) ''admin'' = Inr ()" by (rule test_ldap_Bind)
qed (simp_all add: default_ldap_def test_ldap_def searchSimple_Search_def test_entries_def)

end
