(* ===== verification/Bolt_Store.thy ===== *)
theory Bolt_Store
  imports Interfaces Ldap_Auth "HOL-Library.Finite_Map"
begin

text \<open>
  \<^verbatim>\<open>meta_store.go\<close>: the metadata store on BoltDB.  The database and bcrypt are third-party
  packages: their operations are parameters, collected in records, and what the code relies
  on is stated as \<open>bolt_laws\<close> and \<open>bcrypt_laws\<close>.  A transaction is a function on the
  database that may fail; \<^verbatim>\<open>Update\<close> keeps its result only if it succeeds and commits.

  Values in a bucket are byte slices.  The ones that \<^verbatim>\<open>encoding/gob\<close> writes are kept
  symbolically, by the value they encode, so that decoding a value of the wrong type fails
  as it does in gob, whose structs share no field here.
\<close>

section \<open>Parameters\<close>

datatype blob =
    Bytes bytes
  | Gob_MetaObject MetaObject
  | Gob_MetaProject MetaProject

fun blob_empty :: "blob option \<Rightarrow> bool" where
  "blob_empty None = True"
| "blob_empty (Some (Bytes b)) = (b = [])"
| "blob_empty _ = False"

fun decode_object :: "blob option \<Rightarrow> MetaObject option" where
  "decode_object (Some (Gob_MetaObject m)) = Some m"
| "decode_object _ = None"

fun decode_project :: "blob option \<Rightarrow> MetaProject option" where
  "decode_project (Some (Gob_MetaProject p)) = Some p"
| "decode_project _ = None"

fun_cases decode_object_SomeE: "decode_object v = Some m"

text \<open>\<open>string(bucket.Get(key))\<close>: the bytes of a value that is not gob.\<close>

fun blob_string :: "blob option \<Rightarrow> bytes" where
  "blob_string (Some (Bytes b)) = b"
| "blob_string _ = []"

text \<open>
  \<open>b_Get\<close> yields \<open>None\<close> for Go's nil.  \<open>b_Commit\<close> is the error, if any, of writing a
  transaction to disk.
\<close>

record 'db bolt_api =
  b_Bucket :: "'db \<Rightarrow> bytes \<Rightarrow> bool"
  b_CreateBucketIfNotExists :: "'db \<Rightarrow> bytes \<Rightarrow> GoError + 'db"
  b_Get :: "'db \<Rightarrow> bytes \<Rightarrow> bytes \<Rightarrow> blob option"
  b_Put :: "'db \<Rightarrow> bytes \<Rightarrow> bytes \<Rightarrow> blob \<Rightarrow> GoError + 'db"
  b_Delete :: "'db \<Rightarrow> bytes \<Rightarrow> bytes \<Rightarrow> GoError + 'db"
  b_ForEach :: "'db \<Rightarrow> bytes \<Rightarrow> (bytes \<times> blob) list"
  b_Commit :: "'db \<Rightarrow> GoError option"

text \<open>
  The documented behaviour of Bolt: a put or delete concerns one key of one bucket, an
  empty key cannot be stored, an iteration visits the pairs of the bucket in byte order.
\<close>

definition bolt_laws :: "'db bolt_api \<Rightarrow> bool" where
  "bolt_laws B \<longleftrightarrow>
     (\<forall>db bk k v db'. b_Put B db bk k v = Inr db' \<longrightarrow>
        b_Bucket B db' = b_Bucket B db \<and> k \<noteq> [] \<and>
        b_Get B db' = (b_Get B db)(bk := (b_Get B db bk)(k \<mapsto> v))) \<and>
     (\<forall>db bk k db'. b_Delete B db bk k = Inr db' \<longrightarrow>
        b_Bucket B db' = b_Bucket B db \<and>
        b_Get B db' = (b_Get B db)(bk := (b_Get B db bk)(k := None))) \<and>
     (\<forall>db bk db'. b_CreateBucketIfNotExists B db bk = Inr db' \<longrightarrow>
        b_Bucket B db' = (b_Bucket B db)(bk := True) \<and> b_Get B db' = b_Get B db) \<and>
     (\<forall>db bk k v e. b_Put B db bk k v = Inl e \<longrightarrow> e \<noteq> AuthError) \<and>
     (\<forall>db e. b_Commit B db = Some e \<longrightarrow> e \<noteq> AuthError) \<and>
     (\<forall>db bk. sorted (map fst (b_ForEach B db bk)) \<and> distinct (map fst (b_ForEach B db bk)) \<and>
        (\<forall>k v. (k, v) \<in> set (b_ForEach B db bk) \<longleftrightarrow> b_Get B db bk k = Some v))"

text \<open>
  bcrypt: hashing with the cost 10, and the comparison of a hash with a password.  Nothing
  matches the empty string, which is too short to be a hash; a hash is not empty and
  matches its password.
\<close>

record bcrypt_api =
  bc_Generate :: "bytes \<Rightarrow> int \<Rightarrow> GoError + bytes"
  bc_Compare :: "bytes \<Rightarrow> bytes \<Rightarrow> GoError option"

definition bcrypt_laws :: "bcrypt_api \<Rightarrow> bool" where
  "bcrypt_laws H \<longleftrightarrow>
     (\<forall>p. bc_Compare H [] p \<noteq> None) \<and>
     (\<forall>p c h. bc_Generate H p c = Inr h \<longrightarrow> h \<noteq> [] \<and> bc_Compare H h p = None)"

record ('db, 'c) bolt_env =
  be_Config :: Configuration
  be_Bolt :: "'db bolt_api"
  be_Bcrypt :: bcrypt_api
  be_Ldap :: "'c ldap_api"

section \<open>Transactions and passwords\<close>

definition db_Update :: "'db bolt_api \<Rightarrow> 'db \<Rightarrow> ('db \<Rightarrow> GoError + 'db) \<Rightarrow> 'db \<times> unit outcome" where
  "db_Update B db fn =
     (case fn db of
        Inl e \<Rightarrow> (db, Err e)
      | Inr db' \<Rightarrow> (case b_Commit B db' of Some e \<Rightarrow> (db, Err e) | None \<Rightarrow> (db', Ok ())))"

definition usersBucket :: bytes where "usersBucket = ''users''"
definition objectsBucket :: bytes where "objectsBucket = ''objects''"
definition projectsBucket :: bytes where "projectsBucket = ''projects''"

lemma bucket_names [simp]:
  "usersBucket \<noteq> objectsBucket" "objectsBucket \<noteq> usersBucket" "usersBucket \<noteq> projectsBucket"
  "projectsBucket \<noteq> usersBucket" "objectsBucket \<noteq> projectsBucket" "projectsBucket \<noteq> objectsBucket"
  by (simp_all add: usersBucket_def objectsBucket_def projectsBucket_def)

definition encryptPass :: "bcrypt_api \<Rightarrow> bytes \<Rightarrow> GoError + bytes" where
  "encryptPass H password = bc_Generate H password 10"

text \<open>\<^verbatim>\<open>checkPass\<close>: the result and the error, which is always nil.\<close>

definition checkPass :: "bcrypt_api \<Rightarrow> bytes \<Rightarrow> bytes \<Rightarrow> bool \<times> GoError option" where
  "checkPass H hashedPassword password = (bc_Compare H hashedPassword password = None, None)"

section \<open>Operations\<close>

text \<open>\<^verbatim>\<open>NewMetaStore\<close>; \<open>opened\<close> is what \<^verbatim>\<open>bolt.Open\<close> returned.  The result of \<^verbatim>\<open>Update\<close> is dropped.\<close>

definition create_buckets :: "'db bolt_api \<Rightarrow> 'db \<Rightarrow> GoError + 'db" where
  "create_buckets B db =
     (case b_CreateBucketIfNotExists B db usersBucket of
        Inl e \<Rightarrow> Inl e
      | Inr db1 \<Rightarrow> (case b_CreateBucketIfNotExists B db1 objectsBucket of
          Inl e \<Rightarrow> Inl e
        | Inr db2 \<Rightarrow> (case b_CreateBucketIfNotExists B db2 projectsBucket of
            Inl e \<Rightarrow> Inl e
          | Inr db3 \<Rightarrow> Inr db3)))"

definition NewMetaStore :: "'db bolt_api \<Rightarrow> GoError + 'db \<Rightarrow> 'db outcome" where
  "NewMetaStore B opened =
     (case opened of
        Inl e \<Rightarrow> Err e
      | Inr db \<Rightarrow> Ok (fst (db_Update B db (create_buckets B))))"

text \<open>\<^verbatim>\<open>authenticate\<close>: true, false, or the panic of an LDAP connection that cannot be set up.\<close>

definition authenticate :: "('db, 'c) bolt_env \<Rightarrow> 'db \<Rightarrow> bytes \<Rightarrow> bool outcome" where
  "authenticate env db authorization =
     (if IsPublic (be_Config env) then Ok True
      else case basic_credentials authorization of
          None \<Rightarrow> Ok False
        | Some (user, password) \<Rightarrow>
            if Ldap_Enabled (Ldap (be_Config env)) then
              authenticateLdap (be_Ldap env) (Ldap (be_Config env)) user password
            else
              let B = be_Bolt env;
                  val = (if b_Bucket B db usersBucket
                         then blob_string (b_Get B db usersBucket user) else [])
              in Ok (fst (checkPass (be_Bcrypt env) val password)))"

definition MetaStore_Get :: "('db, 'c) bolt_env \<Rightarrow> 'db \<Rightarrow> RequestVars \<Rightarrow> MetaObject outcome" where
  "MetaStore_Get env db rv =
     (case authenticate env db (rv_Authorization rv) of
        Panic e \<Rightarrow> Panic e
      | Err e \<Rightarrow> Err e
      | Ok False \<Rightarrow> Err AuthError
      | Ok True \<Rightarrow>
          let B = be_Bolt env in
          if \<not> b_Bucket B db objectsBucket then Err ErrNoBucket
          else let val = b_Get B db objectsBucket (rv_Oid rv) in
               if blob_empty val then Err ErrObjectNotFound
               else case decode_object val of
                   None \<Rightarrow> Err (ErrExt ''gob'')
                 | Some m \<Rightarrow> Ok m)"

definition findProject :: "'db bolt_api \<Rightarrow> 'db \<Rightarrow> bytes \<Rightarrow> MetaProject outcome" where
  "findProject B db projectName =
     (if \<not> b_Bucket B db projectsBucket then Err ErrNoBucket
      else let val = b_Get B db projectsBucket projectName in
           if blob_empty val then Err ErrProjectNotFound
           else case decode_project val of
               None \<Rightarrow> Err (ErrExt ''gob'')
             | Some p \<Rightarrow> if mp_Name p \<noteq> [] then Ok p else Err ErrProjectNotFound)"

definition createProject :: "'db bolt_api \<Rightarrow> 'db \<Rightarrow> RequestVars \<Rightarrow> 'db \<times> unit outcome" where
  "createProject B db rv =
     (if is_ok (findProject B db (rv_Repo rv)) then (db, Ok ())
      else if rv_Repo rv = [] then (db, Ok ())
      else db_Update B db (\<lambda>tx.
        if \<not> b_Bucket B tx projectsBucket then Inl ErrNoBucket
        else b_Put B tx projectsBucket (rv_Repo rv)
          (Gob_MetaProject \<lparr>mp_Name = rv_Repo rv, mp_Oids = [rv_Oid rv]\<rparr>)))"

definition new_object :: "RequestVars \<Rightarrow> MetaObject" where
  "new_object rv =
     \<lparr>mo_Oid = rv_Oid rv, mo_Size = rv_Size rv, mo_ProjectNames = [rv_Repo rv], mo_Existing = False\<rparr>"

definition MetaStore_Put :: "('db, 'c) bolt_env \<Rightarrow> 'db \<Rightarrow> RequestVars \<Rightarrow> 'db \<times> MetaObject outcome" where
  "MetaStore_Put env db rv =
     (case authenticate env db (rv_Authorization rv) of
        Panic e \<Rightarrow> (db, Panic e)
      | Err e \<Rightarrow> (db, Err e)
      | Ok False \<Rightarrow> (db, Err AuthError)
      | Ok True \<Rightarrow>
          (case MetaStore_Get env db rv of
             Panic e \<Rightarrow> (db, Panic e)
           | Ok meta \<Rightarrow> (db, Ok (meta\<lparr>mo_Existing := True\<rparr>))
           | Err _ \<Rightarrow>
               let B = be_Bolt env; meta = new_object rv;
                   (db1, created) = (if rv_Repo rv \<noteq> [] then createProject B db rv else (db, Ok ()))
               in case created of
                    Err e \<Rightarrow> (db1, Err e)
                  | Panic e \<Rightarrow> (db1, Panic e)
                  | Ok _ \<Rightarrow>
                      (case db_Update B db1 (\<lambda>tx.
                              if \<not> b_Bucket B tx objectsBucket then Inl ErrNoBucket
                              else b_Put B tx objectsBucket (rv_Oid rv) (Gob_MetaObject meta)) of
                         (db2, Ok _) \<Rightarrow> (db2, Ok meta)
                       | (db2, Err e) \<Rightarrow> (db2, Err e)
                       | (db2, Panic e) \<Rightarrow> (db2, Panic e))))"

definition AddUser :: "('db, 'c) bolt_env \<Rightarrow> 'db \<Rightarrow> bytes \<Rightarrow> bytes \<Rightarrow> 'db \<times> unit outcome" where
  "AddUser env db user pass =
     (if Ldap_Enabled (Ldap (be_Config env)) then (db, Err ErrNotImplemented)
      else let B = be_Bolt env in
        db_Update B db (\<lambda>tx.
          if \<not> b_Bucket B tx usersBucket then Inl ErrNoBucket
          else case encryptPass (be_Bcrypt env) pass of
              Inl e \<Rightarrow> Inl e
            | Inr encryptedPass \<Rightarrow>
                if \<not> blob_empty (b_Get B tx usersBucket user) then Inr tx
                else b_Put B tx usersBucket user (Bytes encryptedPass)))"

definition DeleteUser :: "('db, 'c) bolt_env \<Rightarrow> 'db \<Rightarrow> bytes \<Rightarrow> 'db \<times> unit outcome" where
  "DeleteUser env db user =
     (if Ldap_Enabled (Ldap (be_Config env)) then (db, Err ErrNotImplemented)
      else let B = be_Bolt env in
        db_Update B db (\<lambda>tx.
          if \<not> b_Bucket B tx usersBucket then Inl ErrNoBucket
          else b_Delete B tx usersBucket user))"

definition Users :: "('db, 'c) bolt_env \<Rightarrow> 'db \<Rightarrow> MetaUser list outcome" where
  "Users env db =
     (if Ldap_Enabled (Ldap (be_Config env)) then Err ErrNotImplemented
      else let B = be_Bolt env in
        if \<not> b_Bucket B db usersBucket then Err ErrNoBucket
        else Ok (map (\<lambda>(k, v). \<lparr>mu_Name = k, mu_Password = []\<rparr>) (b_ForEach B db usersBucket)))"

text \<open>
  The listings: \<^verbatim>\<open>ForEach\<close> stops at the first value that does not decode, and its error is
  dropped, so what was read before it is the result.
\<close>

fun decode_until :: "(blob option \<Rightarrow> 'a option) \<Rightarrow> (bytes \<times> blob) list \<Rightarrow> 'a list" where
  "decode_until dec [] = []"
| "decode_until dec ((k, v) # kvs) =
     (case dec (Some v) of None \<Rightarrow> [] | Some a \<Rightarrow> a # decode_until dec kvs)"

definition Objects :: "('db, 'c) bolt_env \<Rightarrow> 'db \<Rightarrow> MetaObject list outcome" where
  "Objects env db =
     (let B = be_Bolt env in
      if \<not> b_Bucket B db objectsBucket then Err ErrNoBucket
      else Ok (decode_until decode_object (b_ForEach B db objectsBucket)))"

definition Projects :: "('db, 'c) bolt_env \<Rightarrow> 'db \<Rightarrow> MetaProject list outcome" where
  "Projects env db =
     (let B = be_Bolt env in
      if \<not> b_Bucket B db projectsBucket then Err ErrNoBucket
      else Ok (decode_until decode_project (b_ForEach B db projectsBucket)))"

definition AddProject :: "'db \<Rightarrow> bytes \<Rightarrow> 'db \<times> unit outcome" where
  "AddProject db nm = (db, Err ErrMySQLNotImplemented)"

definition bolt_store :: "('db, 'c) bolt_env \<Rightarrow> 'db GenericMetaStore" where
  "bolt_store env =
     \<lparr>ms_Put = MetaStore_Put env, ms_Get = MetaStore_Get env, ms_DeleteUser = DeleteUser env,
      ms_AddUser = AddUser env, ms_AddProject = AddProject, ms_Users = Users env,
      ms_Objects = Objects env, ms_Projects = Projects env\<rparr>"

section \<open>Transactions under the laws\<close>

lemma bolt_put:
  "bolt_laws B \<Longrightarrow> b_Put B db bk k v = Inr db' \<Longrightarrow>
   b_Bucket B db' = b_Bucket B db \<and> k \<noteq> [] \<and>
   b_Get B db' = (b_Get B db)(bk := (b_Get B db bk)(k \<mapsto> v))"
  unfolding bolt_laws_def by metis

lemma bolt_delete:
  "bolt_laws B \<Longrightarrow> b_Delete B db bk k = Inr db' \<Longrightarrow>
   b_Bucket B db' = b_Bucket B db \<and>
   b_Get B db' = (b_Get B db)(bk := (b_Get B db bk)(k := None))"
  unfolding bolt_laws_def by blast

lemma bolt_create:
  "bolt_laws B \<Longrightarrow> b_CreateBucketIfNotExists B db bk = Inr db' \<Longrightarrow>
   b_Bucket B db' = (b_Bucket B db)(bk := True) \<and> b_Get B db' = b_Get B db"
  unfolding bolt_laws_def by blast

lemma bolt_errors:
  assumes "bolt_laws B"
  shows "b_Put B db bk k v = Inl e \<Longrightarrow> e \<noteq> AuthError" and "b_Commit B db = Some e \<Longrightarrow> e \<noteq> AuthError"
  using assms unfolding bolt_laws_def by blast+

lemma bolt_ForEach:
  assumes "bolt_laws B"
  shows "sorted (map fst (b_ForEach B db bk))" and "distinct (map fst (b_ForEach B db bk))"
    and "(k, v) \<in> set (b_ForEach B db bk) \<longleftrightarrow> b_Get B db bk k = Some v"
  using assms unfolding bolt_laws_def by blast+

text \<open>A transaction either took effect and committed or left the database alone.\<close>

lemma db_Update_cases:
  assumes "db_Update B db fn = (db', r)"
  obtains (committed) "fn db = Inr db'" "b_Commit B db' = None" "r = Ok ()"
    | (rolled_back) e where "db' = db" "r = Err e" "fn db = Inl e \<or> (\<exists>t. fn db = Inr t \<and> b_Commit B t = Some e)"
  using assms by (auto simp: db_Update_def split: sum.splits option.splits)

text \<open>Storing one value in a bucket that exists, as \<^verbatim>\<open>Put\<close>, \<^verbatim>\<open>createProject\<close> and \<^verbatim>\<open>AddUser\<close> do.\<close>

definition store_value :: "'db bolt_api \<Rightarrow> bytes \<Rightarrow> bytes \<Rightarrow> blob \<Rightarrow> 'db \<Rightarrow> GoError + 'db" where
  "store_value B bk k v tx = (if \<not> b_Bucket B tx bk then Inl ErrNoBucket else b_Put B tx bk k v)"

lemma store_value_cases:
  assumes laws: "bolt_laws B" and up: "db_Update B db (store_value B bk k v) = (db', r)"
  obtains (stored) "r = Ok ()" "b_Bucket B db bk" "k \<noteq> []" "b_Bucket B db' = b_Bucket B db"
      "b_Get B db' = (b_Get B db)(bk := (b_Get B db bk)(k \<mapsto> v))"
    | (failed) e where "r = Err e" "e \<noteq> AuthError" "db' = db"
  using up
proof (cases rule: db_Update_cases)
  case committed
  then show thesis
    using bolt_put [OF laws, of db bk k v db'] by (intro stored) (auto simp: store_value_def split: if_splits)
next
  case (rolled_back e)
  then have "e \<noteq> AuthError"
    by (auto simp: store_value_def split: if_splits dest: bolt_errors [OF laws])
  with rolled_back show thesis by (intro failed) simp_all
qed

lemma createProject_alt:
  "createProject B db rv =
     (if is_ok (findProject B db (rv_Repo rv)) \<or> rv_Repo rv = [] then (db, Ok ())
      else db_Update B db (store_value B projectsBucket (rv_Repo rv)
        (Gob_MetaProject \<lparr>mp_Name = rv_Repo rv, mp_Oids = [rv_Oid rv]\<rparr>)))"
  by (simp add: createProject_def store_value_def [abs_def])

lemma createProject_effect:
  assumes laws: "bolt_laws B" and cp: "createProject B db rv = (db1, r)"
  shows "b_Bucket B db1 = b_Bucket B db \<and> (\<forall>bk. bk \<noteq> projectsBucket \<longrightarrow> b_Get B db1 bk = b_Get B db bk) \<and>
    (r = Ok () \<or> db1 = db \<and> (\<exists>e. r = Err e \<and> e \<noteq> AuthError))"
proof (cases "is_ok (findProject B db (rv_Repo rv)) \<or> rv_Repo rv = []")
  case True
  with cp show ?thesis by (simp add: createProject_alt)
next
  case False
  then have up: "db_Update B db (store_value B projectsBucket (rv_Repo rv)
      (Gob_MetaProject \<lparr>mp_Name = rv_Repo rv, mp_Oids = [rv_Oid rv]\<rparr>)) = (db1, r)"
    using cp by (simp add: createProject_alt)
  show ?thesis by (cases rule: store_value_cases [OF laws up]) auto
qed

section \<open>The contract of the interface\<close>

definition bolt_objs :: "('db, 'c) bolt_env \<Rightarrow> 'db \<Rightarrow> bytes \<Rightarrow> MetaObject option" where
  "bolt_objs env db oid = decode_object (b_Get (be_Bolt env) db objectsBucket oid)"

text \<open>The objects bucket exists and holds, under each OID, an object of that OID.\<close>

definition bolt_inv :: "('db, 'c) bolt_env \<Rightarrow> 'db \<Rightarrow> bool" where
  "bolt_inv env db \<longleftrightarrow>
     bolt_laws (be_Bolt env) \<and> b_Bucket (be_Bolt env) db objectsBucket \<and>
     (\<forall>k v. b_Get (be_Bolt env) db objectsBucket k = Some v \<longrightarrow>
        (\<exists>m. v = Gob_MetaObject m \<and> mo_Oid m = k \<and> \<not> mo_Existing m))"

lemma bolt_objs_Some:
  "bolt_objs env db oid = Some m \<longleftrightarrow> b_Get (be_Bolt env) db objectsBucket oid = Some (Gob_MetaObject m)"
  by (auto simp: bolt_objs_def elim: decode_object_SomeE)

lemma bolt_inv_entry:
  "bolt_inv env db \<Longrightarrow> b_Get (be_Bolt env) db objectsBucket k = Some v \<Longrightarrow>
   \<exists>m. v = Gob_MetaObject m \<and> mo_Oid m = k \<and> \<not> mo_Existing m"
  by (simp add: bolt_inv_def)

lemma bolt_objs_None:
  assumes "bolt_inv env db"
  shows "bolt_objs env db oid = None \<longleftrightarrow> b_Get (be_Bolt env) db objectsBucket oid = None"
proof (cases "b_Get (be_Bolt env) db objectsBucket oid")
  case (Some v)
  then obtain m where "v = Gob_MetaObject m" using assms unfolding bolt_inv_def by blast
  with Some show ?thesis by (simp add: bolt_objs_def)
qed (simp add: bolt_objs_def)

lemma bolt_Get:
  assumes "bolt_inv env db" and "authenticate env db (rv_Authorization rv) = Ok True"
  shows "MetaStore_Get env db rv =
    (case bolt_objs env db (rv_Oid rv) of None \<Rightarrow> Err ErrObjectNotFound | Some m \<Rightarrow> Ok m)"
proof (cases "bolt_objs env db (rv_Oid rv)")
  case None
  then show ?thesis
    using assms bolt_objs_None [OF assms(1), of "rv_Oid rv"] by (simp add: MetaStore_Get_def bolt_inv_def Let_def)
next
  case (Some m)
  then show ?thesis
    using assms bolt_objs_Some [THEN iffD1, OF Some] by (simp add: MetaStore_Get_def bolt_inv_def Let_def)
qed

lemma authenticate_no_err: "authenticate env db a \<noteq> Err e"
  by (simp add: authenticate_def authenticateLdap_no_err Let_def split: option.splits)

lemma authenticate_cong:
  assumes "b_Bucket (be_Bolt env) db' = b_Bucket (be_Bolt env) db"
    and "b_Get (be_Bolt env) db' usersBucket = b_Get (be_Bolt env) db usersBucket"
  shows "authenticate env db' = authenticate env db"
  using assms by (intro ext) (simp add: authenticate_def Let_def split: option.splits prod.splits)

text \<open>The course of a \<^verbatim>\<open>Put\<close> that finds no entry.\<close>

lemma Put_new_cases:
  assumes inv: "bolt_inv env db" and auth: "authenticate env db (rv_Authorization rv) = Ok True"
    and new: "bolt_objs env db (rv_Oid rv) = None" and put: "MetaStore_Put env db rv = (db', r)"
  obtains (stored) "r = Ok (new_object rv)" "rv_Oid rv \<noteq> []"
      "b_Bucket (be_Bolt env) db' = b_Bucket (be_Bolt env) db"
      "b_Get (be_Bolt env) db' usersBucket = b_Get (be_Bolt env) db usersBucket"
      "b_Get (be_Bolt env) db' objectsBucket =
         (b_Get (be_Bolt env) db objectsBucket)(rv_Oid rv \<mapsto> Gob_MetaObject (new_object rv))"
    | (failed) e where "r = Err e" "e \<noteq> AuthError"
      "b_Bucket (be_Bolt env) db' = b_Bucket (be_Bolt env) db"
      "b_Get (be_Bolt env) db' usersBucket = b_Get (be_Bolt env) db usersBucket"
      "b_Get (be_Bolt env) db' objectsBucket = b_Get (be_Bolt env) db objectsBucket"
proof -
  let ?B = "be_Bolt env"
  have laws: "bolt_laws ?B" using inv by (simp add: bolt_inv_def)
  have get: "MetaStore_Get env db rv = Err ErrObjectNotFound" using bolt_Get [OF inv auth] new by simp
  obtain db1 created where cp:
    "(if rv_Repo rv \<noteq> [] then createProject ?B db rv else (db, Ok ())) = (db1, created)"
    by fastforce
  then have eff: "b_Bucket ?B db1 = b_Bucket ?B db" "b_Get ?B db1 usersBucket = b_Get ?B db usersBucket"
      "b_Get ?B db1 objectsBucket = b_Get ?B db objectsBucket"
      "created = Ok () \<or> (\<exists>e. created = Err e \<and> e \<noteq> AuthError)"
    using createProject_effect [OF laws, of db rv db1 created] by (auto split: if_splits)
  have tx: "(\<lambda>tx. if \<not> b_Bucket ?B tx objectsBucket then Inl ErrNoBucket
      else b_Put ?B tx objectsBucket (rv_Oid rv) (Gob_MetaObject (new_object rv))) =
      store_value ?B objectsBucket (rv_Oid rv) (Gob_MetaObject (new_object rv))"
    by (simp add: store_value_def [abs_def])
  show thesis
  proof (cases created)
    case (Ok u)
    obtain db2 r2 where up: "db_Update ?B db1
        (store_value ?B objectsBucket (rv_Oid rv) (Gob_MetaObject (new_object rv))) = (db2, r2)"
      by fastforce
    have res: "db' = db2" "r = (case r2 of Ok _ \<Rightarrow> Ok (new_object rv) | Err e \<Rightarrow> Err e | Panic e \<Rightarrow> Panic e)"
      using put auth get cp Ok up by (auto simp: MetaStore_Put_def Let_def tx split: outcome.splits)
    show thesis
    proof (cases rule: store_value_cases [OF laws up])
      case 1
      then show thesis using res eff by (intro stored) auto
    next
      case (2 e)
      then show thesis using res eff by (intro failed [of e]) auto
    qed
  next
    case (Err e)
    then show thesis using put auth get cp eff by (intro failed [of e]) (auto simp: MetaStore_Put_def Let_def)
  next
    case (Panic e)
    then show thesis using eff by simp
  qed
qed

lemma Put_found:
  assumes "bolt_inv env db" and "authenticate env db (rv_Authorization rv) = Ok True"
    and "bolt_objs env db (rv_Oid rv) = Some m"
  shows "MetaStore_Put env db rv = (db, Ok (m\<lparr>mo_Existing := True\<rparr>))"
  using assms by (simp add: MetaStore_Put_def bolt_Get)

text \<open>What every \<^verbatim>\<open>Put\<close> leaves of the database.\<close>

lemma Put_changes:
  assumes inv: "bolt_inv env db" and put: "MetaStore_Put env db rv = (db', r)"
  shows "db' = db \<or> authenticate env db (rv_Authorization rv) = Ok True \<and> bolt_objs env db (rv_Oid rv) = None"
proof (cases "authenticate env db (rv_Authorization rv)")
  case (Ok b)
  then show ?thesis
    using put Put_found [OF inv, of rv] by (cases b; cases "bolt_objs env db (rv_Oid rv)")
      (simp_all add: MetaStore_Put_def)
qed (use put in \<open>simp_all add: MetaStore_Put_def\<close>)

lemma Put_frame:
  assumes inv: "bolt_inv env db" and put: "MetaStore_Put env db rv = (db', r)"
  shows "b_Bucket (be_Bolt env) db' = b_Bucket (be_Bolt env) db"
    and "b_Get (be_Bolt env) db' usersBucket = b_Get (be_Bolt env) db usersBucket"
    and "b_Get (be_Bolt env) db' objectsBucket = b_Get (be_Bolt env) db objectsBucket \<or>
      r = Ok (new_object rv) \<and> b_Get (be_Bolt env) db' objectsBucket =
        (b_Get (be_Bolt env) db objectsBucket)(rv_Oid rv \<mapsto> Gob_MetaObject (new_object rv))"
proof -
  note Put_changes [OF inv put]
  moreover have "b_Bucket (be_Bolt env) db' = b_Bucket (be_Bolt env) db \<and>
      b_Get (be_Bolt env) db' usersBucket = b_Get (be_Bolt env) db usersBucket \<and>
      (b_Get (be_Bolt env) db' objectsBucket = b_Get (be_Bolt env) db objectsBucket \<or>
       r = Ok (new_object rv) \<and> b_Get (be_Bolt env) db' objectsBucket =
         (b_Get (be_Bolt env) db objectsBucket)(rv_Oid rv \<mapsto> Gob_MetaObject (new_object rv)))"
    if "authenticate env db (rv_Authorization rv) = Ok True" "bolt_objs env db (rv_Oid rv) = None"
    using put by (cases rule: Put_new_cases [OF inv that put]) simp_all
  ultimately show "b_Bucket (be_Bolt env) db' = b_Bucket (be_Bolt env) db"
    "b_Get (be_Bolt env) db' usersBucket = b_Get (be_Bolt env) db usersBucket"
    "b_Get (be_Bolt env) db' objectsBucket = b_Get (be_Bolt env) db objectsBucket \<or>
      r = Ok (new_object rv) \<and> b_Get (be_Bolt env) db' objectsBucket =
        (b_Get (be_Bolt env) db objectsBucket)(rv_Oid rv \<mapsto> Gob_MetaObject (new_object rv))"
    by blast+
qed

lemma bolt_objs_frame:
  "b_Get (be_Bolt env) db' objectsBucket = b_Get (be_Bolt env) db objectsBucket \<Longrightarrow>
   bolt_objs env db' = bolt_objs env db"
  by (intro ext) (simp add: bolt_objs_def)

lemma bolt_objs_stored:
  "b_Get (be_Bolt env) db' objectsBucket =
     (b_Get (be_Bolt env) db objectsBucket)(oid \<mapsto> Gob_MetaObject m) \<Longrightarrow>
   bolt_objs env db' = (bolt_objs env db)(oid \<mapsto> m)"
  by (intro ext) (simp add: bolt_objs_def)

lemma new_object_for: "entry_for rv (new_object rv)"
  by (simp add: entry_for_def new_object_def)

lemma Put_inv:
  assumes inv: "bolt_inv env db" and put: "MetaStore_Put env db rv = (db', r)"
  shows "bolt_inv env db'"
  using Put_frame(1,3) [OF inv put] inv
  by (auto simp: bolt_inv_def new_object_def split: if_splits)

lemma bolt_simps [simp, store_simps]:
  "ms_Put (bolt_store env) = MetaStore_Put env" "ms_Get (bolt_store env) = MetaStore_Get env"
  "ms_DeleteUser (bolt_store env) = DeleteUser env" "ms_AddUser (bolt_store env) = AddUser env"
  "ms_AddProject (bolt_store env) = AddProject" "ms_Users (bolt_store env) = Users env"
  "ms_Objects (bolt_store env) = Objects env" "ms_Projects (bolt_store env) = Projects env"
  by (simp_all add: bolt_store_def)

lemma bolt_objs_key:
  assumes "bolt_inv env db" and "bolt_objs env db oid = Some m"
  shows "mo_Oid m = oid \<and> \<not> mo_Existing m"
proof -
  have "\<exists>m'. Gob_MetaObject m = Gob_MetaObject m' \<and> mo_Oid m' = oid \<and> \<not> mo_Existing m'"
    using bolt_inv_entry [OF assms(1) bolt_objs_Some [THEN iffD1, OF assms(2)]] by simp
  then show ?thesis by simp
qed

interpretation bolt: atomic_meta_store "bolt_store env" "bolt_inv env" "authenticate env" "bolt_objs env"
  for env
proof (unfold_locales, unfold bolt_simps, goal_cases)
  case (1 s v m)
  then have auth: "authenticate env s (rv_Authorization v) = Ok True"
    by (auto simp: MetaStore_Get_def split: outcome.splits bool.splits)
  from bolt_Get [OF 1(1) this] 1(2) have some: "bolt_objs env s (rv_Oid v) = Some m" by (simp split: option.splits)
  with bolt_objs_key [OF 1(1)] auth show ?case by auto
next
  case (2 s v s' r)
  show ?case
    using Put_frame(3) [OF 2(1,2)] Put_changes [OF 2(1,2)] 2(3) bolt_objs_frame [of env s' s]
      bolt_objs_stored [of env s' s "rv_Oid v" "new_object v"] new_object_for [of v] by blast
next
  case (3 s v s' r)
  then show ?case by (rule Put_inv)
next
  case (4 s v s' r)
  then show ?case by (intro authenticate_cong Put_frame(1,2))
next
  case (5 s oid m)
  then show ?case by (rule bolt_objs_key)
next
  case (7 s a e)
  then show ?case by (rule authenticate_no_err)
next
  case (10 s v m)
  then show ?case by (simp add: bolt_Get)
next
  case (11 s v)
  then show ?case by (simp add: bolt_Get)
next
  case (14 s v m)
  then show ?case by (rule Put_found)
next
  case (15 s v s' m)
  show ?case
    using new_object_for [of v] by (cases rule: Put_new_cases [OF 15]) (auto dest: bolt_objs_stored)
next
  case (16 s v s' e)
  show ?case
  proof (cases "bolt_objs env s (rv_Oid v)")
    case None
    then show ?thesis by (cases rule: Put_new_cases [OF 16(1,2) None 16(3)]) (use 16(3) in auto)
  next
    case (Some m)
    with Put_found [OF 16(1,2) Some] 16(3) show ?thesis by simp
  qed
next
  case (17 s v s' r)
  then have "b_Get (be_Bolt env) s' objectsBucket = b_Get (be_Bolt env) s objectsBucket"
    using Put_frame(3) [OF 17(1,2)] by auto
  then show ?case by (rule bolt_objs_frame)
qed (simp_all add: MetaStore_Get_def MetaStore_Put_def)

section \<open>A database in memory\<close>

text \<open>
  One implementation of the parameters, for the witnesses: buckets as finite maps, and a
  hash that prefixes the password with a character.
\<close>

record mem_db =
  mem_buckets :: "bytes \<Rightarrow> bool"
  mem_values :: "bytes \<Rightarrow> (bytes, blob) fmap"

definition mem_bolt :: "mem_db bolt_api" where
  "mem_bolt =
     \<lparr>b_Bucket = mem_buckets,
      b_CreateBucketIfNotExists = (\<lambda>db bk. Inr (db\<lparr>mem_buckets := (mem_buckets db)(bk := True)\<rparr>)),
      b_Get = (\<lambda>db bk. fmlookup (mem_values db bk)),
      b_Put = (\<lambda>db bk k v. if k = [] then Inl (ErrExt ''key required'')
         else Inr (db\<lparr>mem_values := (mem_values db)(bk := fmupd k v (mem_values db bk))\<rparr>)),
      b_Delete = (\<lambda>db bk k. Inr (db\<lparr>mem_values := (mem_values db)(bk := fmdrop k (mem_values db bk))\<rparr>)),
      b_ForEach = (\<lambda>db bk. map (\<lambda>k. (k, the (fmlookup (mem_values db bk) k)))
         (sorted_list_of_fset (fmdom (mem_values db bk)))),
      b_Commit = (\<lambda>db. None)\<rparr>"

lemma mem_bolt_laws: "bolt_laws mem_bolt"
proof -
  have map_fst: "map fst (b_ForEach mem_bolt db bk) = sorted_list_of_fset (fmdom (mem_values db bk))" for db bk
    by (simp add: mem_bolt_def comp_def)
  have "(k, v) \<in> set (b_ForEach mem_bolt db bk) \<longleftrightarrow> b_Get mem_bolt db bk k = Some v" for db bk k v
    by (auto simp: mem_bolt_def image_iff fmlookup_dom_iff)
  then show ?thesis
    unfolding bolt_laws_def map_fst
    by (auto simp: mem_bolt_def fun_eq_iff sorted_list_of_fset.rep_eq split: if_splits)
qed

definition mem_bcrypt :: bcrypt_api where
  "mem_bcrypt =
     \<lparr>bc_Generate = (\<lambda>p c. Inr (CHR ''$'' # p)),
      bc_Compare = (\<lambda>h p. if h = CHR ''$'' # p then None else Some (ErrExt ''mismatch''))\<rparr>"

lemma mem_bcrypt_laws: "bcrypt_laws mem_bcrypt"
  by (simp add: bcrypt_laws_def mem_bcrypt_def)

definition mem_env :: "bool \<Rightarrow> (mem_db, unit) bolt_env" where
  "mem_env public =
     \<lparr>be_Config = (default_configuration 1)\<lparr>Public := public\<rparr>, be_Bolt = mem_bolt, be_Bcrypt = mem_bcrypt,
      be_Ldap = test_ldap\<rparr>"

definition mem_fresh :: mem_db where
  "mem_fresh = fst (db_Update mem_bolt \<lparr>mem_buckets = (\<lambda>_. False), mem_values = (\<lambda>_. fmempty)\<rparr> (create_buckets mem_bolt))"

lemma mem_env_simps [simp]:
  "be_Bolt (mem_env public) = mem_bolt" "be_Bcrypt (mem_env public) = mem_bcrypt"
  "IsPublic (be_Config (mem_env public)) = public" "\<not> Ldap_Enabled (Ldap (be_Config (mem_env public)))"
  by (simp_all add: mem_env_def IsPublic_def default_configuration_def default_ldap_def)

lemma mem_fresh_simps [simp]:
  "b_Bucket mem_bolt mem_fresh bk \<longleftrightarrow> bk \<in> {usersBucket, objectsBucket, projectsBucket}"
  "b_Get mem_bolt mem_fresh bk = Map.empty"
  by (auto simp: mem_fresh_def db_Update_def create_buckets_def mem_bolt_def)

lemma mem_fresh_inv: "bolt_inv (mem_env public) mem_fresh"
  using mem_bolt_laws by (simp add: bolt_inv_def)

lemma mem_authenticate: "authenticate (mem_env True) db a = Ok True"
  by (simp add: authenticate_def)

text \<open>The steps of a new \<^verbatim>\<open>Put\<close>, with its two transactions.\<close>

lemma Put_new_steps:
  assumes inv: "bolt_inv env db" and auth: "authenticate env db (rv_Authorization rv) = Ok True"
    and new: "bolt_objs env db (rv_Oid rv) = None"
  shows "MetaStore_Put env db rv =
    (case (if rv_Repo rv \<noteq> [] then createProject (be_Bolt env) db rv else (db, Ok ())) of
       (db1, Ok _) \<Rightarrow>
         (case db_Update (be_Bolt env) db1 (store_value (be_Bolt env) objectsBucket (rv_Oid rv)
                 (Gob_MetaObject (new_object rv))) of
            (db2, Ok _) \<Rightarrow> (db2, Ok (new_object rv))
          | (db2, Err e) \<Rightarrow> (db2, Err e)
          | (db2, Panic e) \<Rightarrow> (db2, Panic e))
     | (db1, Err e) \<Rightarrow> (db1, Err e)
     | (db1, Panic e) \<Rightarrow> (db1, Panic e))"
  using assms by (simp add: MetaStore_Put_def bolt_Get Let_def store_value_def [abs_def] split: prod.splits)

text \<open>
  Whether Bolt takes a pair: it fits and, if its bucket is there, the transaction commits.  A
  \<^verbatim>\<open>Put\<close> of an unknown object needs that of at most two pairs.
\<close>

definition can_store :: "'db bolt_api \<Rightarrow> bytes \<Rightarrow> bytes \<Rightarrow> blob \<Rightarrow> bool" where
  "can_store B bk k v \<longleftrightarrow>
     (\<forall>db. b_Bucket B db bk \<longrightarrow> (\<exists>db'. b_Put B db bk k v = Inr db' \<and> b_Commit B db' = None))"

definition can_put :: "('db, 'c) bolt_env \<Rightarrow> 'db \<Rightarrow> RequestVars \<Rightarrow> bool" where
  "can_put env db rv \<longleftrightarrow>
     b_Bucket (be_Bolt env) db projectsBucket \<and>
     can_store (be_Bolt env) objectsBucket (rv_Oid rv) (Gob_MetaObject (new_object rv)) \<and>
     (rv_Repo rv \<noteq> [] \<longrightarrow> can_store (be_Bolt env) projectsBucket (rv_Repo rv)
        (Gob_MetaProject \<lparr>mp_Name = rv_Repo rv, mp_Oids = [rv_Oid rv]\<rparr>))"

lemma can_store_update:
  assumes "bolt_laws B" and "can_store B bk k v" and "b_Bucket B db bk"
  shows "\<exists>db'. db_Update B db (store_value B bk k v) = (db', Ok ()) \<and> b_Bucket B db' = b_Bucket B db"
proof -
  obtain db' where "b_Put B db bk k v = Inr db'" "b_Commit B db' = None"
    using assms(2,3) unfolding can_store_def by blast
  then show ?thesis
    using bolt_put [OF assms(1)] assms(3) by (auto simp: db_Update_def store_value_def)
qed

lemma Put_taken:
  assumes inv: "bolt_inv env db" and auth: "authenticate env db (rv_Authorization rv) = Ok True"
    and new: "bolt_objs env db (rv_Oid rv) = None" and can: "can_put env db rv"
  shows "\<exists>db'. MetaStore_Put env db rv = (db', Ok (new_object rv))"
proof -
  let ?B = "be_Bolt env"
  have laws: "bolt_laws ?B" using inv by (simp add: bolt_inv_def)
  obtain db1 where cp: "(if rv_Repo rv \<noteq> [] then createProject ?B db rv else (db, Ok ())) = (db1, Ok ())"
      and bk: "b_Bucket ?B db1 = b_Bucket ?B db"
    using can_store_update [OF laws, of projectsBucket "rv_Repo rv"
        "Gob_MetaProject \<lparr>mp_Name = rv_Repo rv, mp_Oids = [rv_Oid rv]\<rparr>" db] can
    by (cases "rv_Repo rv = []"; cases "is_ok (findProject ?B db (rv_Repo rv))")
      (auto simp: createProject_alt can_put_def)
  have "b_Bucket ?B db1 objectsBucket" using bk inv by (simp add: bolt_inv_def)
  then obtain db2 where up: "db_Update ?B db1 (store_value ?B objectsBucket (rv_Oid rv)
      (Gob_MetaObject (new_object rv))) = (db2, Ok ())"
    using can_store_update [OF laws] can unfolding can_put_def by blast
  have "MetaStore_Put env db rv = (db2, Ok (new_object rv))"
    unfolding Put_new_steps [OF inv auth new] cp using up by simp
  then show ?thesis by blast
qed

lemma mem_can_store: "k \<noteq> [] \<Longrightarrow> can_store mem_bolt bk k v"
  by (simp add: can_store_def mem_bolt_def)

lemma mem_can_put:
  "b_Bucket mem_bolt db projectsBucket \<Longrightarrow> rv_Oid rv \<noteq> [] \<Longrightarrow> can_put (mem_env public) db rv"
  by (simp add: can_put_def mem_can_store)

lemma mem_store_value:
  "b_Bucket mem_bolt db bk \<Longrightarrow> k \<noteq> [] \<Longrightarrow>
   \<exists>db'. db_Update mem_bolt db (store_value mem_bolt bk k v) = (db', Ok ()) \<and>
     b_Bucket mem_bolt db' = b_Bucket mem_bolt db"
  by (rule can_store_update [OF mem_bolt_laws mem_can_store])

lemma mem_Put_ok:
  assumes "bolt_inv (mem_env True) db" and "b_Bucket mem_bolt db projectsBucket"
    and "bolt_objs (mem_env True) db (rv_Oid rv) = None" and "rv_Oid rv \<noteq> []"
  shows "\<exists>db'. MetaStore_Put (mem_env True) db rv = (db', Ok (new_object rv))"
  by (rule Put_taken [OF assms(1) mem_authenticate assms(3) mem_can_put [OF assms(2,4)]])

section \<open>Properties\<close>

text \<open>
  No \<^verbatim>\<open>Put\<close>, whoever makes it and however it ends, changes or removes an object of the
  store, and an object that appears was reported to its client as created, with the OID and
  size of the request; a \<^verbatim>\<open>Put\<close> that fails adds none.
\<close>

theorem put_only_adds_reported:
  assumes inv: "bolt_inv env db" and put: "MetaStore_Put env db rv = (db', r)"
  shows "bolt_inv env db' \<and>
    (\<forall>oid m. bolt_objs env db oid = Some m \<longrightarrow> bolt_objs env db' oid = Some m) \<and>
    (\<forall>oid m. bolt_objs env db oid = None \<longrightarrow> bolt_objs env db' oid = Some m \<longrightarrow>
       oid = rv_Oid rv \<and> (\<exists>m0. r = Ok m0 \<and> mo_Oid m0 = rv_Oid rv \<and> mo_Size m0 = rv_Size rv)) \<and>
    (\<not> is_ok r \<longrightarrow> bolt_objs env db' = bolt_objs env db)"
  using bolt.put_monotone [of env db rv db' r] bolt.new_entry_reported [of env db rv db' r]
    bolt.put_fail [of env db rv db' r] Put_inv [OF inv put] inv put
  unfolding entry_for_def bolt_simps by metis

lemma put_only_adds_reported_witness:
  "bolt_inv (mem_env True) (fst (MetaStore_Put (mem_env True) mem_fresh zero_vars))"
  using put_only_adds_reported [OF mem_fresh_inv, of True zero_vars]
  by (cases "MetaStore_Put (mem_env True) mem_fresh zero_vars") simp

lemma AddUser_alt:
  "AddUser env db user pass =
     (if Ldap_Enabled (Ldap (be_Config env)) then (db, Err ErrNotImplemented)
      else db_Update (be_Bolt env) db (\<lambda>tx.
        if \<not> b_Bucket (be_Bolt env) tx usersBucket then Inl ErrNoBucket
        else case bc_Generate (be_Bcrypt env) pass 10 of
            Inl e \<Rightarrow> Inl e
          | Inr h \<Rightarrow>
              if \<not> blob_empty (b_Get (be_Bolt env) tx usersBucket user) then Inr tx
              else b_Put (be_Bolt env) tx usersBucket user (Bytes h)))"
  unfolding AddUser_def encryptPass_def Let_def by (rule refl)

lemma AddUser_ok:
  assumes laws: "bolt_laws (be_Bolt env)" and add: "AddUser env db user pass = (db', Ok ())"
  obtains h where "bc_Generate (be_Bcrypt env) pass 10 = Inr h" "b_Bucket (be_Bolt env) db' = b_Bucket (be_Bolt env) db"
    "b_Bucket (be_Bolt env) db usersBucket" "\<not> Ldap_Enabled (Ldap (be_Config env))"
    "b_Get (be_Bolt env) db' usersBucket = (if blob_empty (b_Get (be_Bolt env) db usersBucket user)
       then (b_Get (be_Bolt env) db usersBucket)(user \<mapsto> Bytes h) else b_Get (be_Bolt env) db usersBucket)"
proof -
  let ?B = "be_Bolt env"
  have nl: "\<not> Ldap_Enabled (Ldap (be_Config env))" using add by (auto simp: AddUser_alt split: if_splits)
  note up = add [unfolded AddUser_alt, simplified nl if_False]
  from up show thesis
  proof (cases rule: db_Update_cases)
    case committed
    then have bk: "b_Bucket ?B db usersBucket" by (auto split: if_splits)
    then obtain h where h: "bc_Generate (be_Bcrypt env) pass 10 = Inr h"
      using committed(1) by (cases "bc_Generate (be_Bcrypt env) pass 10") auto
    show thesis
      using committed(1) bk h nl bolt_put [OF laws, of db usersBucket user "Bytes h" db']
      by (intro that [OF h]) (auto split: if_splits)
  qed simp
qed

lemma DeleteUser_ok:
  assumes laws: "bolt_laws (be_Bolt env)" and del: "DeleteUser env db user = (db', Ok ())"
  shows "b_Bucket (be_Bolt env) db' = b_Bucket (be_Bolt env) db"
    and "b_Get (be_Bolt env) db' usersBucket = (b_Get (be_Bolt env) db usersBucket)(user := None)"
    and "b_Get (be_Bolt env) db' objectsBucket = b_Get (be_Bolt env) db objectsBucket"
proof -
  let ?B = "be_Bolt env"
  have "\<not> Ldap_Enabled (Ldap (be_Config env))" using del by (auto simp: DeleteUser_def split: if_splits)
  then have up: "db_Update ?B db (\<lambda>tx. if \<not> b_Bucket ?B tx usersBucket then Inl ErrNoBucket
      else b_Delete ?B tx usersBucket user) = (db', Ok ())"
    using del by (simp add: DeleteUser_def Let_def)
  have "b_Delete ?B db usersBucket user = Inr db'"
    by (cases rule: db_Update_cases [OF up]) (auto split: if_splits)
  from bolt_delete [OF laws this]
  show "b_Bucket ?B db' = b_Bucket ?B db" "b_Get ?B db' usersBucket = (b_Get ?B db usersBucket)(user := None)"
    "b_Get ?B db' objectsBucket = b_Get ?B db objectsBucket"
    by simp_all
qed

text \<open>The account operations touch the users bucket alone.\<close>

lemma objects_untouched:
  assumes inv: "bolt_inv env db" and "b_Bucket (be_Bolt env) db' = b_Bucket (be_Bolt env) db"
    and "b_Get (be_Bolt env) db' objectsBucket = b_Get (be_Bolt env) db objectsBucket"
  shows "bolt_inv env db' \<and> bolt_objs env db' = bolt_objs env db"
  using bolt_objs_frame [of env db' db] assms by (auto simp: bolt_inv_def)

lemma AddUser_frame:
  assumes inv: "bolt_inv env db" and add: "AddUser env db user pass = (db', r)"
  shows "bolt_inv env db' \<and> bolt_objs env db' = bolt_objs env db"
proof -
  have laws: "bolt_laws (be_Bolt env)" using inv by (simp add: bolt_inv_def)
  show ?thesis
  proof (cases "db' = db")
    case False
    then have "\<not> Ldap_Enabled (Ldap (be_Config env))" using add by (auto simp: AddUser_alt)
    note up = add [unfolded AddUser_alt, simplified this if_False]
    from up show ?thesis
    proof (cases rule: db_Update_cases)
      case committed
      then obtain h where "b_Put (be_Bolt env) db usersBucket user (Bytes h) = Inr db'"
        using False by (auto split: if_splits sum.splits)
      from bolt_put [OF laws this] show ?thesis by (intro objects_untouched [OF inv]) simp_all
    qed (use False in simp)
  qed (use inv in simp)
qed

lemma DeleteUser_frame:
  assumes inv: "bolt_inv env db" and del: "DeleteUser env db user = (db', r)"
  shows "bolt_inv env db' \<and> bolt_objs env db' = bolt_objs env db"
proof -
  have laws: "bolt_laws (be_Bolt env)" using inv by (simp add: bolt_inv_def)
  show ?thesis
  proof (cases "r = Ok ()")
    case True
    then show ?thesis using DeleteUser_ok [OF laws, of db user db'] del by (intro objects_untouched [OF inv]) simp_all
  next
    case False
    then have "db' = db"
      using del by (auto simp: DeleteUser_def Let_def db_Update_def split: if_splits sum.splits option.splits)
    then show ?thesis using inv by simp
  qed
qed

text \<open>
  What the server does to the store while it runs: requests of the API put objects, the
  management pages add and delete users and add projects.
\<close>

datatype store_op = Op_Put RequestVars | Op_AddUser bytes bytes | Op_DeleteUser bytes | Op_AddProject bytes

fun do_op :: "('db, 'c) bolt_env \<Rightarrow> 'db \<Rightarrow> store_op \<Rightarrow> 'db" where
  "do_op env db (Op_Put rv) = fst (ms_Put (bolt_store env) db rv)"
| "do_op env db (Op_AddUser user pass) = fst (ms_AddUser (bolt_store env) db user pass)"
| "do_op env db (Op_DeleteUser user) = fst (ms_DeleteUser (bolt_store env) db user)"
| "do_op env db (Op_AddProject nm) = fst (ms_AddProject (bolt_store env) db nm)"

lemma do_op_keeps:
  assumes "bolt_inv env db"
  shows "bolt_inv env (do_op env db op) \<and> (\<forall>oid m. bolt_objs env db oid = Some m \<longrightarrow> bolt_objs env (do_op env db op) oid = Some m)"
proof (cases op)
  case (Op_Put rv)
  obtain db' r where "MetaStore_Put env db rv = (db', r)" by fastforce
  then show ?thesis
    using Op_Put Put_inv [OF assms] bolt.put_monotone [of env db rv db' r] assms by simp
next
  case (Op_AddUser user pass)
  obtain db' r where "AddUser env db user pass = (db', r)" by fastforce
  then show ?thesis using Op_AddUser AddUser_frame [OF assms] by simp
next
  case (Op_DeleteUser user)
  obtain db' r where "DeleteUser env db user = (db', r)" by fastforce
  then show ?thesis using Op_DeleteUser DeleteUser_frame [OF assms] by simp
qed (use assms in \<open>simp add: AddProject_def\<close>)

lemma do_ops_keep:
  assumes "bolt_inv env db"
  shows "bolt_inv env (foldl (do_op env) db ops) \<and>
    (\<forall>oid m. bolt_objs env db oid = Some m \<longrightarrow> bolt_objs env (foldl (do_op env) db ops) oid = Some m)"
  using assms
proof (induction ops arbitrary: db)
  case (Cons op ops)
  note step = do_op_keeps [OF Cons.prems, of op]
  then show ?case using Cons.IH [of "do_op env db op"] by simp
qed simp

text \<open>A \<^verbatim>\<open>Put\<close> that succeeds was authorised.\<close>

lemma Put_ok_authorised:
  "MetaStore_Put env db rv = (db', Ok m) \<Longrightarrow> authenticate env db (rv_Authorization rv) = Ok True"
  by (auto simp: MetaStore_Put_def split: outcome.splits bool.splits)

text \<open>
  C20: the first \<^verbatim>\<open>Put\<close> of an OID decides.  Whatever is done to the store after it, further
  puts of this or other OIDs and changes of the accounts, successful or not: every authorised
  \<^verbatim>\<open>Get\<close> of the OID yields the OID and the size of that first request, and every
  authorised \<^verbatim>\<open>Put\<close> of it returns the same entry marked as existing and leaves the database
  as it is, whatever size it announces.
\<close>

theorem first_put_decides:
  assumes inv: "bolt_inv env db" and new: "bolt_objs env db (rv_Oid rv) = None"
    and put: "MetaStore_Put env db rv = (db', Ok m)"
  shows "\<exists>m'. mo_Oid m' = rv_Oid rv \<and> mo_Size m' = rv_Size rv \<and>
    (\<forall>ops rv'. rv_Oid rv' = rv_Oid rv \<longrightarrow>
       authenticate env (foldl (do_op env) db' ops) (rv_Authorization rv') = Ok True \<longrightarrow>
       MetaStore_Get env (foldl (do_op env) db' ops) rv' = Ok m' \<and>
       MetaStore_Put env (foldl (do_op env) db' ops) rv' =
         (foldl (do_op env) db' ops, Ok (m'\<lparr>mo_Existing := True\<rparr>)))"
proof -
  note auth = Put_ok_authorised [OF put]
  have inv': "bolt_inv env db'" by (rule Put_inv [OF inv put])
  obtain m' where m': "bolt_objs env db' (rv_Oid rv) = Some m'" "mo_Oid m' = rv_Oid rv" "mo_Size m' = rv_Size rv"
    using bolt.put_new [OF inv auth new] put by (auto simp: entry_for_def)
  have "MetaStore_Get env (foldl (do_op env) db' ops) rv' = Ok m' \<and>
      MetaStore_Put env (foldl (do_op env) db' ops) rv' =
        (foldl (do_op env) db' ops, Ok (m'\<lparr>mo_Existing := True\<rparr>))"
    if "rv_Oid rv' = rv_Oid rv"
      "authenticate env (foldl (do_op env) db' ops) (rv_Authorization rv') = Ok True" for ops rv'
    using do_ops_keep [OF inv', of ops] m'(1) that
    by (simp add: bolt_Get Put_found)
  with m' show ?thesis by blast
qed

lemma first_put_decides_witness:
  "\<exists>db m m'. MetaStore_Put (mem_env True) mem_fresh (zero_vars\<lparr>rv_Oid := ''a'', rv_Size := 7\<rparr>) = (db, Ok m) \<and>
     MetaStore_Get (mem_env True)
       (foldl (do_op (mem_env True)) db
          [Op_Put (zero_vars\<lparr>rv_Oid := ''b'', rv_Size := 1\<rparr>), Op_AddUser ''bilbo'' ''ring'',
           Op_Put (zero_vars\<lparr>rv_Oid := ''a'', rv_Size := 9\<rparr>)])
       (zero_vars\<lparr>rv_Oid := ''a''\<rparr>) = Ok m' \<and> mo_Size m' = 7"
proof -
  let ?rv = "zero_vars\<lparr>rv_Oid := ''a'', rv_Size := 7\<rparr>"
  have none: "bolt_objs (mem_env True) mem_fresh (rv_Oid ?rv) = None" by (simp add: bolt_objs_def)
  obtain db where put: "MetaStore_Put (mem_env True) mem_fresh ?rv = (db, Ok (new_object ?rv))"
    using mem_Put_ok [OF mem_fresh_inv _ none] by auto
  from first_put_decides [OF mem_fresh_inv none put] obtain m' where size: "mo_Size m' = 7"
    and get: "\<And>ops rv'. rv_Oid rv' = ''a'' \<Longrightarrow>
       MetaStore_Get (mem_env True) (foldl (do_op (mem_env True)) db ops) rv' = Ok m'"
    using mem_authenticate by auto
  have "rv_Oid (zero_vars\<lparr>rv_Oid := ''a''\<rparr>) = ''a''" by simp
  from get [OF this] put size show ?thesis by blast
qed

interpretation bolt_managed: managed_meta_store "bolt_store env" "bolt_inv env" "authenticate env" "bolt_objs env"
  for env
proof (unfold_locales, goal_cases)
  case (1 s u p s' r)
  then show ?case using AddUser_frame by simp
next
  case (2 s u s' r)
  then show ?case using DeleteUser_frame by simp
next
  case (3 s n s' r)
  then show ?case by (simp add: AddProject_def)
qed

lemma authenticate_users:
  assumes "\<not> IsPublic (be_Config env)" and "\<not> Ldap_Enabled (Ldap (be_Config env))"
    and "b_Bucket (be_Bolt env) db usersBucket" and "CHR '':'' \<notin> set user"
  shows "authenticate env db (basic_header url_alphabet user password) =
    Ok (bc_Compare (be_Bcrypt env) (blob_string (b_Get (be_Bolt env) db usersBucket user)) password = None)"
  using assms by (simp add: authenticate_def basic_credentials_header checkPass_def Let_def)

lemma AddUser_failed:
  assumes "AddUser env db user pass = (db', r)"
  shows "r = Err e \<Longrightarrow> db' = db" and "r \<noteq> Panic e"
  using assms by (auto simp: AddUser_alt db_Update_def split: if_splits sum.splits option.splits)

lemma new_user_logs_in:
  assumes laws: "bolt_laws (be_Bolt env)" "bcrypt_laws (be_Bcrypt env)"
    and closed: "\<not> IsPublic (be_Config env)" and colon: "CHR '':'' \<notin> set user"
    and new: "b_Get (be_Bolt env) db usersBucket user = None"
    and add: "AddUser env db user pass = (db', Ok ())"
  shows "authenticate env db' (basic_header url_alphabet user pass) = Ok True"
proof -
  obtain h where h: "bc_Generate (be_Bcrypt env) pass 10 = Inr h" "b_Bucket (be_Bolt env) db' = b_Bucket (be_Bolt env) db"
      "b_Bucket (be_Bolt env) db usersBucket" "\<not> Ldap_Enabled (Ldap (be_Config env))"
    and g: "b_Get (be_Bolt env) db' usersBucket user = Some (Bytes h)"
    using AddUser_ok [OF laws(1) add] new by (metis blob_empty.simps(1) fun_upd_same)
  have "bc_Compare (be_Bcrypt env) h pass = None" using laws(2) h(1) unfolding bcrypt_laws_def by blast
  then show ?thesis using authenticate_users [OF closed h(4), of db' user pass] h(2,3) g colon by simp
qed

text \<open>
  C24: accounts.  A user that is added can log in with the password given; adding the name
  again succeeds and changes nothing, so the old password stays in force; a user that is
  deleted cannot log in with any password.
\<close>

theorem account_life:
  assumes laws: "bolt_laws (be_Bolt env)" "bcrypt_laws (be_Bcrypt env)"
    and closed: "\<not> IsPublic (be_Config env)" and colon: "CHR '':'' \<notin> set user"
    and new: "b_Get (be_Bolt env) db usersBucket user = None"
    and add: "AddUser env db user pass = (db1, Ok ())"
    and again: "AddUser env db1 user pass2 = (db2, Ok ())"
    and del: "DeleteUser env db2 user = (db3, Ok ())"
  shows "authenticate env db1 (basic_header url_alphabet user pass) = Ok True \<and>
    authenticate env db2 (basic_header url_alphabet user pass) = Ok True \<and>
    (\<forall>password. authenticate env db3 (basic_header url_alphabet user password) = Ok False)"
proof -
  let ?B = "be_Bolt env" and ?H = "be_Bcrypt env"
  obtain h where h: "bc_Generate ?H pass 10 = Inr h" "b_Bucket ?B db1 = b_Bucket ?B db"
      "b_Bucket ?B db usersBucket" "\<not> Ldap_Enabled (Ldap (be_Config env))"
    and g1: "b_Get ?B db1 usersBucket user = Some (Bytes h)"
    using AddUser_ok [OF laws(1) add] new by (metis blob_empty.simps(1) fun_upd_same)
  have hash: "h \<noteq> []" "bc_Compare ?H h pass = None" "\<And>p. bc_Compare ?H [] p \<noteq> None"
    using laws(2) h(1) unfolding bcrypt_laws_def by blast+
  obtain h2 where s2: "b_Bucket ?B db2 = b_Bucket ?B db1" and g2: "b_Get ?B db2 usersBucket user = Some (Bytes h)"
    using AddUser_ok [OF laws(1) again] g1 hash(1) by (metis blob_empty.simps(2))
  note d = DeleteUser_ok [OF laws(1) del]
  show ?thesis
    using authenticate_users [OF closed h(4), of db1 user] authenticate_users [OF closed h(4), of db2 user]
      authenticate_users [OF closed h(4), of db3 user] h(2,3) s2 d g1 g2 hash colon by simp
qed

lemma account_life_witness:
  "\<exists>db1 db2 db3. AddUser (mem_env False) mem_fresh ''bilbo'' ''ring'' = (db1, Ok ()) \<and>
     AddUser (mem_env False) db1 ''bilbo'' ''other'' = (db2, Ok ()) \<and>
     DeleteUser (mem_env False) db2 ''bilbo'' = (db3, Ok ()) \<and>
     authenticate (mem_env False) db2 (basic_header url_alphabet ''bilbo'' ''ring'') = Ok True"
proof -
  obtain db1 r1 where a1: "AddUser (mem_env False) mem_fresh ''bilbo'' ''ring'' = (db1, r1)" by fastforce
  obtain db2 r2 where a2: "AddUser (mem_env False) db1 ''bilbo'' ''other'' = (db2, r2)" by fastforce
  obtain db3 r3 where a3: "DeleteUser (mem_env False) db2 ''bilbo'' = (db3, r3)" by fastforce
  have step: "b_Bucket mem_bolt db usersBucket \<Longrightarrow> AddUser (mem_env False) db ''bilbo'' p = (db', r) \<Longrightarrow>
      r = Ok () \<and> b_Bucket mem_bolt db' usersBucket" for db db' r p
    by (auto simp: AddUser_alt db_Update_def mem_bcrypt_def split: if_splits) (auto simp: mem_bolt_def)
  have r1: "r1 = Ok ()" "b_Bucket mem_bolt db1 usersBucket" using step [OF _ a1] by simp_all
  then have r2: "r2 = Ok ()" "b_Bucket mem_bolt db2 usersBucket" using step [OF _ a2] by simp_all
  then have "r3 = Ok ()"
    using a3 by (auto simp: DeleteUser_def Let_def db_Update_def) (auto simp: mem_bolt_def)
  with account_life [of "mem_env False" "''bilbo''" mem_fresh "''ring''" db1 "''other''" db2 db3]
  show ?thesis using mem_bolt_laws mem_bcrypt_laws a1 a2 a3 r1 r2 by simp
qed

text \<open>
  C36: clients whose credentials contain the wrong bytes can never log in.  \<^verbatim>\<open>Authorization\<close>
  carries standard Base64, but the code decodes it with the URL alphabet.  So a user whose name
  and password encode with a plus or a slash is refused although name and password are
  right; encoded with the URL alphabet, as no standard client does, the same pair is accepted.
\<close>

theorem standard_base64_login_refused:
  assumes mode: "\<not> IsPublic (be_Config env)" "\<not> Ldap_Enabled (Ldap (be_Config env))"
    and user: "b_Bucket (be_Bolt env) db usersBucket" "CHR '':'' \<notin> set user"
    and right: "bc_Compare (be_Bcrypt env) (blob_string (b_Get (be_Bolt env) db usersBucket user)) password = None"
    and bytes: "CHR ''+'' \<in> set (EncodeToString std_alphabet (user @ CHR '':'' # password)) \<or>
      CHR ''/'' \<in> set (EncodeToString std_alphabet (user @ CHR '':'' # password))"
  shows "authenticate env db (basic_header std_alphabet user password) = Ok False \<and>
    authenticate env db (basic_header url_alphabet user password) = Ok True"
proof
  show "authenticate env db (basic_header std_alphabet user password) = Ok False"
    using standard_credentials_rejected [OF user(2) bytes] mode(1) by (simp add: authenticate_def)
  show "authenticate env db (basic_header url_alphabet user password) = Ok True"
    using authenticate_users [OF mode user] right by simp
qed

text \<open>The user \<^verbatim>\<open>a\<close> with the password \<^verbatim>\<open>?\<close>, just added.\<close>

lemma standard_base64_login_refused_witness:
  "\<exists>db. AddUser (mem_env False) mem_fresh ''a'' ''?'' = (db, Ok ()) \<and>
     authenticate (mem_env False) db (basic_header std_alphabet ''a'' ''?'') = Ok False"
proof -
  obtain db where put: "b_Put mem_bolt mem_fresh usersBucket ''a'' (Bytes ''$?'') = Inr db"
    by (simp add: mem_bolt_def)
  note eff = bolt_put [OF mem_bolt_laws put]
  have "b_Commit mem_bolt db = None" by (simp add: mem_bolt_def)
  then have add: "AddUser (mem_env False) mem_fresh ''a'' ''?'' = (db, Ok ())"
    using put by (simp add: AddUser_alt db_Update_def mem_bcrypt_def)
  have "EncodeToString std_alphabet ''a:?'' = ''YTo/''"
    by (simp add: b64_char_def std_alphabet_def) (simp add: char_of_def bit_Suc_0_iff)
  then have "CHR ''/'' \<in> set (EncodeToString std_alphabet (''a'' @ CHR '':'' # ''?''))" by simp
  with standard_base64_login_refused [of "mem_env False" db "''a''" "''?''"] eff add
  show ?thesis by (simp add: mem_bcrypt_def)
qed

lemma findProject_found:
  "b_Bucket B db projectsBucket \<Longrightarrow> b_Get B db projectsBucket nm = Some (Gob_MetaProject p) \<Longrightarrow>
   mp_Name p \<noteq> [] \<Longrightarrow> findProject B db nm = Ok p"
  by (simp add: findProject_def Let_def)

lemma findProject_cong:
  "b_Bucket B db' = b_Bucket B db \<Longrightarrow> b_Get B db' projectsBucket = b_Get B db projectsBucket \<Longrightarrow>
   findProject B db' nm = findProject B db nm"
  by (simp add: findProject_def Let_def)

lemma store_object_projects:
  assumes "bolt_laws B" and "db_Update B db (store_value B objectsBucket k v) = (db', r)"
  shows "findProject B db' nm = findProject B db nm"
  by (cases rule: store_value_cases [OF assms]) (auto intro: findProject_cong)

text \<open>
  The OIDs of a project.  Once a project exists no \<^verbatim>\<open>Put\<close> touches it: it keeps listing
  the one OID of the request that created it, whatever is stored under its name later.
\<close>

theorem project_lists_first_oid:
  assumes inv: "bolt_inv env db" and found: "findProject (be_Bolt env) db nm = Ok p"
    and put: "MetaStore_Put env db rv = (db', r)"
  shows "findProject (be_Bolt env) db' nm = Ok p"
proof -
  let ?B = "be_Bolt env"
  have laws: "bolt_laws ?B" using inv by (simp add: bolt_inv_def)
  have create: "findProject ?B db1 nm = Ok p"
    if "(if rv_Repo rv \<noteq> [] then createProject ?B db rv else (db, Ok ())) = (db1, c)" for db1 c
  proof (cases "rv_Repo rv = [] \<or> is_ok (findProject ?B db (rv_Repo rv))")
    case False
    then have up: "db_Update ?B db (store_value ?B projectsBucket (rv_Repo rv)
        (Gob_MetaProject \<lparr>mp_Name = rv_Repo rv, mp_Oids = [rv_Oid rv]\<rparr>)) = (db1, c)"
      using that by (simp add: createProject_alt)
    have "nm \<noteq> rv_Repo rv" using False found by auto
    with found show ?thesis by (cases rule: store_value_cases [OF laws up]) (auto simp: findProject_def Let_def)
  qed (use that found in \<open>auto simp: createProject_alt split: if_splits\<close>)
  show ?thesis
  proof (cases "authenticate env db (rv_Authorization rv) = Ok True \<and> bolt_objs env db (rv_Oid rv) = None")
    case True
    obtain db1 c where cp: "(if rv_Repo rv \<noteq> [] then createProject ?B db rv else (db, Ok ())) = (db1, c)"
      by fastforce
    obtain db2 r2 where up: "db_Update ?B db1 (store_value ?B objectsBucket (rv_Oid rv)
        (Gob_MetaObject (new_object rv))) = (db2, r2)" by fastforce
    have "db' = db1 \<or> db' = db2"
      using put Put_new_steps [OF inv] True cp up by (auto split: outcome.splits)
    then show ?thesis using create [OF cp] store_object_projects [OF laws up] by metis
  next
    case False
    then have "db' = db"
    proof (cases "authenticate env db (rv_Authorization rv)")
      case (Ok b)
      with False put Put_found [OF inv, of rv] show ?thesis
        by (cases b; cases "bolt_objs env db (rv_Oid rv)") (simp_all add: MetaStore_Put_def)
    qed (use put in \<open>simp_all add: MetaStore_Put_def\<close>)
    then show ?thesis using found by simp
  qed
qed

lemma project_lists_first_oid_witness:
  "\<exists>db db' r. findProject mem_bolt db ''repo'' = Ok \<lparr>mp_Name = ''repo'', mp_Oids = [''a'']\<rparr> \<and>
     MetaStore_Put (mem_env True) db (zero_vars\<lparr>rv_Oid := ''b'', rv_Repo := ''repo''\<rparr>) = (db', r) \<and>
     findProject mem_bolt db' ''repo'' = Ok \<lparr>mp_Name = ''repo'', mp_Oids = [''a'']\<rparr>"
proof -
  let ?p = "\<lparr>mp_Name = ''repo'', mp_Oids = [''a'']\<rparr>"
  obtain db where put: "b_Put mem_bolt mem_fresh projectsBucket ''repo'' (Gob_MetaProject ?p) = Inr db"
    by (simp add: mem_bolt_def)
  note eff = bolt_put [OF mem_bolt_laws put]
  have "bolt_inv (mem_env True) db"
    using mem_fresh_inv [of True] eff by (simp add: bolt_inv_def)
  moreover have "findProject mem_bolt db ''repo'' = Ok ?p"
    using eff by (intro findProject_found) simp_all
  ultimately show ?thesis
    using project_lists_first_oid [of "mem_env True" db "''repo''" ?p
        "zero_vars\<lparr>rv_Oid := ''b'', rv_Repo := ''repo''\<rparr>"]
    by (cases "MetaStore_Put (mem_env True) db (zero_vars\<lparr>rv_Oid := ''b'', rv_Repo := ''repo''\<rparr>)") auto
qed

text \<open>
  A \<^verbatim>\<open>Put\<close> is two transactions, the project first.  A request without an OID, which Bolt
  refuses to store, is answered with an error and leaves a project behind that lists the
  empty OID.
\<close>

theorem failed_put_leaves_project:
  assumes inv: "bolt_inv env db" and auth: "authenticate env db (rv_Authorization rv) = Ok True"
    and oid: "rv_Oid rv = []" "bolt_objs env db [] = None" and repo: "rv_Repo rv \<noteq> []"
    and free: "\<not> is_ok (findProject (be_Bolt env) db (rv_Repo rv))"
    and stored: "b_Bucket (be_Bolt env) db projectsBucket"
      "b_Put (be_Bolt env) db projectsBucket (rv_Repo rv)
         (Gob_MetaProject \<lparr>mp_Name = rv_Repo rv, mp_Oids = [[]]\<rparr>) = Inr db1" "b_Commit (be_Bolt env) db1 = None"
  shows "\<exists>e. MetaStore_Put env db rv = (db1, Err e) \<and> bolt_objs env db1 = bolt_objs env db \<and>
    findProject (be_Bolt env) db1 (rv_Repo rv) = Ok \<lparr>mp_Name = rv_Repo rv, mp_Oids = [[]]\<rparr>"
proof -
  let ?B = "be_Bolt env"
  have laws: "bolt_laws ?B" using inv by (simp add: bolt_inv_def)
  note eff = bolt_put [OF laws stored(2)]
  have cp: "createProject ?B db rv = (db1, Ok ())"
    using free repo stored oid by (simp add: createProject_alt db_Update_def store_value_def)
  have fail: "\<exists>e. db_Update ?B db1 (store_value ?B objectsBucket [] v) = (db1, Err e)" for v
  proof -
    obtain d r where up: "db_Update ?B db1 (store_value ?B objectsBucket [] v) = (d, r)" by fastforce
    then show ?thesis by (cases rule: store_value_cases [OF laws up]) auto
  qed
  obtain e where "db_Update ?B db1 (store_value ?B objectsBucket [] (Gob_MetaObject (new_object rv))) = (db1, Err e)"
    using fail by blast
  then have "MetaStore_Put env db rv = (db1, Err e)"
    using Put_new_steps [OF inv auth] oid repo cp by simp
  moreover have "bolt_objs env db1 = bolt_objs env db" by (rule bolt_objs_frame) (simp add: eff)
  moreover have "findProject ?B db1 (rv_Repo rv) = Ok \<lparr>mp_Name = rv_Repo rv, mp_Oids = [[]]\<rparr>"
    using eff stored(1) repo by (intro findProject_found) simp_all
  ultimately show ?thesis by blast
qed

lemma failed_put_leaves_project_witness:
  "\<exists>db1 e. MetaStore_Put (mem_env True) mem_fresh (zero_vars\<lparr>rv_Repo := ''repo''\<rparr>) = (db1, Err e) \<and>
     findProject mem_bolt db1 ''repo'' = Ok \<lparr>mp_Name = ''repo'', mp_Oids = [[]]\<rparr>"
proof -
  obtain db1 where put: "b_Put mem_bolt mem_fresh projectsBucket ''repo''
      (Gob_MetaProject \<lparr>mp_Name = ''repo'', mp_Oids = [[]]\<rparr>) = Inr db1"
    by (simp add: mem_bolt_def)
  have "b_Commit mem_bolt db1 = None" by (simp add: mem_bolt_def)
  moreover have "\<not> is_ok (findProject mem_bolt mem_fresh ''repo'')" by (simp add: findProject_def)
  ultimately show ?thesis
    using failed_put_leaves_project [OF mem_fresh_inv mem_authenticate, of "zero_vars\<lparr>rv_Repo := ''repo''\<rparr>" db1] put
    by (auto simp: zero_vars_def bolt_objs_def)
qed

text \<open>
  C34: the listings.  Users come in byte order, each once, without passwords, and are exactly
  the names that have an entry; objects come in the order of their OIDs, each once, and are
  exactly the objects of the store.
\<close>

theorem listings_complete:
  assumes inv: "bolt_inv env db"
  shows "(Users env db = Ok us \<longrightarrow>
      sorted_wrt (<) (map mu_Name us) \<and> (\<forall>u \<in> set us. mu_Password u = []) \<and>
      mu_Name ` set us = dom (b_Get (be_Bolt env) db usersBucket)) \<and>
    (\<exists>ms. Objects env db = Ok ms \<and> sorted_wrt (<) (map mo_Oid ms) \<and> set ms = ran (bolt_objs env db))"
proof -
  let ?B = "be_Bolt env"
  have laws: "bolt_laws ?B" using inv by (simp add: bolt_inv_def)
  note fe = bolt_ForEach [OF laws]
  have strict: "sorted_wrt (<) (map fst (b_ForEach ?B db bk))" for bk
    by (rule sorted_distinct_strict [OF fe(1,2)])
  have users: "sorted_wrt (<) (map mu_Name us) \<and> (\<forall>u \<in> set us. mu_Password u = []) \<and>
      mu_Name ` set us = dom (b_Get ?B db usersBucket)" if "Users env db = Ok us"
  proof -
    have us: "us = map (\<lambda>(k, v). \<lparr>mu_Name = k, mu_Password = []\<rparr>) (b_ForEach ?B db usersBucket)"
      using that by (auto simp: Users_def Let_def split: if_splits)
    have names: "map mu_Name us = map fst (b_ForEach ?B db usersBucket)" unfolding us by auto
    have pw: "\<forall>u \<in> set us. mu_Password u = []" unfolding us by auto
    have dom: "set (map fst (b_ForEach ?B db usersBucket)) = dom (b_Get ?B db usersBucket)"
      using fe(3) by force
    have "mu_Name ` set us = dom (b_Get ?B db usersBucket)"
      unfolding set_map [symmetric] names by (rule dom)
    then show ?thesis using strict [of usersBucket] names pw by simp
  qed
  have decode: "\<forall>(k, v) \<in> set kvs. decode_object (Some v) \<noteq> None \<Longrightarrow>
      decode_until decode_object kvs = map (\<lambda>(k, v). the (decode_object (Some v))) kvs" for kvs :: "(bytes \<times> blob) list"
    by (induction kvs) auto
  let ?kvs = "b_ForEach ?B db objectsBucket"
  have each: "\<exists>m. v = Gob_MetaObject m \<and> mo_Oid m = k" if "(k, v) \<in> set ?kvs" for k v
    using that fe(3) bolt_inv_entry [OF inv] by metis
  have obj: "Objects env db = Ok (map (\<lambda>(k, v). the (decode_object (Some v))) ?kvs)"
    using inv decode [of ?kvs] each by (fastforce simp: Objects_def Let_def bolt_inv_def)
  have "map mo_Oid (map (\<lambda>(k, v). the (decode_object (Some v))) ?kvs) = map fst ?kvs"
    using each by fastforce
  moreover have "m \<in> set (map (\<lambda>(k, v). the (decode_object (Some v))) ?kvs) \<longleftrightarrow> m \<in> ran (bolt_objs env db)" for m
  proof -
    have "m \<in> ran (bolt_objs env db) \<longleftrightarrow> (\<exists>k. (k, Gob_MetaObject m) \<in> set ?kvs)"
      by (auto simp: ran_def bolt_objs_Some fe(3))
    also have "\<dots> \<longleftrightarrow> (\<exists>k v. (k, v) \<in> set ?kvs \<and> the (decode_object (Some v)) = m)"
      using each by (metis decode_object.simps(1) option.sel)
    also have "\<dots> \<longleftrightarrow> m \<in> set (map (\<lambda>(k, v). the (decode_object (Some v))) ?kvs)" by force
    finally show ?thesis by simp
  qed
  ultimately show ?thesis using users obj strict [of objectsBucket] by (metis subsetI subset_antisym)
qed

lemma listings_complete_witness: "Objects (mem_env True) mem_fresh = Ok []"
proof -
  obtain ms where "Objects (mem_env True) mem_fresh = Ok ms" "set ms = ran (bolt_objs (mem_env True) mem_fresh)"
    using listings_complete [OF mem_fresh_inv, of True] by blast
  moreover have "bolt_objs (mem_env True) mem_fresh = Map.empty" by (intro ext) (simp add: bolt_objs_def)
  ultimately show ?thesis by simp
qed

end
