(* ===== verification/Bolt_Types.thy ===== *)
theory Bolt_Types
  imports Bolt_Store
begin

text \<open>
  The types of the values in the three buckets.  \<^verbatim>\<open>meta_store.go\<close> stores passwords as they are
  and objects and projects as gob, in buckets that have no types; that every value decodes as
  what its bucket is read as is an invariant of the operations.
\<close>

fun bucket_type :: "bytes \<Rightarrow> bytes \<Rightarrow> blob \<Rightarrow> bool" where
  "bucket_type bk k (Bytes h) \<longleftrightarrow> bk \<noteq> objectsBucket \<and> bk \<noteq> projectsBucket"
| "bucket_type bk k (Gob_MetaObject m) \<longleftrightarrow>
     bk \<noteq> usersBucket \<and> bk \<noteq> projectsBucket \<and> mo_Oid m = k \<and> \<not> mo_Existing m"
| "bucket_type bk k (Gob_MetaProject p) \<longleftrightarrow>
     bk \<noteq> usersBucket \<and> bk \<noteq> objectsBucket \<and> mp_Name p = k \<and> length (mp_Oids p) = 1"

definition well_typed :: "'db bolt_api \<Rightarrow> 'db \<Rightarrow> bool" where
  "well_typed B db \<longleftrightarrow> (\<forall>bk k v. b_Get B db bk k = Some v \<longrightarrow> bucket_type bk k v)"

lemma bucket_names_distinct [simp]:
  "usersBucket \<noteq> objectsBucket" "usersBucket \<noteq> projectsBucket" "objectsBucket \<noteq> projectsBucket"
  "objectsBucket \<noteq> usersBucket" "projectsBucket \<noteq> usersBucket" "projectsBucket \<noteq> objectsBucket"
  by (simp_all add: usersBucket_def objectsBucket_def projectsBucket_def)

lemma typed_put:
  assumes "bolt_laws B" and "well_typed B db" and "bucket_type bk k v" and "b_Put B db bk k v = Inr db'"
  shows "well_typed B db'"
  using bolt_put [OF assms(1,4)] assms(2,3) by (auto simp: well_typed_def)

lemma typed_update:
  assumes "well_typed B db" and "\<And>t. fn db = Inr t \<Longrightarrow> well_typed B t"
  shows "well_typed B (fst (db_Update B db fn))"
  using assms by (simp add: db_Update_def split: sum.splits option.splits)

lemma typed_store:
  assumes "bolt_laws B" and "well_typed B db" and "bucket_type bk k v"
  shows "well_typed B (fst (db_Update B db (store_value B bk k v)))"
  using typed_put [OF assms] by (intro typed_update assms(2)) (auto simp: store_value_def split: if_splits)

lemma typed_createProject:
  assumes "bolt_laws B" and "well_typed B db"
  shows "well_typed B (fst (createProject B db rv))"
  using typed_store [OF assms, of projectsBucket "rv_Repo rv"] assms(2) by (simp add: createProject_alt)

lemma typed_Put:
  assumes laws: "bolt_laws (be_Bolt env)" and typed: "well_typed (be_Bolt env) db"
  shows "well_typed (be_Bolt env) (fst (MetaStore_Put env db rv))"
proof -
  let ?B = "be_Bolt env"
  have tx: "(\<lambda>tx. if \<not> b_Bucket ?B tx objectsBucket then Inl ErrNoBucket
      else b_Put ?B tx objectsBucket (rv_Oid rv) (Gob_MetaObject (new_object rv))) =
      store_value ?B objectsBucket (rv_Oid rv) (Gob_MetaObject (new_object rv))"
    by (simp add: store_value_def [abs_def])
  obtain db1 created where cp:
    "(if rv_Repo rv \<noteq> [] then createProject ?B db rv else (db, Ok ())) = (db1, created)" by fastforce
  then have t1: "well_typed ?B db1"
    using typed_createProject [OF laws typed, of rv] typed by (auto split: if_splits)
  obtain db2 r2 where up: "db_Update ?B db1
      (store_value ?B objectsBucket (rv_Oid rv) (Gob_MetaObject (new_object rv))) = (db2, r2)" by fastforce
  moreover have "well_typed ?B (fst (db_Update ?B db1
      (store_value ?B objectsBucket (rv_Oid rv) (Gob_MetaObject (new_object rv)))))"
    by (rule typed_store [OF laws t1]) (simp add: new_object_def)
  ultimately have t2: "well_typed ?B db2" by simp
  show ?thesis
    using typed t1 t2 by (auto simp: MetaStore_Put_def Let_def cp tx up split: outcome.splits bool.splits)
qed

lemma typed_AddUser:
  assumes "bolt_laws (be_Bolt env)" and "well_typed (be_Bolt env) db"
  shows "well_typed (be_Bolt env) (fst (AddUser env db user pass))"
proof (cases "Ldap_Enabled (Ldap (be_Config env))")
  case False
  show ?thesis
    unfolding AddUser_alt if_not_P [OF False]
  proof (rule typed_update [OF assms(2)])
    fix t
    assume t: "(if \<not> b_Bucket (be_Bolt env) db usersBucket then Inl ErrNoBucket
        else case bc_Generate (be_Bcrypt env) pass 10 of
            Inl e \<Rightarrow> Inl e
          | Inr h \<Rightarrow> if \<not> blob_empty (b_Get (be_Bolt env) db usersBucket user) then Inr db
              else b_Put (be_Bolt env) db usersBucket user (Bytes h)) = Inr t"
    have "well_typed (be_Bolt env) t" if "b_Put (be_Bolt env) db usersBucket user (Bytes h) = Inr t" for h
      using typed_put [OF assms _ that] by simp
    with t assms(2) show "well_typed (be_Bolt env) t" by (auto split: if_splits sum.splits)
  qed
qed (use assms in \<open>simp add: AddUser_alt\<close>)

lemma typed_DeleteUser:
  assumes "bolt_laws (be_Bolt env)" and "well_typed (be_Bolt env) db"
  shows "well_typed (be_Bolt env) (fst (DeleteUser env db user))"
proof -
  have "well_typed (be_Bolt env) t" if "b_Delete (be_Bolt env) db usersBucket user = Inr t" for t
    using bolt_delete [OF assms(1) that] assms(2) by (auto simp: well_typed_def split: if_splits)
  then show ?thesis
    using assms(2) by (auto simp: DeleteUser_def Let_def intro!: typed_update split: if_splits)
qed

lemma decode_until_all:
  "\<forall>(k, v) \<in> set kvs. dec (Some v) \<noteq> None \<Longrightarrow>
   decode_until dec kvs = map (\<lambda>(k, v). the (dec (Some v))) kvs"
  by (induction dec kvs rule: decode_until.induct) auto

text \<open>
  C21: the buckets stay well-typed through every operation that writes, whether it succeeds
  or fails: passwords in the users bucket, under each OID an object of that OID, under each
  name a project of that name.  So no read ever meets a value that does not decode, and no
  listing stops early: the projects are listed completely, in the order of their names.
\<close>

theorem buckets_stay_typed:
  assumes "bolt_laws (be_Bolt env)" and "well_typed (be_Bolt env) db"
  shows "well_typed (be_Bolt env) (fst (MetaStore_Put env db rv)) \<and>
    well_typed (be_Bolt env) (fst (AddUser env db user pass)) \<and>
    well_typed (be_Bolt env) (fst (DeleteUser env db user)) \<and>
    well_typed (be_Bolt env) (fst (AddProject db name)) \<and>
    MetaStore_Get env db rv \<noteq> Err (ErrExt ''gob'') \<and>
    findProject (be_Bolt env) db name \<noteq> Err (ErrExt ''gob'') \<and>
    (b_Bucket (be_Bolt env) db projectsBucket \<longrightarrow>
       (\<exists>ps. Projects env db = Ok ps \<and>
          map mp_Name ps = map fst (b_ForEach (be_Bolt env) db projectsBucket)))"
proof -
  let ?B = "be_Bolt env"
  have gob: "decode_object (b_Get ?B db objectsBucket k) \<noteq> None \<or> b_Get ?B db objectsBucket k = None"
    "decode_project (b_Get ?B db projectsBucket k) \<noteq> None \<or> b_Get ?B db projectsBucket k = None" for k
    using assms(2) unfolding well_typed_def
    by (cases "b_Get ?B db objectsBucket k" rule: decode_object.cases;
        cases "b_Get ?B db projectsBucket k" rule: decode_project.cases; fastforce)+
  have project: "\<exists>p. v = Gob_MetaProject p \<and> mp_Name p = k" if "(k, v) \<in> set (b_ForEach ?B db projectsBucket)" for k v
  proof -
    have "b_Get ?B db projectsBucket k = Some v" using bolt_ForEach(3) [OF assms(1)] that by blast
    with assms(2) have "bucket_type projectsBucket k v" unfolding well_typed_def by blast
    then show ?thesis by (cases v) simp_all
  qed
  have all: "\<forall>(k, v) \<in> set (b_ForEach ?B db projectsBucket). decode_project (Some v) \<noteq> None"
    using project by fastforce
  have names: "map mp_Name (map (\<lambda>(k, v). the (decode_project (Some v))) (b_ForEach ?B db projectsBucket)) =
      map fst (b_ForEach ?B db projectsBucket)"
    unfolding map_map by (intro map_cong [OF refl]) (use project in fastforce)
  show ?thesis
  proof (intro conjI impI)
    show "MetaStore_Get env db rv \<noteq> Err (ErrExt ''gob'')"
      using gob(1) [of "rv_Oid rv"] authenticate_no_err [of env db "rv_Authorization rv"]
      by (auto simp: MetaStore_Get_def Let_def split: outcome.splits bool.splits option.splits)
    show "findProject ?B db name \<noteq> Err (ErrExt ''gob'')"
      using gob(2) [of name] by (auto simp: findProject_def Let_def split: option.splits)
    show "\<exists>ps. Projects env db = Ok ps \<and> map mp_Name ps = map fst (b_ForEach ?B db projectsBucket)"
      if "b_Bucket ?B db projectsBucket"
      using names decode_until_all [OF all] that by (simp add: Projects_def Let_def)
  qed (use assms typed_Put typed_AddUser typed_DeleteUser in \<open>simp_all add: AddProject_def\<close>)
qed

lemma buckets_stay_typed_witness:
  "well_typed mem_bolt (fst (MetaStore_Put (mem_env True) mem_fresh zero_vars)) \<and> Projects (mem_env True) mem_fresh = Ok []"
proof -
  have start: "well_typed (be_Bolt (mem_env True)) mem_fresh" by (simp add: well_typed_def)
  have none: "b_ForEach mem_bolt mem_fresh projectsBucket = []"
    using bolt_ForEach(3) [OF mem_bolt_laws, of _ _ mem_fresh projectsBucket]
    by (metis mem_fresh_simps(2) list.set_intros(1) option.distinct(1) neq_Nil_conv surj_pair)
  show ?thesis
    using buckets_stay_typed [of "mem_env True" mem_fresh zero_vars "[]" "[]" "[]"] start mem_bolt_laws none
    by auto
qed

end
