(* ===== verification/Put_Race.thy ===== *)
theory Put_Race
  imports Bolt_Types
begin

text \<open>
  \<^verbatim>\<open>MetaStore.Put\<close> of \<^verbatim>\<open>meta_store.go\<close> transaction by transaction.  Bolt runs each transaction
  alone, but \<^verbatim>\<open>Put\<close> makes up to six of them, and those of other requests may come in between:
  it looks whether the object is there in one and stores it in another.
\<close>

section \<open>The transactions of one Put\<close>

datatype put_phase =
    Checking          \<comment> \<open>about to authenticate\<close>
  | Rechecking        \<comment> \<open>in \<^verbatim>\<open>Get\<close>, about to authenticate once more\<close>
  | Looking           \<comment> \<open>in \<^verbatim>\<open>Get\<close>, about to read the object\<close>
  | Finding           \<comment> \<open>in \<^verbatim>\<open>createProject\<close>, about to look for the project\<close>
  | Creating          \<comment> \<open>in \<^verbatim>\<open>createProject\<close>, about to store the project\<close>
  | Storing           \<comment> \<open>about to store the object\<close>
  | Finished "MetaObject outcome"

record put_call =
  pc_vars :: RequestVars
  pc_phase :: put_phase

definition new_put :: "RequestVars \<Rightarrow> put_call" where
  "new_put rv = \<lparr>pc_vars = rv, pc_phase = Checking\<rparr>"

text \<open>The \<^verbatim>\<open>View\<close> of \<^verbatim>\<open>Get\<close>.\<close>

definition read_object :: "'db bolt_api \<Rightarrow> 'db \<Rightarrow> bytes \<Rightarrow> MetaObject outcome" where
  "read_object B db oid =
     (if \<not> b_Bucket B db objectsBucket then Err ErrNoBucket
      else let val = b_Get B db objectsBucket oid in
           if blob_empty val then Err ErrObjectNotFound
           else case decode_object val of None \<Rightarrow> Err (ErrExt ''gob'') | Some m \<Rightarrow> Ok m)"

text \<open>Where \<^verbatim>\<open>Put\<close> goes on when \<^verbatim>\<open>Get\<close> has returned an error, of whatever kind.\<close>

definition after_get :: "RequestVars \<Rightarrow> put_phase" where
  "after_get rv = (if rv_Repo rv \<noteq> [] then Finding else Storing)"

definition put_step :: "('db, 'c) bolt_env \<Rightarrow> 'db \<Rightarrow> put_call \<Rightarrow> 'db \<times> put_call" where
  "put_step env db c =
     (let rv = pc_vars c; B = be_Bolt env in
      case pc_phase c of
        Checking \<Rightarrow>
          (db, c\<lparr>pc_phase := (case authenticate env db (rv_Authorization rv) of
             Panic e \<Rightarrow> Finished (Panic e) | Err e \<Rightarrow> Finished (Err e)
           | Ok b \<Rightarrow> if b then Rechecking else Finished (Err AuthError))\<rparr>)
      | Rechecking \<Rightarrow>
          (db, c\<lparr>pc_phase := (case authenticate env db (rv_Authorization rv) of
             Panic e \<Rightarrow> Finished (Panic e) | Err e \<Rightarrow> after_get rv
           | Ok b \<Rightarrow> if b then Looking else after_get rv)\<rparr>)
      | Looking \<Rightarrow>
          (db, c\<lparr>pc_phase := (case read_object B db (rv_Oid rv) of
             Panic e \<Rightarrow> Finished (Panic e) | Err e \<Rightarrow> after_get rv
           | Ok meta \<Rightarrow> Finished (Ok (meta\<lparr>mo_Existing := True\<rparr>)))\<rparr>)
      | Finding \<Rightarrow>
          (db, c\<lparr>pc_phase := (if is_ok (findProject B db (rv_Repo rv)) \<or> rv_Repo rv = [] then Storing else Creating)\<rparr>)
      | Creating \<Rightarrow>
          (let (db', r) = db_Update B db (store_value B projectsBucket (rv_Repo rv)
                 (Gob_MetaProject \<lparr>mp_Name = rv_Repo rv, mp_Oids = [rv_Oid rv]\<rparr>))
           in (db', c\<lparr>pc_phase := (case r of
                 Ok _ \<Rightarrow> Storing | Err e \<Rightarrow> Finished (Err e) | Panic e \<Rightarrow> Finished (Panic e))\<rparr>))
      | Storing \<Rightarrow>
          (let (db', r) = db_Update B db (store_value B objectsBucket (rv_Oid rv) (Gob_MetaObject (new_object rv)))
           in (db', c\<lparr>pc_phase := Finished (case r of
                 Ok _ \<Rightarrow> Ok (new_object rv) | Err e \<Rightarrow> Err e | Panic e \<Rightarrow> Panic e)\<rparr>))
      | Finished r \<Rightarrow> (db, c))"

subsection \<open>Alone, the transactions add up to the operation\<close>

text \<open>\<open>put_finish\<close> completes a call in one go from any point.\<close>

definition finish_store :: "('db, 'c) bolt_env \<Rightarrow> 'db \<Rightarrow> RequestVars \<Rightarrow> 'db \<times> MetaObject outcome" where
  "finish_store env db rv =
     (let (db', r) = db_Update (be_Bolt env) db
            (store_value (be_Bolt env) objectsBucket (rv_Oid rv) (Gob_MetaObject (new_object rv)))
      in (db', case r of Ok _ \<Rightarrow> Ok (new_object rv) | Err e \<Rightarrow> Err e | Panic e \<Rightarrow> Panic e))"

definition finish_create :: "('db, 'c) bolt_env \<Rightarrow> 'db \<Rightarrow> RequestVars \<Rightarrow> 'db \<times> MetaObject outcome" where
  "finish_create env db rv =
     (let (db', r) = db_Update (be_Bolt env) db (store_value (be_Bolt env) projectsBucket (rv_Repo rv)
            (Gob_MetaProject \<lparr>mp_Name = rv_Repo rv, mp_Oids = [rv_Oid rv]\<rparr>))
      in case r of Ok _ \<Rightarrow> finish_store env db' rv | Err e \<Rightarrow> (db', Err e) | Panic e \<Rightarrow> (db', Panic e))"

definition finish_find :: "('db, 'c) bolt_env \<Rightarrow> 'db \<Rightarrow> RequestVars \<Rightarrow> 'db \<times> MetaObject outcome" where
  "finish_find env db rv =
     (if is_ok (findProject (be_Bolt env) db (rv_Repo rv)) \<or> rv_Repo rv = [] then finish_store env db rv
      else finish_create env db rv)"

definition finish_get :: "('db, 'c) bolt_env \<Rightarrow> 'db \<Rightarrow> RequestVars \<Rightarrow> MetaObject outcome \<Rightarrow> 'db \<times> MetaObject outcome" where
  "finish_get env db rv got =
     (case got of
        Panic e \<Rightarrow> (db, Panic e)
      | Ok meta \<Rightarrow> (db, Ok (meta\<lparr>mo_Existing := True\<rparr>))
      | Err _ \<Rightarrow> if rv_Repo rv \<noteq> [] then finish_find env db rv else finish_store env db rv)"

definition put_finish :: "('db, 'c) bolt_env \<Rightarrow> 'db \<Rightarrow> put_call \<Rightarrow> 'db \<times> MetaObject outcome" where
  "put_finish env db c =
     (let rv = pc_vars c in
      case pc_phase c of
        Checking \<Rightarrow> MetaStore_Put env db rv
      | Rechecking \<Rightarrow> finish_get env db rv (MetaStore_Get env db rv)
      | Looking \<Rightarrow> finish_get env db rv (read_object (be_Bolt env) db (rv_Oid rv))
      | Finding \<Rightarrow> finish_find env db rv
      | Creating \<Rightarrow> finish_create env db rv
      | Storing \<Rightarrow> finish_store env db rv
      | Finished r \<Rightarrow> (db, r))"

lemma MetaStore_Get_alt:
  "MetaStore_Get env db rv =
     (case authenticate env db (rv_Authorization rv) of
        Panic e \<Rightarrow> Panic e
      | Err e \<Rightarrow> Err e
      | Ok b \<Rightarrow> if b then read_object (be_Bolt env) db (rv_Oid rv) else Err AuthError)"
  by (simp add: MetaStore_Get_def read_object_def Let_def split: outcome.split bool.split)

lemma createProject_finish:
  "(case createProject (be_Bolt env) db rv of
      (db1, Ok _) \<Rightarrow> finish_store env db1 rv | (db1, Err e) \<Rightarrow> (db1, Err e) | (db1, Panic e) \<Rightarrow> (db1, Panic e)) =
   finish_find env db rv"
  by (simp add: createProject_alt finish_find_def finish_create_def Let_def split: prod.split)

lemma MetaStore_Put_alt:
  "MetaStore_Put env db rv =
     (case authenticate env db (rv_Authorization rv) of
        Panic e \<Rightarrow> (db, Panic e)
      | Err e \<Rightarrow> (db, Err e)
      | Ok b \<Rightarrow> if b then finish_get env db rv (MetaStore_Get env db rv) else (db, Err AuthError))"
proof -
  have tx: "(\<lambda>tx. if \<not> b_Bucket B tx objectsBucket then Inl ErrNoBucket
      else b_Put B tx objectsBucket k v) = store_value B objectsBucket k v" for B :: "'a bolt_api" and k v
    by (simp add: store_value_def [abs_def])
  show ?thesis
    unfolding MetaStore_Put_def finish_get_def createProject_finish [symmetric] Let_def tx
    by (auto simp: finish_store_def split: outcome.split bool.split prod.split)
qed

lemma put_finish_at:
  "put_finish env db (c\<lparr>pc_phase := Looking\<rparr>) =
     finish_get env db (pc_vars c) (read_object (be_Bolt env) db (rv_Oid (pc_vars c)))"
  "put_finish env db (c\<lparr>pc_phase := Finding\<rparr>) = finish_find env db (pc_vars c)"
  "put_finish env db (c\<lparr>pc_phase := Creating\<rparr>) = finish_create env db (pc_vars c)"
  "put_finish env db (c\<lparr>pc_phase := Storing\<rparr>) = finish_store env db (pc_vars c)"
  "put_finish env db (c\<lparr>pc_phase := Finished r\<rparr>) = (db, r)"
  "put_finish env db (c\<lparr>pc_phase := Rechecking\<rparr>) = finish_get env db (pc_vars c) (MetaStore_Get env db (pc_vars c))"
  by (simp_all add: put_finish_def Let_def)

lemma put_finish_after_get:
  "put_finish env db (c\<lparr>pc_phase := after_get (pc_vars c)\<rparr>) = finish_get env db (pc_vars c) (Err e)"
  by (simp add: put_finish_def after_get_def finish_get_def Let_def)

lemma put_step_finish:
  assumes "put_step env db c = (db', c')"
  shows "put_finish env db' c' = put_finish env db c"
proof (cases "pc_phase c")
  case Checking
  then have c: "put_finish env db c = MetaStore_Put env db (pc_vars c)" by (simp add: put_finish_def Let_def)
  show ?thesis
    using assms Checking unfolding c
    by (cases "authenticate env db (rv_Authorization (pc_vars c))")
      (auto simp: put_step_def Let_def MetaStore_Put_alt put_finish_at)
next
  case Rechecking
  then have c: "put_finish env db c = finish_get env db (pc_vars c) (MetaStore_Get env db (pc_vars c))"
    by (simp add: put_finish_def Let_def)
  show ?thesis
    using assms Rechecking unfolding c
    by (cases "authenticate env db (rv_Authorization (pc_vars c))")
      (auto simp: put_step_def Let_def MetaStore_Get_alt put_finish_at(1,5) put_finish_after_get [where e = AuthError]
        finish_get_def [of _ _ _ "Panic _"] authenticate_no_err)
next
  case Looking
  then have c: "put_finish env db c = finish_get env db (pc_vars c) (read_object (be_Bolt env) db (rv_Oid (pc_vars c)))"
    by (simp add: put_finish_def Let_def)
  show ?thesis
  proof (cases "read_object (be_Bolt env) db (rv_Oid (pc_vars c))")
    case (Err e)
    then show ?thesis using assms Looking unfolding c by (auto simp: put_step_def Let_def put_finish_after_get [where e = e])
  qed (use assms Looking c in \<open>auto simp: put_step_def Let_def put_finish_at(5) finish_get_def\<close>)
next
  case Finding
  then have c: "put_finish env db c = finish_find env db (pc_vars c)" by (simp add: put_finish_def Let_def)
  show ?thesis using assms Finding unfolding c by (auto simp: put_step_def Let_def put_finish_at finish_find_def)
next
  case Creating
  then have c: "put_finish env db c = finish_create env db (pc_vars c)" by (simp add: put_finish_def Let_def)
  show ?thesis
    using assms Creating unfolding c
    by (auto simp: put_step_def Let_def put_finish_at finish_create_def split: prod.splits outcome.splits)
next
  case Storing
  then have c: "put_finish env db c = finish_store env db (pc_vars c)" by (simp add: put_finish_def Let_def)
  show ?thesis
    using assms Storing unfolding c
    by (auto simp: put_step_def Let_def put_finish_at finish_store_def split: prod.splits)
next
  case Finished
  then show ?thesis using assms by (simp add: put_step_def Let_def)
qed

text \<open>The size of a call is the number of transactions it has left at most.\<close>

instantiation put_call_ext :: (type) size
begin

definition size_put_call_ext :: "'a put_call_scheme \<Rightarrow> nat" where
  "size_put_call_ext c =
     (case pc_phase c of
        Checking \<Rightarrow> 6 | Rechecking \<Rightarrow> 5 | Looking \<Rightarrow> 4 | Finding \<Rightarrow> 3 | Creating \<Rightarrow> 2 | Storing \<Rightarrow> 1
      | Finished r \<Rightarrow> 0)"

instance ..

end

lemma put_size_zero: "size (c :: put_call) = 0 \<longleftrightarrow> (\<exists>r. pc_phase c = Finished r)"
  by (simp add: size_put_call_ext_def split: put_phase.split)

lemma put_size_decreases:
  assumes "put_step env db c = (db', c')" and "size c \<noteq> 0"
  shows "size c' < size c"
  using assms
  by (auto simp: put_step_def after_get_def size_put_call_ext_def Let_def
      split: put_phase.splits prod.splits outcome.splits if_splits)

fun put_run :: "('db, 'c) bolt_env \<Rightarrow> nat \<Rightarrow> 'db \<Rightarrow> put_call \<Rightarrow> 'db \<times> put_call" where
  "put_run env 0 db c = (db, c)"
| "put_run env (Suc n) db c = (let (db', c') = put_step env db c in put_run env n db' c')"

lemma put_run_finishes:
  "size c \<le> n \<Longrightarrow>
   \<exists>c'. put_run env n db c = (fst (put_finish env db c), c') \<and> pc_phase c' = Finished (snd (put_finish env db c))"
proof (induction n arbitrary: db c)
  case 0
  then show ?case using put_size_zero [of c] by (auto simp: put_finish_def)
next
  case (Suc n)
  obtain d1 c1 where st: "put_step env db c = (d1, c1)" by fastforce
  have "size c1 \<le> n"
  proof (cases "size c = 0")
    case True
    then obtain r where "pc_phase c = Finished r" using put_size_zero by blast
    then have "c1 = c" using st by (simp add: put_step_def)
    with True show ?thesis by simp
  next
    case False
    from put_size_decreases [OF st False] Suc.prems show ?thesis by simp
  qed
  with Suc.IH [of c1 d1] show ?case using st put_step_finish [OF st] by simp
qed

section \<open>Many Puts at once\<close>

record 'db put_race =
  pr_db :: 'db
  pr_calls :: "nat \<Rightarrow> put_call option"

definition put_arrive :: "nat \<Rightarrow> RequestVars \<Rightarrow> 'db put_race \<Rightarrow> 'db put_race" where
  "put_arrive k rv s = s\<lparr>pr_calls := (pr_calls s)(k \<mapsto> new_put rv)\<rparr>"

definition put_advance :: "('db, 'c) bolt_env \<Rightarrow> nat \<Rightarrow> 'db put_race \<Rightarrow> 'db put_race" where
  "put_advance env k s =
     (case pr_calls s k of
        None \<Rightarrow> s
      | Some c \<Rightarrow> (let (db', c') = put_step env (pr_db s) c
                   in \<lparr>pr_db = db', pr_calls = (pr_calls s)(k \<mapsto> c')\<rparr>))"

inductive race_step :: "('db, 'c) bolt_env \<Rightarrow> 'db put_race \<Rightarrow> 'db put_race \<Rightarrow> bool" for env where
  request: "pr_calls s k = None \<Longrightarrow> race_step env s (put_arrive k rv s)"
| transaction: "pr_calls s k \<noteq> None \<Longrightarrow> race_step env s (put_advance env k s)"

inductive_cases race_stepE [consumes 1, case_names request transaction]: "race_step env s s'"

text \<open>What one transaction of a call makes of the objects.\<close>

definition put_answered :: "('db, 'c) bolt_env \<Rightarrow> 'db \<Rightarrow> put_call \<Rightarrow> bool" where
  "put_answered env db c \<longleftrightarrow>
     (\<forall>m. pc_phase c = Finished (Ok m) \<longrightarrow>
        mo_Oid m = rv_Oid (pc_vars c) \<and> bolt_objs env db (rv_Oid (pc_vars c)) \<noteq> None)"

lemma read_object_Ok:
  assumes "bolt_inv env db" and "read_object (be_Bolt env) db oid = Ok m"
  shows "bolt_objs env db oid = Some m"
  using assms by (auto simp: read_object_def bolt_objs_def Let_def split: if_splits option.splits)

lemma store_object_effect:
  assumes iv: "bolt_inv env db"
    and up: "db_Update (be_Bolt env) db (store_value (be_Bolt env) objectsBucket (rv_Oid rv)
      (Gob_MetaObject (new_object rv))) = (db', r)"
  shows "bolt_inv env db' \<and>
    (bolt_objs env db' = bolt_objs env db \<and> (\<exists>e. r = Err e) \<or>
     r = Ok () \<and> bolt_objs env db' = (bolt_objs env db)(rv_Oid rv \<mapsto> new_object rv))"
proof -
  have laws: "bolt_laws (be_Bolt env)" using iv by (simp add: bolt_inv_def)
  show ?thesis
  proof (cases rule: store_value_cases [OF laws up])
    case 1
    have "bolt_inv env db'" using iv 1 by (auto simp: bolt_inv_def new_object_def split: if_splits)
    moreover have "bolt_objs env db' = (bolt_objs env db)(rv_Oid rv \<mapsto> new_object rv)"
      using 1 by (intro bolt_objs_stored) simp
    ultimately show ?thesis using 1 by simp
  qed (use iv in simp)
qed

lemma store_project_effect:
  assumes iv: "bolt_inv env db"
    and up: "db_Update (be_Bolt env) db (store_value (be_Bolt env) projectsBucket k v) = (db', r)"
  shows "bolt_inv env db' \<and> bolt_objs env db' = bolt_objs env db"
proof -
  have laws: "bolt_laws (be_Bolt env)" using iv by (simp add: bolt_inv_def)
  show ?thesis
    by (cases rule: store_value_cases [OF laws up]) (use objects_untouched [OF iv, of db'] iv in simp_all)
qed

lemma put_step_effect:
  assumes iv: "bolt_inv env db" and st: "put_step env db c = (db', c')" and ans: "put_answered env db c"
  shows "bolt_inv env db'" and "bolt_objs env db oid \<noteq> None \<Longrightarrow> bolt_objs env db' oid \<noteq> None"
    and "put_answered env db' c'" and "pc_vars c' = pc_vars c"
proof -
  have "bolt_inv env db' \<and> (\<forall>oid. bolt_objs env db oid \<noteq> None \<longrightarrow> bolt_objs env db' oid \<noteq> None) \<and>
    put_answered env db' c' \<and> pc_vars c' = pc_vars c"
  proof (cases "pc_phase c")
    case Looking
    then show ?thesis
      using st iv read_object_Ok [OF iv] bolt.entry_oid [OF iv]
      by (cases "read_object (be_Bolt env) db (rv_Oid (pc_vars c))")
        (auto simp: put_step_def Let_def put_answered_def after_get_def split: if_splits)
  next
    case Creating
    obtain db1 r where up: "db_Update (be_Bolt env) db (store_value (be_Bolt env) projectsBucket (rv_Repo (pc_vars c))
        (Gob_MetaProject \<lparr>mp_Name = rv_Repo (pc_vars c), mp_Oids = [rv_Oid (pc_vars c)]\<rparr>)) = (db1, r)" by fastforce
    then show ?thesis
      using st Creating store_project_effect [OF iv up]
      by (cases r) (auto simp: put_step_def Let_def put_answered_def)
  next
    case Storing
    obtain db1 r where up: "db_Update (be_Bolt env) db (store_value (be_Bolt env) objectsBucket (rv_Oid (pc_vars c))
        (Gob_MetaObject (new_object (pc_vars c)))) = (db1, r)" by fastforce
    then show ?thesis
      using st Storing store_object_effect [OF iv up]
      by (auto simp: put_step_def Let_def put_answered_def new_object_def)
  qed (use st iv ans in \<open>auto simp: put_step_def Let_def put_answered_def after_get_def authenticate_no_err
      split: outcome.splits bool.splits if_splits\<close>)
  then show "bolt_inv env db'" "bolt_objs env db oid \<noteq> None \<Longrightarrow> bolt_objs env db' oid \<noteq> None"
    "put_answered env db' c'" "pc_vars c' = pc_vars c" by blast+
qed

definition race_inv :: "('db, 'c) bolt_env \<Rightarrow> 'db put_race \<Rightarrow> bool" where
  "race_inv env s \<longleftrightarrow>
     bolt_inv env (pr_db s) \<and> (\<forall>k c. pr_calls s k = Some c \<longrightarrow> put_answered env (pr_db s) c)"

lemma race_step_inv:
  assumes "race_step env s s'" and iv: "race_inv env s"
  shows "race_inv env s'" and "bolt_objs env (pr_db s) oid \<noteq> None \<Longrightarrow> bolt_objs env (pr_db s') oid \<noteq> None"
proof -
  have "race_inv env s' \<and> (\<forall>oid. bolt_objs env (pr_db s) oid \<noteq> None \<longrightarrow> bolt_objs env (pr_db s') oid \<noteq> None)"
    using assms(1)
  proof (cases rule: race_stepE)
    case (request k rv)
    then show ?thesis using iv by (auto simp: race_inv_def put_arrive_def new_put_def put_answered_def)
  next
    case (transaction k)
    then obtain c where c: "pr_calls s k = Some c" by blast
    obtain db' c' where st: "put_step env (pr_db s) c = (db', c')" by fastforce
    then have s': "s' = \<lparr>pr_db = db', pr_calls = (pr_calls s)(k \<mapsto> c')\<rparr>"
      using transaction c by (simp add: put_advance_def)
    have "bolt_inv env (pr_db s)" and "put_answered env (pr_db s) c" using iv c by (auto simp: race_inv_def)
    note eff = put_step_effect [OF this(1) st this(2)]
    have "put_answered env db' d" if "pr_calls s j = Some d" for j d
      using iv that eff(2) by (auto simp: race_inv_def put_answered_def)
    then show ?thesis using eff s' by (auto simp: race_inv_def)
  qed
  then show "race_inv env s'" "bolt_objs env (pr_db s) oid \<noteq> None \<Longrightarrow> bolt_objs env (pr_db s') oid \<noteq> None"
    by blast+
qed

lemma race_run_inv:
  assumes "(race_step env)\<^sup>*\<^sup>* s s'" and "race_inv env s"
  shows "race_inv env s' \<and> (\<forall>oid. bolt_objs env (pr_db s) oid \<noteq> None \<longrightarrow> bolt_objs env (pr_db s') oid \<noteq> None)"
  using assms by (induction rule: rtranclp_induct) (use race_step_inv in blast)+

section \<open>Properties\<close>

text \<open>
  A \<^verbatim>\<open>Put\<close> made transaction by transaction does, alone, what the operation does: after six
  transactions at most it has returned, with the same database and the same result.
\<close>

theorem put_transactions_refine_Put:
  "\<exists>c. put_run env (6 + n) db (new_put rv) = (fst (MetaStore_Put env db rv), c) \<and>
     pc_phase c = Finished (snd (MetaStore_Put env db rv))"
proof -
  have "size (new_put rv) \<le> 6 + n" by (simp add: size_put_call_ext_def new_put_def)
  from put_run_finishes [OF this, of env db] show ?thesis by (simp add: put_finish_def new_put_def)
qed

text \<open>
  C14: however the transactions of any number of \<^verbatim>\<open>Put\<close>s interleave, the object table stays
  well-formed, an OID once known stays known, and an OID whose \<^verbatim>\<open>Put\<close> has succeeded is known.
\<close>

theorem interleaved_puts_keep_objects:
  assumes "(race_step env)\<^sup>*\<^sup>* \<lparr>pr_db = db, pr_calls = Map.empty\<rparr> s" and "bolt_inv env db"
  shows "bolt_inv env (pr_db s) \<and>
    (\<forall>oid. bolt_objs env db oid \<noteq> None \<longrightarrow> bolt_objs env (pr_db s) oid \<noteq> None) \<and>
    (\<forall>k c m. pr_calls s k = Some c \<longrightarrow> pc_phase c = Finished (Ok m) \<longrightarrow>
       mo_Oid m = rv_Oid (pc_vars c) \<and> bolt_objs env (pr_db s) (mo_Oid m) \<noteq> None)"
proof -
  have "race_inv env \<lparr>pr_db = db, pr_calls = Map.empty\<rparr>" using assms(2) by (simp add: race_inv_def)
  from race_run_inv [OF assms(1) this] show ?thesis by (simp add: race_inv_def put_answered_def)
qed

text \<open>A project of one announcement, made transaction by transaction, and a second one that comes in on the way.\<close>

lemma interleaved_puts_keep_objects_witness:
  "\<exists>s. (race_step (mem_env True))\<^sup>*\<^sup>* \<lparr>pr_db = mem_fresh, pr_calls = Map.empty\<rparr> s \<and> bolt_inv (mem_env True) (pr_db s) \<and>
     pr_calls s 2 = Some (new_put (zero_vars\<lparr>rv_Oid := ''b''\<rparr>))"
proof -
  let ?s0 = "\<lparr>pr_db = mem_fresh, pr_calls = Map.empty\<rparr>"
  let ?s1 = "put_arrive 1 (zero_vars\<lparr>rv_Oid := ''a'', rv_Repo := ''r''\<rparr>) ?s0"
  let ?s2 = "put_advance (mem_env True) 1 ?s1"
  let ?s3 = "put_arrive 2 (zero_vars\<lparr>rv_Oid := ''b''\<rparr>) ?s2"
  have "race_step (mem_env True) ?s0 ?s1" by (rule race_step.request) simp
  moreover have "race_step (mem_env True) ?s1 ?s2" by (rule race_step.transaction) (simp add: put_arrive_def)
  moreover have "race_step (mem_env True) ?s2 ?s3"
    by (rule race_step.request) (simp add: put_arrive_def put_advance_def split: prod.split)
  ultimately have run: "(race_step (mem_env True))\<^sup>*\<^sup>* ?s0 ?s3"
    by (rule converse_rtranclp_into_rtranclp [OF _ converse_rtranclp_into_rtranclp [OF _ r_into_rtranclp]])
  with interleaved_puts_keep_objects [OF run mem_fresh_inv] show ?thesis
    by (intro exI [of _ ?s3]) (simp add: put_arrive_def)
qed

lemma race_transaction:
  assumes "pr_calls s k = Some c" and "put_step env (pr_db s) c = (db', c')"
  shows "race_step env s \<lparr>pr_db = db', pr_calls = (pr_calls s)(k \<mapsto> c')\<rparr>"
  using race_step.transaction [of s k env] assms by (simp add: put_advance_def)

text \<open>A call without a project on its way to its last transaction, while the object is unknown.\<close>

lemma put_reaches_Storing:
  assumes iv: "bolt_inv env db" and auth: "authenticate env db (rv_Authorization rv) = Ok True"
    and new: "bolt_objs env db (rv_Oid rv) = None" and repo: "rv_Repo rv = []"
    and s: "pr_db s = db" "pr_calls s k = Some (new_put rv)"
  shows "(race_step env)\<^sup>*\<^sup>* s (s\<lparr>pr_calls := (pr_calls s)(k \<mapsto> \<lparr>pc_vars = rv, pc_phase = Storing\<rparr>)\<rparr>)"
proof -
  let ?at = "\<lambda>p. s\<lparr>pr_calls := (pr_calls s)(k \<mapsto> \<lparr>pc_vars = rv, pc_phase = p\<rparr>)\<rparr>"
  have "read_object (be_Bolt env) db (rv_Oid rv) = Err ErrObjectNotFound"
    using bolt_objs_None [OF iv, of "rv_Oid rv"] new iv by (simp add: read_object_def bolt_inv_def)
  then have steps: "put_step env db \<lparr>pc_vars = rv, pc_phase = Checking\<rparr> = (db, \<lparr>pc_vars = rv, pc_phase = Rechecking\<rparr>)"
    "put_step env db \<lparr>pc_vars = rv, pc_phase = Rechecking\<rparr> = (db, \<lparr>pc_vars = rv, pc_phase = Looking\<rparr>)"
    "put_step env db \<lparr>pc_vars = rv, pc_phase = Looking\<rparr> = (db, \<lparr>pc_vars = rv, pc_phase = Storing\<rparr>)"
    using auth repo by (simp_all add: put_step_def Let_def after_get_def)
  have step: "race_step env (?at p) (?at q)"
    if "put_step env db \<lparr>pc_vars = rv, pc_phase = p\<rparr> = (db, \<lparr>pc_vars = rv, pc_phase = q\<rparr>)" for p q
    using race_transaction [of "?at p" k "\<lparr>pc_vars = rv, pc_phase = p\<rparr>" env db] that s(1) by (cases s) simp
  have start: "?at Checking = s" using s(2) by (simp add: new_put_def fun_upd_idem)
  have "(race_step env)\<^sup>*\<^sup>* (?at Checking) (?at Storing)"
    by (rule converse_rtranclp_into_rtranclp [OF step [OF steps(1)] converse_rtranclp_into_rtranclp [OF step [OF steps(2)]
        r_into_rtranclp [where r = "race_step env", OF step [OF steps(3)]]]])
  then show ?thesis using start by simp
qed

text \<open>
  Two requests that announce an object at the same time, with different sizes, are both
  told that they created it.  Both look before either stores; the first one's size is in the
  table when it is answered, and is then overwritten by the second one's, so that the
  upload of the first client, as it announced it, will be refused.
\<close>

lemma racing_puts_change_size:
  assumes iv: "bolt_inv env db" and oid: "rv_Oid rv1 = oid" "rv_Oid rv2 = oid" and new: "bolt_objs env db oid = None"
    and auth: "authenticate env db (rv_Authorization rv1) = Ok True" "authenticate env db (rv_Authorization rv2) = Ok True"
    and repo: "rv_Repo rv1 = []" "rv_Repo rv2 = []"
    and store: "db_Update (be_Bolt env) db (store_value (be_Bolt env) objectsBucket oid (Gob_MetaObject (new_object rv1))) = (db1, Ok ())"
      "db_Update (be_Bolt env) db1 (store_value (be_Bolt env) objectsBucket oid (Gob_MetaObject (new_object rv2))) = (db2, Ok ())"
  shows "\<exists>s1 s2 c1 c2. (race_step env)\<^sup>*\<^sup>* \<lparr>pr_db = db, pr_calls = Map.empty\<rparr> s1 \<and> race_step env s1 s2 \<and>
    pr_calls s1 1 = Some c1 \<and> pc_vars c1 = rv1 \<and> pc_phase c1 = Finished (Ok (new_object rv1)) \<and>
    bolt_objs env (pr_db s1) oid = Some (new_object rv1) \<and>
    pr_calls s2 2 = Some c2 \<and> pc_vars c2 = rv2 \<and> pc_phase c2 = Finished (Ok (new_object rv2)) \<and>
    bolt_objs env (pr_db s2) oid = Some (new_object rv2)"
proof -
  define s0 where "s0 = \<lparr>pr_db = db, pr_calls = Map.empty :: nat \<Rightarrow> put_call option\<rparr>"
  define a where "a = put_arrive 2 rv2 (put_arrive 1 rv1 s0)"
  let ?st = "\<lambda>rv. \<lparr>pc_vars = rv, pc_phase = Storing\<rparr>" and ?fin = "\<lambda>rv. \<lparr>pc_vars = rv, pc_phase = Finished (Ok (new_object rv))\<rparr>"
  define b where "b = a\<lparr>pr_calls := (pr_calls a)(1 \<mapsto> ?st rv1)\<rparr>"
  define c where "c = b\<lparr>pr_calls := (pr_calls b)(2 \<mapsto> ?st rv2)\<rparr>"
  define s1 where "s1 = \<lparr>pr_db = db1, pr_calls = (pr_calls c)(1 \<mapsto> ?fin rv1)\<rparr>"
  define s2 where "s2 = \<lparr>pr_db = db2, pr_calls = (pr_calls s1)(2 \<mapsto> ?fin rv2)\<rparr>"
  have a: "pr_db a = db" "pr_calls a 1 = Some (new_put rv1)" "pr_calls a 2 = Some (new_put rv2)"
    by (simp_all add: a_def s0_def put_arrive_def del: One_nat_def)
  have b: "pr_db b = db" "pr_calls b 1 = Some (?st rv1)" "pr_calls b 2 = Some (new_put rv2)"
    by (simp_all add: b_def a del: One_nat_def)
  have c: "pr_db c = db" "pr_calls c 1 = Some (?st rv1)" "pr_calls c 2 = Some (?st rv2)" by (simp_all add: c_def b del: One_nat_def)
  have s1: "pr_db s1 = db1" "pr_calls s1 1 = Some (?fin rv1)" "pr_calls s1 2 = Some (?st rv2)"
    by (simp_all add: s1_def c del: One_nat_def)
  have "race_step env s0 (put_arrive 1 rv1 s0)" "race_step env (put_arrive 1 rv1 s0) a"
    unfolding a_def by (rule race_step.request, simp add: put_arrive_def s0_def)+
  then have "(race_step env)\<^sup>*\<^sup>* s0 a" by (rule converse_rtranclp_into_rtranclp [OF _ r_into_rtranclp])
  also have "(race_step env)\<^sup>*\<^sup>* a b"
    unfolding b_def by (rule put_reaches_Storing [OF iv auth(1) _ repo(1) a(1,2)]) (simp add: oid new)
  also have "(race_step env)\<^sup>*\<^sup>* b c"
    unfolding c_def by (rule put_reaches_Storing [OF iv auth(2) _ repo(2) b(1,3)]) (simp add: oid new)
  also have "race_step env c s1"
    unfolding s1_def by (rule race_transaction [OF c(2)]) (simp add: put_step_def oid c store)
  finally have run: "(race_step env)\<^sup>*\<^sup>* s0 s1" .
  have last: "race_step env s1 s2"
    unfolding s2_def by (rule race_transaction [OF s1(3)]) (simp add: put_step_def oid s1 store)
  have e1: "bolt_inv env db1 \<and> bolt_objs env db1 oid = Some (new_object rv1)"
    using store_object_effect [OF iv, of rv1 db1 "Ok ()"] store(1) oid by auto
  then have e2: "bolt_objs env db2 oid = Some (new_object rv2)"
    using store_object_effect [of env db1 rv2 db2 "Ok ()"] store(2) oid by auto
  show ?thesis
    by (intro exI [of _ s1] exI [of _ s2] exI [of _ "?fin rv1"] exI [of _ "?fin rv2"] conjI run [unfolded s0_def] last)
      (simp_all add: s1 s2_def e1 e2 del: One_nat_def)
qed

lemma racing_puts_change_size_witness:
  "\<exists>s1 s2 c1 c2 db. (race_step (mem_env True))\<^sup>*\<^sup>* \<lparr>pr_db = mem_fresh, pr_calls = Map.empty\<rparr> s1 \<and>
     race_step (mem_env True) s1 s2 \<and> pr_db s2 = db \<and>
     pr_calls s1 1 = Some c1 \<and> pc_phase c1 = Finished (Ok (new_object (zero_vars\<lparr>rv_Oid := ''a'', rv_Size := 5\<rparr>))) \<and>
     pr_calls s2 2 = Some c2 \<and> pc_phase c2 = Finished (Ok (new_object (zero_vars\<lparr>rv_Oid := ''a'', rv_Size := 9\<rparr>))) \<and>
     map_option mo_Size (bolt_objs (mem_env True) db ''a'') = Some 9"
proof -
  let ?r1 = "zero_vars\<lparr>rv_Oid := ''a'', rv_Size := 5\<rparr>" and ?r2 = "zero_vars\<lparr>rv_Oid := ''a'', rv_Size := 9\<rparr>"
  obtain d1 where d1: "db_Update mem_bolt mem_fresh (store_value mem_bolt objectsBucket ''a'' (Gob_MetaObject (new_object ?r1))) = (d1, Ok ())"
    "b_Bucket mem_bolt d1 objectsBucket"
    using mem_store_value [of mem_fresh objectsBucket "''a''" "Gob_MetaObject (new_object ?r1)"] by auto
  obtain d2 where d2: "db_Update mem_bolt d1 (store_value mem_bolt objectsBucket ''a'' (Gob_MetaObject (new_object ?r2))) = (d2, Ok ())"
    using mem_store_value [OF d1(2), of "''a''" "Gob_MetaObject (new_object ?r2)"] by auto
  have "bolt_objs (mem_env True) mem_fresh ''a'' = None" by (simp add: bolt_objs_def)
  then obtain s1 s2 c1 c2 where
    "(race_step (mem_env True))\<^sup>*\<^sup>* \<lparr>pr_db = mem_fresh, pr_calls = Map.empty\<rparr> s1" "race_step (mem_env True) s1 s2"
    "pr_calls s1 1 = Some c1" "pc_phase c1 = Finished (Ok (new_object ?r1))"
    "pr_calls s2 2 = Some c2" "pc_phase c2 = Finished (Ok (new_object ?r2))"
    "bolt_objs (mem_env True) (pr_db s2) ''a'' = Some (new_object ?r2)"
    using racing_puts_change_size [OF mem_fresh_inv, of ?r1 "''a''" ?r2 True d1 d2] d1(1) d2
    by (auto simp: mem_authenticate zero_vars_def)
  moreover from this(7) have "map_option mo_Size (bolt_objs (mem_env True) (pr_db s2) ''a'') = Some 9"
    by (simp add: new_object_def)
  ultimately show ?thesis by blast
qed

end
