(* ===== verification/Http.thy ===== *)
theory Http
  imports Lfs_Types
begin

text \<open>
  What the handlers use of \<^verbatim>\<open>net/http\<close> and \<^verbatim>\<open>encoding/json\<close>: requests, the response writer
  with its write-once status, and the decoding of a JSON value into the structs of
  \<^verbatim>\<open>server.go\<close>.  The lexical side of JSON (from bytes to a value) is a parameter of the
  handlers; the decoding of a value, with its partial results on a type error, is not.
\<close>

section \<open>JSON values\<close>

datatype json =
    JNull
  | JBool bool
  | JInt int                        \<comment> \<open>a number written as an integer\<close>
  | JFraction bytes                 \<comment> \<open>any other number, by its text\<close>
  | JStr bytes
  | JArr "json list"
  | JObj "(bytes \<times> json) list"

text \<open>
  Keys of an object match field names up to case; \<^verbatim>\<open>encoding/json\<close> folds, besides ASCII
  letters, the long s and the Kelvin sign.
\<close>

definition fold_char :: "char \<Rightarrow> char" where
  "fold_char c = (let n = (of_char c :: nat) in if 65 \<le> n \<and> n \<le> 90 then char_of (n + 32) else c)"

fun fold_key :: "bytes \<Rightarrow> bytes" where
  "fold_key (a # b # c # rest) =
     (if a = CHR 0xC5 \<and> b = CHR 0xBF then CHR ''s'' # fold_key (c # rest)
      else if a = CHR 0xE2 \<and> b = CHR 0x84 \<and> c = CHR 0xAA then CHR ''k'' # fold_key rest
      else fold_char a # fold_key (b # c # rest))"
| "fold_key [a, b] = (if a = CHR 0xC5 \<and> b = CHR 0xBF then ''s'' else [fold_char a, fold_char b])"
| "fold_key [a] = [fold_char a]"
| "fold_key [] = []"

text \<open>Decoding one value into a string or an \<^verbatim>\<open>int64\<close>: the new value and whether the type fits.\<close>

fun json_string :: "json \<Rightarrow> bytes \<Rightarrow> bytes \<times> bool" where
  "json_string (JStr s) old = (s, True)"
| "json_string JNull old = (old, True)"
| "json_string _ old = (old, False)"

fun json_int64 :: "json \<Rightarrow> int64 \<Rightarrow> int64 \<times> bool" where
  "json_int64 (JInt i) old =
     (if - (2 ^ 63) \<le> i \<and> i < 2 ^ 63 then (word_of_int i, True) else (old, False))"
| "json_int64 JNull old = (old, True)"
| "json_int64 _ old = (old, False)"

definition set_field :: "bytes \<Rightarrow> json \<Rightarrow> RequestVars \<Rightarrow> RequestVars \<times> bool" where
  "set_field key v p =
     (let k = fold_key key in
      if k = ''oid'' then apfst (\<lambda>s. p\<lparr>rv_Oid := s\<rparr>) (json_string v (rv_Oid p))
      else if k = ''size'' then apfst (\<lambda>i. p\<lparr>rv_Size := i\<rparr>) (json_int64 v (rv_Size p))
      else if k = ''user'' then apfst (\<lambda>s. p\<lparr>rv_User := s\<rparr>) (json_string v (rv_User p))
      else if k = ''password'' then apfst (\<lambda>s. p\<lparr>rv_Password := s\<rparr>) (json_string v (rv_Password p))
      else if k = ''namespace'' then apfst (\<lambda>s. p\<lparr>rv_Namespace := s\<rparr>) (json_string v (rv_Namespace p))
      else if k = ''repo'' then apfst (\<lambda>s. p\<lparr>rv_Repo := s\<rparr>) (json_string v (rv_Repo p))
      else if k = ''authorization'' then
        apfst (\<lambda>s. p\<lparr>rv_Authorization := s\<rparr>) (json_string v (rv_Authorization p))
      else (p, True))"

text \<open>
  Decoding into a struct goes on after a field of the wrong type and reports the error at
  the end; \<open>True\<close> stands for no error.
\<close>

fun decode_fields :: "(bytes \<times> json) list \<Rightarrow> RequestVars \<Rightarrow> RequestVars \<times> bool" where
  "decode_fields [] p = (p, True)"
| "decode_fields ((k, v) # kvs) p =
     (let (p', fits) = set_field k v p; (p'', rest_fits) = decode_fields kvs p'
      in (p'', fits \<and> rest_fits))"

fun decode_vars :: "json \<Rightarrow> RequestVars \<Rightarrow> RequestVars \<times> bool" where
  "decode_vars (JObj kvs) p = decode_fields kvs p"
| "decode_vars JNull p = (p, True)"
| "decode_vars _ p = (p, False)"

text \<open>
  An array of pointers: \<^verbatim>\<open>null\<close> makes a nil pointer, any other value is decoded into the
  struct that the slice already has at that index, or into a new one.
\<close>

fun decode_pointers :: "json list \<Rightarrow> RequestVars option list \<Rightarrow> RequestVars option list \<times> bool" where
  "decode_pointers [] old = ([], True)"
| "decode_pointers (v # vs) old =
     (let (here, rest) = (case old of [] \<Rightarrow> (None, []) | p # ps \<Rightarrow> (p, ps));
          (p', fits) = (if v = JNull then (None, True)
                        else apfst Some (decode_vars v (case here of None \<Rightarrow> zero_vars | Some p \<Rightarrow> p)));
          (ps', rest_fits) = decode_pointers vs rest
      in (p' # ps', fits \<and> rest_fits))"

text \<open>\<^verbatim>\<open>BatchVars\<close> has the one field \<^verbatim>\<open>Objects\<close>.\<close>

fun decode_batch_fields ::
  "(bytes \<times> json) list \<Rightarrow> RequestVars option list \<Rightarrow> RequestVars option list \<times> bool" where
  "decode_batch_fields [] old = (old, True)"
| "decode_batch_fields ((k, v) # kvs) old =
     (let (objs, fits) =
        (if fold_key k \<noteq> ''objects'' then (old, True)
         else case v of JArr vs \<Rightarrow> decode_pointers vs old | JNull \<Rightarrow> ([], True) | _ \<Rightarrow> (old, False));
          (objs', rest_fits) = decode_batch_fields kvs objs
      in (objs', fits \<and> rest_fits))"

fun decode_batch :: "json \<Rightarrow> RequestVars option list \<times> bool" where
  "decode_batch (JObj kvs) = decode_batch_fields kvs []"
| "decode_batch JNull = ([], True)"
| "decode_batch _ = ([], False)"

section \<open>Requests\<close>

text \<open>Header names are in canonical form; a body is read as a \<open>reader\<close>.\<close>

record request =
  rq_Method :: bytes
  rq_Path :: bytes
  rq_Header :: "bytes \<Rightarrow> bytes list"
  rq_Body :: reader

definition header_Get :: "request \<Rightarrow> bytes \<Rightarrow> bytes" where
  "header_Get r k = (case rq_Header r k of [] \<Rightarrow> [] | v # _ \<Rightarrow> v)"

section \<open>Responses\<close>

text \<open>
  The writer: the status once it is sent, the header fields as they go out with it, and
  the pieces of the body.  The first piece sends status 200 if none was sent; a second
  status and header changes after the first have no effect.
\<close>

datatype chunk = Raw bytes | Json json

record writer =
  w_Status :: "int option"
  w_Header :: "bytes \<rightharpoonup> bytes"
  w_Body :: "chunk list"

definition fresh_writer :: writer where
  "fresh_writer = \<lparr>w_Status = None, w_Header = Map.empty, w_Body = []\<rparr>"

definition Header_Set :: "writer \<Rightarrow> bytes \<Rightarrow> bytes \<Rightarrow> writer" where
  "Header_Set w k v = (if w_Status w = None then w\<lparr>w_Header := (w_Header w)(k \<mapsto> v)\<rparr> else w)"

definition WriteHeader :: "writer \<Rightarrow> int \<Rightarrow> writer" where
  "WriteHeader w status = (if w_Status w = None then w\<lparr>w_Status := Some status\<rparr> else w)"

definition w_Write :: "writer \<Rightarrow> chunk \<Rightarrow> writer" where
  "w_Write w piece = (let w' = WriteHeader w 200 in w'\<lparr>w_Body := w_Body w' @ [piece]\<rparr>)"

text \<open>The status that the client sees, once the handler has returned.\<close>

definition final_status :: "writer \<Rightarrow> int" where
  "final_status w = (case w_Status w of None \<Rightarrow> 200 | Some s \<Rightarrow> s)"

text \<open>A handler either returns or panics, and then the connection is dropped.\<close>

datatype reply = Reply writer | Aborted GoError

definition StatusText :: "int \<Rightarrow> bytes" where
  "StatusText status =
     (if status = 200 then ''OK'' else if status = 202 then ''Accepted''
      else if status = 302 then ''Found'' else if status = 401 then ''Unauthorized''
      else if status = 404 then ''Not Found'' else if status = 500 then ''Internal Server Error''
      else [])"

section \<open>Writing a status\<close>

definition contentMediaType :: bytes where "contentMediaType = ''application/vnd.git-lfs''"
definition metaMediaType :: bytes where "metaMediaType = contentMediaType @ ''+json''"

definition accepted_type :: "request \<Rightarrow> bytes" where
  "accepted_type r = hd (SplitByte CHR '';'' (header_Get r ''Accept''))"

definition writeStatus :: "writer \<Rightarrow> request \<Rightarrow> int \<Rightarrow> writer" where
  "writeStatus w r status =
     (let message = StatusText status;
          message' = (if HasSuffix (accepted_type r) ''+json''
                      then ''{\"message\":\"'' @ message @ ''\"}'' else message)
      in w_Write (WriteHeader w status) (Raw message'))"

definition requireAuth :: "writer \<Rightarrow> request \<Rightarrow> writer" where
  "requireAuth w r = writeStatus (Header_Set w ''Lfs-Authenticate'' ''Basic realm=lfs-server-go'') r 401"

lemmas writer_defs [http_simps] =
  fresh_writer_def Header_Set_def WriteHeader_def w_Write_def final_status_def writeStatus_def requireAuth_def

lemma final_status_writeStatus [simp]: "final_status (writeStatus fresh_writer r status) = status"
  by (simp add: http_simps Let_def)

lemma requireAuth_effect [simp]:
  "final_status (requireAuth fresh_writer r) = 401"
  "w_Header (requireAuth fresh_writer r) ''Lfs-Authenticate'' = Some ''Basic realm=lfs-server-go''"
  by (simp_all add: http_simps Let_def)

lemma media_types_distinct [simp]: "contentMediaType \<noteq> metaMediaType" "metaMediaType \<noteq> contentMediaType"
  by (simp_all add: metaMediaType_def)

end
