(* ===== verification/Server.thy ===== *)
theory Server
  imports Http Interfaces
begin

text \<open>
  The handlers of \<^verbatim>\<open>server.go\<close>, over any pair of stores.  A handler takes the state of both
  stores, the variables of the matched route and the request, and yields the new state and
  the reply.  The contracts of the two stores give the client-visible laws, proved once in
  the locales \<open>lfs_core\<close> and \<open>lfs_app\<close>.
\<close>

section \<open>The application\<close>

text \<open>\<open>app_json\<close> reads one JSON value off a body, \<open>None\<close> on a syntax or read error.\<close>

record ('s, 'c) App =
  app_Config :: Configuration
  app_contentStore :: "'c GenericContentStore"
  app_metaStore :: "'s GenericMetaStore"
  app_json :: "reader \<Rightarrow> json option"

type_synonym route_vars = "bytes \<rightharpoonup> bytes"

text \<open>A key that is absent from the route variables reads as the empty string.\<close>

definition var :: "route_vars \<Rightarrow> bytes \<Rightarrow> bytes" where
  "var vars k = (case vars k of None \<Rightarrow> [] | Some v \<Rightarrow> v)"

definition ContentMatcher :: "request \<Rightarrow> bool" where
  "ContentMatcher r \<longleftrightarrow> accepted_type r = contentMediaType"

definition MetaMatcher :: "request \<Rightarrow> bool" where
  "MetaMatcher r \<longleftrightarrow> accepted_type r = metaMediaType"

definition unpack :: "('s, 'c) App \<Rightarrow> route_vars \<Rightarrow> request \<Rightarrow> RequestVars" where
  "unpack a vars r =
     (let rv = zero_vars\<lparr>rv_Namespace := var vars ''namespace'', rv_Repo := var vars ''repo'',
                         rv_Oid := var vars ''oid'', rv_Authorization := header_Get r ''Authorization''\<rparr>
      in if rq_Method r = ''POST'' then
           (case app_json a (rq_Body r) of
              None \<Rightarrow> rv
            | Some j \<Rightarrow>
                (case decode_vars j zero_vars of
                   (p, fits) \<Rightarrow> if \<not> fits then rv else rv\<lparr>rv_Oid := rv_Oid p, rv_Size := rv_Size p\<rparr>))
         else rv)"

text \<open>
  \<^verbatim>\<open>unpackbatch\<close>: on an error what was decoded is returned as it is; otherwise every object
  gets the route's namespace and repository and the request's credentials, and a nil object
  is dereferenced.
\<close>

definition fill_batch_vars :: "route_vars \<Rightarrow> request \<Rightarrow> RequestVars \<Rightarrow> RequestVars" where
  "fill_batch_vars vars r p =
     p\<lparr>rv_Namespace := var vars ''namespace'', rv_Repo := var vars ''repo'',
       rv_Authorization := header_Get r ''Authorization''\<rparr>"

definition unpackbatch ::
  "('s, 'c) App \<Rightarrow> route_vars \<Rightarrow> request \<Rightarrow> RequestVars option list outcome" where
  "unpackbatch a vars r =
     (case app_json a (rq_Body r) of
        None \<Rightarrow> Ok []
      | Some j \<Rightarrow>
          (case decode_batch j of
             (objs, fits) \<Rightarrow>
               if \<not> fits then Ok objs
               else if None \<in> set objs then Panic nil_dereference
               else Ok (map (map_option (fill_batch_vars vars r)) objs)))"

section \<open>Representations\<close>

definition Represent ::
  "Configuration \<Rightarrow> RequestVars \<Rightarrow> MetaObject \<Rightarrow> bool \<Rightarrow> bool \<Rightarrow> Representation" where
  "Represent cfg rv meta download upload =
     (let header = [''Accept'' \<mapsto> contentMediaType];
          header' = (if \<not> IsPublic cfg then header(''Authorization'' \<mapsto> rv_Authorization rv) else header);
          l = \<lparr>Href = ObjectLink cfg rv, Header = header'\<rparr>;
          links = (if download then [''download'' \<mapsto> l] else Map.empty);
          links' = (if upload then links(''upload'' \<mapsto> l) else links)
      in \<lparr>rep_Oid = mo_Oid meta, rep_Size = mo_Size meta, rep_Links = links'\<rparr>)"

text \<open>Encoding; the keys of a map come in order.\<close>

definition json_map :: "bytes list \<Rightarrow> ('a \<Rightarrow> json) \<Rightarrow> (bytes \<rightharpoonup> 'a) \<Rightarrow> json" where
  "json_map ks enc m =
     JObj (concat (map (\<lambda>k. case m k of None \<Rightarrow> [] | Some v \<Rightarrow> [(k, enc v)]) ks))"

definition encode_link :: "link \<Rightarrow> json" where
  "encode_link l =
     (let header = json_map [''Accept'', ''Authorization''] JStr (Header l)
      in JObj ((''href'', JStr (Href l)) # (if header = JObj [] then [] else [(''header'', header)])))"

definition encode_representation :: "Representation \<Rightarrow> json" where
  "encode_representation rep =
     JObj [(''oid'', JStr (rep_Oid rep)), (''size'', JInt (sint (rep_Size rep))),
           (''_links'', json_map [''download'', ''upload''] encode_link (rep_Links rep))]"

text \<open>A nil slice, as \<^verbatim>\<open>responseObjects\<close> is when nothing was appended, encodes as null.\<close>

definition encode_batch :: "Representation list \<Rightarrow> json" where
  "encode_batch reps =
     JObj [(''objects'', if reps = [] then JNull else JArr (map encode_representation reps))]"

section \<open>Handlers\<close>

type_synonym ('s, 'c) handler = "'s \<times> 'c \<Rightarrow> route_vars \<Rightarrow> request \<Rightarrow> ('s \<times> 'c) \<times> reply"

text \<open>The reply to an error of the metadata store, the same in four handlers.\<close>

definition meta_error :: "request \<Rightarrow> GoError \<Rightarrow> reply" where
  "meta_error r e =
     Reply (if isAuthError e then requireAuth fresh_writer r else writeStatus fresh_writer r 404)"

text \<open>
  \<^verbatim>\<open>io.Copy(w, content)\<close>: what was read goes out; a read error ends the copy and is dropped.
\<close>

definition copy_out :: "reader \<Rightarrow> writer \<Rightarrow> writer" where
  "copy_out rd w = (if fst rd = [] then w else w_Write w (Raw (fst rd)))"

definition GetContentHandler :: "('s, 'c) App \<Rightarrow> ('s, 'c) handler" where
  "GetContentHandler a st vars r =
     (case ms_Get (app_metaStore a) (fst st) (unpack a vars r) of
        Err e \<Rightarrow> (st, meta_error r e)
      | Panic e \<Rightarrow> (st, Aborted e)
      | Ok meta \<Rightarrow>
          (case cs_Get (app_contentStore a) (snd st) meta of
             Err _ \<Rightarrow> (st, Reply (writeStatus fresh_writer r 404))
           | Panic e \<Rightarrow> (st, Aborted e)
           | Ok content \<Rightarrow> (st, Reply (copy_out content fresh_writer))))"

definition GetSearchHandler :: "('s, 'c) App \<Rightarrow> ('s, 'c) handler" where
  "GetSearchHandler a st vars r =
     (case ms_Get (app_metaStore a) (fst st) (unpack a vars r) of
        Err e \<Rightarrow> (st, meta_error r e)
      | Panic e \<Rightarrow> (st, Aborted e)
      | Ok meta \<Rightarrow> (st, Reply (writeStatus fresh_writer r 200)))"

definition GetMetaHandler :: "('s, 'c) App \<Rightarrow> ('s, 'c) handler" where
  "GetMetaHandler a st vars r =
     (let rv = unpack a vars r in
      case ms_Get (app_metaStore a) (fst st) rv of
        Err e \<Rightarrow> (st, meta_error r e)
      | Panic e \<Rightarrow> (st, Aborted e)
      | Ok meta \<Rightarrow>
          (let w = Header_Set fresh_writer ''Content-Type'' metaMediaType
           in (st, Reply (if rq_Method r = ''GET''
                          then w_Write w (Json (encode_representation
                                 (Represent (app_Config a) rv meta True False)))
                          else w))))"

definition PostHandler :: "('s, 'c) App \<Rightarrow> ('s, 'c) handler" where
  "PostHandler a st vars r =
     (let rv = unpack a vars r; (s', res) = ms_Put (app_metaStore a) (fst st) rv; st' = (s', snd st) in
      case res of
        Err e \<Rightarrow> (st', meta_error r e)
      | Panic e \<Rightarrow> (st', Aborted e)
      | Ok meta \<Rightarrow>
          (let w = Header_Set fresh_writer ''Content-Type'' metaMediaType;
               sentStatus = (if mo_Existing meta \<and> cs_Exists (app_contentStore a) (snd st) meta
                             then 200 else 202);
               w' = WriteHeader w sentStatus
           in (st', Reply (w_Write w' (Json (encode_representation
                     (Represent (app_Config a) rv meta (mo_Existing meta) True)))))))"

text \<open>
  The loop of \<^verbatim>\<open>BatchHandler\<close>: the representations so far, or the early end at an object
  whose credentials are refused, or a panic.  An error of \<^verbatim>\<open>Put\<close> drops the object silently.
\<close>

datatype batch_result =
    Represented "Representation list"
  | Denied
  | Crashed GoError

fun batch_objects ::
  "Configuration \<Rightarrow> 's GenericMetaStore \<Rightarrow> 's \<Rightarrow> RequestVars option list \<Rightarrow> Representation list \<Rightarrow>
   's \<times> batch_result" where
  "batch_objects cfg ms s [] acc = (s, Represented acc)"
| "batch_objects cfg ms s (None # objs) acc = (s, Crashed nil_dereference)"
| "batch_objects cfg ms s (Some object # objs) acc =
     (case ms_Get ms s object of
        Ok meta \<Rightarrow> batch_objects cfg ms s objs (acc @ [Represent cfg object meta True False])
      | Panic e \<Rightarrow> (s, Crashed e)
      | Err e \<Rightarrow>
          if isAuthError e then (s, Denied)
          else (case ms_Put ms s object of
              (s', Ok meta) \<Rightarrow>
                batch_objects cfg ms s' objs (acc @ [Represent cfg object meta (mo_Existing meta) True])
            | (s', Err _) \<Rightarrow> batch_objects cfg ms s' objs acc
            | (s', Panic e) \<Rightarrow> (s', Crashed e)))"

definition BatchHandler :: "('s, 'c) App \<Rightarrow> ('s, 'c) handler" where
  "BatchHandler a st vars r =
     (case unpackbatch a vars r of
        Panic e \<Rightarrow> (st, Aborted e)
      | Err e \<Rightarrow> (st, Aborted e)
      | Ok objs \<Rightarrow>
          (let (s', res) = batch_objects (app_Config a) (app_metaStore a) (fst st) objs [] in
           ((s', snd st),
            (case res of
               Crashed e \<Rightarrow> Aborted e
             | Denied \<Rightarrow> Reply (requireAuth fresh_writer r)
             | Represented reps \<Rightarrow>
                 Reply (w_Write (Header_Set fresh_writer ''Content-Type'' metaMediaType)
                   (Json (encode_batch reps)))))))"

definition PutHandler :: "('s, 'c) App \<Rightarrow> ('s, 'c) handler" where
  "PutHandler a st vars r =
     (case ms_Get (app_metaStore a) (fst st) (unpack a vars r) of
        Err e \<Rightarrow> (st, meta_error r e)
      | Panic e \<Rightarrow> (st, Aborted e)
      | Ok meta \<Rightarrow>
          (let (c', res) = cs_Put (app_contentStore a) (snd st) meta (rq_Body r) in
           ((fst st, c'),
            (case res of
               Ok _ \<Rightarrow> Reply fresh_writer
             | Err e \<Rightarrow> Reply (w_Write (WriteHeader fresh_writer 500)
                          (Raw (''{\"message\":\"'' @ Error e @ ''\"}'')))
             | Panic e \<Rightarrow> Aborted e))))"

section \<open>Routes\<close>

text \<open>
  The routes of \<^verbatim>\<open>NewApp\<close> in the order in which they are registered, which is the order in
  which the router tries them.  How a template matches a path is the router's business and
  a parameter, \<open>mux\<close>.
\<close>

datatype endpoint = Batch | GetContent | GetMeta | Search | PutContent | Post

record route =
  rt_Template :: bytes
  rt_Methods :: "bytes list"
  rt_Matcher :: "request \<Rightarrow> bool"
  rt_Endpoint :: endpoint

definition object_route :: bytes where "object_route = ''/{namespace}/{repo}/objects/{oid}''"

definition api_routes :: "route list" where
  "api_routes =
     [\<lparr>rt_Template = ''/{namespace}/{repo}/objects/batch'', rt_Methods = [''POST''],
        rt_Matcher = MetaMatcher, rt_Endpoint = Batch\<rparr>,
      \<lparr>rt_Template = object_route, rt_Methods = [''GET'', ''HEAD''], rt_Matcher = ContentMatcher,
        rt_Endpoint = GetContent\<rparr>,
      \<lparr>rt_Template = object_route, rt_Methods = [''GET'', ''HEAD''], rt_Matcher = MetaMatcher,
        rt_Endpoint = GetMeta\<rparr>,
      \<lparr>rt_Template = ''/search/{oid}'', rt_Methods = [''GET''], rt_Matcher = (\<lambda>_. True),
        rt_Endpoint = Search\<rparr>,
      \<lparr>rt_Template = object_route, rt_Methods = [''PUT''], rt_Matcher = ContentMatcher,
        rt_Endpoint = PutContent\<rparr>,
      \<lparr>rt_Template = ''/{namespace}/{repo}/objects'', rt_Methods = [''POST''],
        rt_Matcher = MetaMatcher, rt_Endpoint = Post\<rparr>]"

type_synonym mux = "bytes \<Rightarrow> bytes \<Rightarrow> route_vars option"

definition route_matches :: "mux \<Rightarrow> request \<Rightarrow> route \<Rightarrow> bool" where
  "route_matches mux r rt \<longleftrightarrow>
     rq_Method r \<in> set (rt_Methods rt) \<and> rt_Matcher rt r \<and> mux (rt_Template rt) (rq_Path r) \<noteq> None"

definition find_route :: "mux \<Rightarrow> request \<Rightarrow> (endpoint \<times> route_vars) option" where
  "find_route mux r =
     (case filter (route_matches mux r) api_routes of
        [] \<Rightarrow> None
      | rt # _ \<Rightarrow> Some (rt_Endpoint rt, the (mux (rt_Template rt) (rq_Path r))))"

fun handler_of :: "endpoint \<Rightarrow> ('s, 'c) App \<Rightarrow> ('s, 'c) handler" where
  "handler_of Batch a = BatchHandler a"
| "handler_of GetContent a = GetContentHandler a"
| "handler_of GetMeta a = GetMetaHandler a"
| "handler_of Search a = GetSearchHandler a"
| "handler_of PutContent a = PutHandler a"
| "handler_of Post a = PostHandler a"

text \<open>
  \<^verbatim>\<open>ServeHTTP\<close>: the first route that matches serves the request.  What none of these routes
  matches goes on to the routes that \<^verbatim>\<open>addMgmt\<close> registers after them, here \<open>rest\<close>.
\<close>

definition ServeHTTP ::
  "('s, 'c) App \<Rightarrow> ('s \<times> 'c \<Rightarrow> request \<Rightarrow> ('s \<times> 'c) \<times> reply) \<Rightarrow> mux \<Rightarrow> 's \<times> 'c \<Rightarrow> request \<Rightarrow>
   ('s \<times> 'c) \<times> reply" where
  "ServeHTTP a rest mux st r =
     (case find_route mux r of
        None \<Rightarrow> rest st r
      | Some (e, vars) \<Rightarrow> handler_of e a st vars r)"

section \<open>Lemmas\<close>

lemma unpack_authorization [simp]:
  "rv_Authorization (unpack a vars r) = header_Get r ''Authorization''"
  by (simp add: unpack_def Let_def split: option.splits prod.splits)

lemma unpack_oid: "rq_Method r \<noteq> ''POST'' \<Longrightarrow> rv_Oid (unpack a vars r) = var vars ''oid''"
  by (simp add: unpack_def)

lemma unpack_post:
  assumes "rq_Method r = ''POST''" and "app_json a (rq_Body r) = Some j" and "decode_vars j zero_vars = (p, True)"
  shows "rv_Oid (unpack a vars r) = rv_Oid p" and "rv_Size (unpack a vars r) = rv_Size p"
  using assms by (simp_all add: unpack_def)

lemma meta_error_status:
  "meta_error r e = Reply w \<Longrightarrow> final_status w = (if e = AuthError then 401 else 404)"
  by (auto simp: meta_error_def)

lemma copy_out_simps [simp]:
  "final_status (copy_out rd fresh_writer) = 200"
  "w_Body (copy_out rd fresh_writer) = (if fst rd = [] then [] else [Raw (fst rd)])"
  by (simp_all add: copy_out_def http_simps Let_def)

lemma Represent_links:
  "rep_Links (Represent cfg rv m d u) ''download'' = None \<longleftrightarrow> \<not> d"
  "rep_Links (Represent cfg rv m d u) ''upload'' = None \<longleftrightarrow> \<not> u"
  by (simp_all add: Represent_def Let_def)

lemma Represent_simps [simp]:
  "rep_Oid (Represent cfg rv m d u) = mo_Oid m" "rep_Size (Represent cfg rv m d u) = mo_Size m"
  by (simp_all add: Represent_def Let_def)

text \<open>
  What a batch reply says of an object: it is one of those asked for, the store knows it
  afterwards, and if the store knew it before the only link is for the download.
\<close>

definition offered ::
  "(bytes \<rightharpoonup> MetaObject) \<Rightarrow> (bytes \<rightharpoonup> MetaObject) \<Rightarrow> RequestVars option list \<Rightarrow> Representation \<Rightarrow> bool" where
  "offered before after ps rep \<longleftrightarrow>
     (\<exists>p. Some p \<in> set ps \<and> rep_Oid rep = rv_Oid p) \<and> after (rep_Oid rep) \<noteq> None \<and>
     (before (rep_Oid rep) \<noteq> None \<longrightarrow>
        rep_Links rep ''upload'' = None \<and> rep_Links rep ''download'' \<noteq> None)"

lemma offered_Cons: "offered before after ps rep \<Longrightarrow> offered before after (p # ps) rep"
  by (auto simp: offered_def)

lemma offered_before:
  "offered mid after ps rep \<Longrightarrow> (\<And>oid. before oid \<noteq> None \<Longrightarrow> mid oid \<noteq> None) \<Longrightarrow>
   offered before after ps rep"
  unfolding offered_def by blast

text \<open>
  Every content has been announced: the metadata knows its OID, its length and its hash.
\<close>

definition announced ::
  "('s \<Rightarrow> bytes \<rightharpoonup> MetaObject) \<Rightarrow> ('c \<Rightarrow> bytes \<rightharpoonup> bytes) \<Rightarrow> 's \<times> 'c \<Rightarrow> bool" where
  "announced objs held st \<longleftrightarrow>
     (\<forall>oid b. held (snd st) oid = Some b \<longrightarrow> (\<exists>m. objs (fst st) oid = Some m \<and> matches_meta m b))"

text \<open>
  What every request, answered or aborted, makes of the two stores: both stay well-formed,
  contents go on matching their OIDs and having been announced, and no object and no content
  is lost.
\<close>

definition good_step ::
  "('s \<Rightarrow> bool) \<Rightarrow> ('s \<Rightarrow> bytes \<rightharpoonup> MetaObject) \<Rightarrow> ('c \<Rightarrow> bool) \<Rightarrow>
   ('c \<Rightarrow> bytes \<rightharpoonup> bytes) \<Rightarrow> 's \<times> 'c \<Rightarrow> 's \<times> 'c \<Rightarrow> bool" where
  "good_step iv objs ok held st st' \<longleftrightarrow>
     iv (fst st') \<and> ok (snd st') \<and>
     ((\<forall>oid b. held (snd st) oid = Some b \<longrightarrow> oid_of b = oid) \<longrightarrow>
        (\<forall>oid b. held (snd st') oid = Some b \<longrightarrow> oid_of b = oid)) \<and>
     (announced objs held st \<longrightarrow> announced objs held st') \<and>
     (\<forall>oid m. objs (fst st) oid = Some m \<longrightarrow> objs (fst st') oid = Some m) \<and>
     (\<forall>oid. held (snd st) oid \<noteq> None \<longrightarrow> held (snd st') oid \<noteq> None)"

lemma good_step_refl: "iv (fst st) \<Longrightarrow> ok (snd st) \<Longrightarrow> good_step iv objs ok held st st"
  by (simp add: good_step_def)

lemma good_stepI:
  assumes "iv (fst st')" and "ok (snd st')"
    and "\<And>oid b. (\<And>oid b. held (snd st) oid = Some b \<Longrightarrow> oid_of b = oid) \<Longrightarrow>
      held (snd st') oid = Some b \<Longrightarrow> oid_of b = oid"
    and "announced objs held st \<Longrightarrow> announced objs held st'"
    and "\<And>oid m. objs (fst st) oid = Some m \<Longrightarrow> objs (fst st') oid = Some m"
    and "\<And>oid. held (snd st) oid \<noteq> None \<Longrightarrow> held (snd st') oid \<noteq> None"
  shows "good_step iv objs ok held st st'"
  unfolding good_step_def using assms by blast

lemma good_stepD:
  assumes "good_step iv objs ok held st st'"
  shows "iv (fst st')" and "ok (snd st')"
    and "(\<And>oid b. held (snd st) oid = Some b \<Longrightarrow> oid_of b = oid) \<Longrightarrow>
      held (snd st') oid = Some b \<Longrightarrow> oid_of b = oid"
    and "announced objs held st \<Longrightarrow> announced objs held st'"
    and "objs (fst st) oid = Some m \<Longrightarrow> objs (fst st') oid = Some m"
    and "held (snd st) oid \<noteq> None \<Longrightarrow> held (snd st') oid \<noteq> None"
  using assms unfolding good_step_def by blast+

lemma good_step_trans:
  assumes "good_step iv objs ok held st st1" and "good_step iv objs ok held st1 st2"
  shows "good_step iv objs ok held st st2"
proof (rule good_stepI)
  note d1 = good_stepD [OF assms(1)] and d2 = good_stepD [OF assms(2)]
  show "iv (fst st2)" "ok (snd st2)" by (fact d2(1,2))+
  show "objs (fst st2) oid = Some m" if "objs (fst st) oid = Some m" for oid m
    using d1(5) d2(5) that by blast
  show "held (snd st2) oid \<noteq> None" if "held (snd st) oid \<noteq> None" for oid
    using d1(6) d2(6) that by blast
  show "announced objs held st2" if "announced objs held st"
    using d2(4) [OF d1(4) [OF that]] .
  show "oid_of b = oid"
    if "\<And>oid b. held (snd st) oid = Some b \<Longrightarrow> oid_of b = oid" "held (snd st2) oid = Some b" for oid b
    using d2(3) [OF d1(3) [OF that(1)] that(2)] .
qed

text \<open>A step that leaves the contents alone and loses no object.\<close>

lemma good_step_meta:
  assumes "iv s'" and "ok c" and "\<And>oid m. objs s oid = Some m \<Longrightarrow> objs s' oid = Some m"
  shows "good_step iv objs ok held (s, c) (s', c)"
  using assms unfolding good_step_def announced_def fst_conv snd_conv by blast

section \<open>The laws of the handlers\<close>

locale lfs_core =
  ledger_store "app_metaStore a" inv auth objs same + content_store "app_contentStore a" ok held
  for a :: "('s, 'c) App" and inv auth objs same ok held
begin

text \<open>The batch loop: what it does to the metadata.\<close>

lemma batch_frame:
  "inv s \<Longrightarrow> batch_objects cfg (app_metaStore a) s ps acc = (s', res) \<Longrightarrow>
   inv s' \<and> auth s' = auth s \<and> (\<forall>oid m. objs s oid = Some m \<longrightarrow> objs s' oid = Some m)"
proof (induction cfg "app_metaStore a" s ps acc rule: batch_objects.induct)
  case (3 cfg s p ps acc)
  show ?case
  proof (cases "ms_Get (app_metaStore a) s p")
    case (Ok m)
    then show ?thesis using 3 by simp
  next
    case (Panic e)
    then show ?thesis using 3 by auto
  next
    case (Err e)
    obtain s1 r1 where put: "ms_Put (app_metaStore a) s p = (s1, r1)" by fastforce
    note frame = put_inv [OF 3(4) put] put_auth [OF 3(4) put] put_monotone [OF 3(4) put]
    show ?thesis
      using 3 Err put frame by (cases r1; cases "e = AuthError") auto
  qed
qed simp_all

lemma reading_handlers:
  assumes "e \<in> {GetContent, GetMeta, Search}" and "handler_of e a (s, c) vars r = ((s', c'), rep)"
  shows "s' = s \<and> c' = c"
  using assms
  by (auto simp: GetContentHandler_def GetMetaHandler_def GetSearchHandler_def Let_def split: outcome.splits)

lemma put_step:
  assumes "inv s" and "ok c" and "PutHandler a (s, c) vars r = ((s', c'), rep)"
    and "routable (rv_Oid (unpack a vars r))"
  shows "good_step inv objs ok held (s, c) (s', c')"
proof (cases "ms_Get (app_metaStore a) s (unpack a vars r)")
  case (Ok m)
  have known: "objs s (mo_Oid m) = Some m" and rt: "routable (mo_Oid m)"
    using get_entry [OF assms(1) Ok] same_routable [OF assms(1)] assms(4) by blast+
  obtain res where cp: "cs_Put (app_contentStore a) c m (rq_Body r) = (c', res)" and s: "s' = s"
    using assms(3) Ok by (auto simp: PutHandler_def split: prod.splits)
  have kept: "\<And>oid. held c oid \<noteq> None \<Longrightarrow> held c' oid \<noteq> None"
    by (rule put_monotone_content [OF assms(2) cp])
  show ?thesis
  proof (rule good_stepI, unfold fst_conv snd_conv s)
    show "oid_of b = oid" if "\<And>oid b. held c oid = Some b \<Longrightarrow> oid_of b = oid" "held c' oid = Some b" for oid b
      using put_sound [OF assms(2) _ cp] that unfolding sound_def by blast
    show "announced objs held (s, c')" if "announced objs held (s, c)"
      using that put_frame [OF assms(2), of m "fst (rq_Body r)" "snd (rq_Body r)" c' res] cp known
      by (auto simp: announced_def split: if_splits)
  qed (fact assms(1), fact put_keeps [OF assms(2) rt cp], assumption, fact kept)
qed (use assms in \<open>auto simp: PutHandler_def good_step_refl\<close>)

lemma post_step:
  assumes "inv s" and "ok c" and "PostHandler a (s, c) vars r = ((s', c'), rep)"
  shows "good_step inv objs ok held (s, c) (s', c')"
proof -
  obtain s1 res where mp: "ms_Put (app_metaStore a) s (unpack a vars r) = (s1, res)" by fastforce
  then have "s' = s1" "c' = c" using assms(3) by (auto simp: PostHandler_def Let_def split: outcome.splits)
  then show ?thesis
    using put_inv [OF assms(1) mp] put_monotone [OF assms(1) mp] assms(2)
    by (simp add: good_step_meta)
qed

lemma batch_step:
  assumes "inv s" and "ok c" and "BatchHandler a (s, c) vars r = ((s', c'), rep)"
  shows "good_step inv objs ok held (s, c) (s', c')"
proof (cases "unpackbatch a vars r")
  case (Ok ps)
  obtain s1 res where run: "batch_objects (app_Config a) (app_metaStore a) s ps [] = (s1, res)" by fastforce
  then have "s' = s1" "c' = c" using assms(3) Ok by (auto simp: BatchHandler_def)
  then show ?thesis using batch_frame [OF assms(1) run] assms(2) by (simp add: good_step_meta)
qed (use assms in \<open>auto simp: BatchHandler_def good_step_refl\<close>)

lemma handler_step:
  assumes "inv s" and "ok c" and "handler_of e a (s, c) vars r = ((s', c'), rep)"
    and "e = PutContent \<Longrightarrow> routable (rv_Oid (unpack a vars r))"
  shows "good_step inv objs ok held (s, c) (s', c')"
proof (cases "e \<in> {GetContent, GetMeta, Search}")
  case True
  then have "s' = s" "c' = c" using reading_handlers [OF _ assms(3)] by blast+
  then show ?thesis using assms(1,2) by (simp add: good_step_refl)
next
  case False
  then consider "e = Batch" | "e = Post" | "e = PutContent" by (cases e) auto
  then show ?thesis
  proof cases
    case 1
    with assms(3) show ?thesis by (intro batch_step [OF assms(1,2)]) simp
  next
    case 2
    with assms(3) show ?thesis by (intro post_step [OF assms(1,2)]) simp
  next
    case 3
    with assms(3,4) show ?thesis by (intro put_step [OF assms(1,2)]) simp_all
  qed
qed

end

text \<open>What the handlers answer, over a store that keeps the whole contract.\<close>

locale lfs_app =
  lfs_core a inv auth objs "(=)" ok held + meta_store "app_metaStore a" inv auth objs
  for a :: "('s, 'c) App" and inv auth objs ok held
begin

lemma refused:
  assumes "auth s (header_Get r ''Authorization'') = Ok False"
  shows "GetContentHandler a (s, c) vars r = ((s, c), Reply (requireAuth fresh_writer r))"
    and "GetSearchHandler a (s, c) vars r = ((s, c), Reply (requireAuth fresh_writer r))"
    and "GetMetaHandler a (s, c) vars r = ((s, c), Reply (requireAuth fresh_writer r))"
    and "PutHandler a (s, c) vars r = ((s, c), Reply (requireAuth fresh_writer r))"
    and "PostHandler a (s, c) vars r = ((s, c), Reply (requireAuth fresh_writer r))"
  using assms get_denied [of s "unpack a vars r"] put_denied [of s "unpack a vars r"]
  by (simp_all add: GetContentHandler_def GetSearchHandler_def GetMetaHandler_def PutHandler_def
      PostHandler_def meta_error_def)

lemma authorised_Get:
  assumes "inv s" and "auth s (header_Get r ''Authorization'') = Ok True"
  shows "objs s (rv_Oid (unpack a vars r)) = Some m \<Longrightarrow> ms_Get (app_metaStore a) s (unpack a vars r) = Ok m"
    and "objs s (rv_Oid (unpack a vars r)) = None \<Longrightarrow>
      \<exists>e. ms_Get (app_metaStore a) s (unpack a vars r) = Err e \<and> e \<noteq> AuthError"
  using assms get_found get_missing by simp_all

text \<open>A \<^verbatim>\<open>PUT\<close> answered with 200 stored its body; any other answer stored nothing.\<close>

lemma put_cases:
  assumes "inv s" and "ok c" and "PutHandler a (s, c) vars r = ((s', c'), Reply w)"
  obtains (stored) m where "s' = s" "objs s (rv_Oid (unpack a vars r)) = Some m" "final_status w = 200"
      "auth s (header_Get r ''Authorization'') = Ok True"
      "cs_Put (app_contentStore a) c m (rq_Body r) = (c', Ok ())"
      "matches_meta m (fst (rq_Body r))" "mo_Oid m = rv_Oid (unpack a vars r)"
      "held c' = (held c)(mo_Oid m \<mapsto> fst (rq_Body r))" "ok c'"
    | (rejected) m e where "s' = s" "objs s (rv_Oid (unpack a vars r)) = Some m" "final_status w = 500"
      "cs_Put (app_contentStore a) c m (rq_Body r) = (c', Err e)"
      "w_Body w = [Raw (''{\"message\":\"'' @ Error e @ ''\"}'')]"
    | (missing) "s' = s" "c' = c" "objs s (rv_Oid (unpack a vars r)) = None" "final_status w = 404"
    | (denied) "s' = s" "c' = c" "auth s (header_Get r ''Authorization'') = Ok False" "final_status w = 401"
proof (cases rule: get_cases [OF assms(1), of "unpack a vars r"])
  case (1 m)
  obtain c1 res where cp: "cs_Put (app_contentStore a) c m (rq_Body r) = (c1, res)" by fastforce
  show thesis
  proof (cases res)
    case (Ok u)
    have res: "c' = c1" "s' = s" "final_status w = 200"
      using assms(3) 1 cp Ok by (auto simp: PutHandler_def fresh_writer_def final_status_def)
    have "cs_Put (app_contentStore a) c m (fst (rq_Body r), snd (rq_Body r)) = (c1, Ok ())"
      using cp Ok by simp
    note p = put_ok [OF assms(2) this]
    have "ok c1"
      using put_keeps [OF assms(2) _ cp] p oid_of_routable [of "fst (rq_Body r)"] by (simp add: matches_meta_def)
    then show thesis
      using stored [of m] res 1 cp Ok p entry_oid [OF assms(1) 1(2)] by simp
  next
    case (Err e)
    have "c' = c1" "s' = s" "final_status w = 500" "w_Body w = [Raw (''{\"message\":\"'' @ Error e @ ''\"}'')]"
      using assms(3) 1 cp Err by (auto simp: PutHandler_def http_simps Let_def)
    then show thesis using rejected [of m e] 1 cp Err by simp
  next
    case (Panic e)
    then show thesis using assms(3) 1 cp by (simp add: PutHandler_def)
  qed
next
  case (2 e)
  then show thesis using assms(3) by (intro missing) (auto simp: PutHandler_def meta_error_def)
next
  case 3
  then show thesis
    using assms(3) by (intro denied) (auto simp: PutHandler_def meta_error_def)
next
  case (4 e)
  then show thesis using assms(3) by (simp add: PutHandler_def)
qed

text \<open>What a download returns, when the store holds the content.\<close>

lemma download_held:
  assumes "inv s" and "ok c" and "auth s (header_Get r ''Authorization'') = Ok True"
    and "objs s (rv_Oid (unpack a vars r)) = Some m" and "held c (mo_Oid m) = Some b"
  shows "GetContentHandler a (s, c) vars r = ((s, c), Reply (copy_out (b, None) fresh_writer))"
  using authorised_Get(1) [OF assms(1,3,4)] get_held [OF assms(2,5)] by (simp add: GetContentHandler_def)

lemma download_absent:
  assumes "inv s" and "ok c" and "auth s (header_Get r ''Authorization'') = Ok True"
    and "objs s (rv_Oid (unpack a vars r)) = Some m" and "held c (mo_Oid m) = None" and "mo_Oid m = oid_of b"
  shows "GetContentHandler a (s, c) vars r = ((s, c), Reply (writeStatus fresh_writer r 404))"
proof -
  obtain e where "cs_Get (app_contentStore a) c m = Err e" using get_absent [OF assms(2,5,6)] by blast
  then show ?thesis
    using authorised_Get(1) [OF assms(1,3,4)] by (simp add: GetContentHandler_def)
qed

lemma put_then_download:
  assumes "inv s" and "ok c" and put: "PutHandler a (s, c) vars r = ((s', c'), Reply w)" and "final_status w = 200"
    and "rv_Oid (unpack a vars' r') = rv_Oid (unpack a vars r)"
    and "auth s (header_Get r' ''Authorization'') = Ok True"
  shows "GetContentHandler a (s', c') vars' r' = ((s', c'), Reply (copy_out (fst (rq_Body r), None) fresh_writer)) \<and>
    oid_of (fst (rq_Body r)) = rv_Oid (unpack a vars r)"
  using put
proof (cases rule: put_cases [OF assms(1,2) put])
  case (1 m)
  then show ?thesis
    using download_held [of s c' r' vars' m "fst (rq_Body r)"] assms(1,5,6)
    by (simp add: matches_meta_def)
qed (use assms(4) in simp_all)

text \<open>The announcement of an object, on an authorised request.\<close>

lemma post_known:
  assumes "inv s" and "auth s (header_Get r ''Authorization'') = Ok True"
    and "objs s (rv_Oid (unpack a vars r)) = Some m"
  shows "PostHandler a (s, c) vars r = ((s, c), Reply (w_Write
    (WriteHeader (Header_Set fresh_writer ''Content-Type'' metaMediaType)
      (if cs_Exists (app_contentStore a) c (m\<lparr>mo_Existing := True\<rparr>) then 200 else 202))
    (Json (encode_representation (Represent (app_Config a) (unpack a vars r) (m\<lparr>mo_Existing := True\<rparr>) True True)))))"
  using put_found [OF assms(1) _ assms(3)] assms(2) by (simp add: PostHandler_def Let_def)

lemma post_new:
  assumes "inv s" and "auth s (header_Get r ''Authorization'') = Ok True"
    and "objs s (rv_Oid (unpack a vars r)) = None"
    and "PostHandler a (s, c) vars r = ((s', c'), Reply w)"
  obtains (created) m m' where "c' = c" "inv s'" "final_status w = 202" "entry_for (unpack a vars r) m"
      "entry_for (unpack a vars r) m'" "objs s' = (objs s)(rv_Oid (unpack a vars r) \<mapsto> m')"
      "w_Body w = [Json (encode_representation (Represent (app_Config a) (unpack a vars r) m False True))]"
    | (failed) "c' = c" "inv s'" "final_status w = 404"
proof -
  obtain s1 res where mp: "ms_Put (app_metaStore a) s (unpack a vars r) = (s1, res)" by fastforce
  have inv1: "inv s1" by (rule put_inv [OF assms(1) mp])
  show thesis
  proof (cases res)
    case (Ok m)
    have auth: "auth s (rv_Authorization (unpack a vars r)) = Ok True" using assms(2) by simp
    note new = put_new [OF assms(1) auth assms(3) mp [unfolded Ok]]
    then have "\<not> mo_Existing m" by (simp add: entry_for_def)
    then have "s' = s1" "c' = c" "final_status w = 202"
        "w_Body w = [Json (encode_representation (Represent (app_Config a) (unpack a vars r) m False True))]"
      using assms(4) mp Ok by (auto simp: PostHandler_def http_simps Let_def)
    then show thesis using created new inv1 by blast
  next
    case (Err e)
    then have "e \<noteq> AuthError" using put_new_err [OF assms(1) _ mp [unfolded Err]] assms(2) by simp
    then show thesis using assms(4) mp Err inv1 by (intro failed) (auto simp: PostHandler_def meta_error_def)
  next
    case (Panic e)
    then show thesis using assms(4) mp by (simp add: PostHandler_def)
  qed
qed

text \<open>The batch loop: what it represents.\<close>

lemma batch_known:
  assumes "inv s" and "auth s (rv_Authorization p) = Ok True" and "objs s (rv_Oid p) = Some m"
  shows "batch_objects cfg (app_metaStore a) s (Some p # ps) acc =
    batch_objects cfg (app_metaStore a) s ps (acc @ [Represent cfg p m True False])"
  using get_found [OF assms] by simp

lemma batch_represented:
  "inv s \<Longrightarrow> batch_objects cfg (app_metaStore a) s ps acc = (s', Represented reps) \<Longrightarrow>
   \<exists>new. reps = acc @ new \<and> length new \<le> length ps \<and>
     (\<forall>rep \<in> set new. offered (objs s) (objs s') ps rep)"
proof (induction cfg "app_metaStore a" s ps acc rule: batch_objects.induct)
  case (3 cfg s p ps acc)
  note inv = 3(4)
  show ?case
  proof (cases rule: get_cases [OF inv, of p])
    case (1 m)
    then have oid: "mo_Oid m = rv_Oid p" using entry_oid [OF inv] by blast
    let ?rep = "Represent cfg p m True False"
    from 1 3(5) have run: "batch_objects cfg (app_metaStore a) s ps (acc @ [?rep]) = (s', Represented reps)"
      by simp
    from 3(1) [OF 1(3) inv run] obtain new where new: "reps = (acc @ [?rep]) @ new" "length new \<le> length ps"
      "\<forall>rep \<in> set new. offered (objs s) (objs s') ps rep" by blast
    have "offered (objs s) (objs s') (Some p # ps) ?rep"
      using batch_frame [OF inv run] 1(2) oid by (auto simp: offered_def Represent_links)
    with new show ?thesis by (intro exI [of _ "?rep # new"]) (simp add: offered_Cons)
  next
    case (2 e)
    obtain s1 r1 where put: "ms_Put (app_metaStore a) s p = (s1, r1)" by fastforce
    have inv1: "inv s1" and mono: "\<And>oid. objs s oid \<noteq> None \<Longrightarrow> objs s1 oid \<noteq> None"
      using put_inv [OF inv put] put_monotone [OF inv put] by blast+
    have noauth: "\<not> isAuthError e" using 2(4) by simp
    show ?thesis
    proof (cases r1)
      case (Ok m)
      let ?rep = "Represent cfg p m (mo_Existing m) True"
      from put_new [OF inv 2(1,2) put [unfolded Ok]] obtain m' where
        e: "entry_for p m" and o: "objs s1 = (objs s)(rv_Oid p \<mapsto> m')" by blast
      from 2 3(5) put Ok have run: "batch_objects cfg (app_metaStore a) s1 ps (acc @ [?rep]) = (s', Represented reps)"
        by simp
      from 3(2) [OF 2(3) noauth put [symmetric] Ok inv1 run] obtain new where
        new: "reps = (acc @ [?rep]) @ new" "length new \<le> length ps"
          "\<forall>rep \<in> set new. offered (objs s1) (objs s') ps rep" by blast
      have "objs s' (rv_Oid p) \<noteq> None" using batch_frame [OF inv1 run] o by auto
      then have "offered (objs s) (objs s') (Some p # ps) ?rep"
        using 2(2) e by (auto simp: entry_for_def offered_def)
      then show ?thesis
        using new offered_before [OF _ mono] by (intro exI [of _ "?rep # new"]) (auto simp: offered_Cons)
    next
      case (Err e1)
      from 2 3(5) put Err have run: "batch_objects cfg (app_metaStore a) s1 ps acc = (s', Represented reps)"
        by simp
      from 3(3) [OF 2(3) noauth put [symmetric] Err inv1 run] obtain new where
        new: "reps = acc @ new" "length new \<le> length ps" "\<forall>rep \<in> set new. offered (objs s1) (objs s') ps rep"
        by blast
      then show ?thesis
        using offered_before [OF _ mono] by (intro exI [of _ new]) (auto simp: offered_Cons)
    next
      case (Panic e1)
      with 2 3(5) put show ?thesis by simp
    qed
  qed (use 3(5) in simp_all)
qed simp_all

text \<open>One unknown object, or one known whose content is missing: what batch offers.\<close>

lemma batch_handler_one:
  assumes "inv s" and "auth s (header_Get r ''Authorization'') = Ok True"
    and "unpackbatch a vars r = Ok [Some p]" and "rv_Authorization p = header_Get r ''Authorization''"
    and "objs s (rv_Oid p) = Some m"
  shows "BatchHandler a (s, c) vars r = ((s, c), Reply (w_Write
    (Header_Set fresh_writer ''Content-Type'' metaMediaType)
    (Json (encode_batch [Represent (app_Config a) p m True False]))))"
  using batch_known [OF assms(1) _ assms(5), of "app_Config a" "[]" "[]"] assms(2-4)
  by (simp add: BatchHandler_def)

end

text \<open>The router's part: a route variable matches no separator.\<close>

definition mux_law :: "mux \<Rightarrow> bool" where
  "mux_law mux \<longleftrightarrow> (\<forall>t p v k x. mux t p = Some v \<longrightarrow> v k = Some x \<longrightarrow> CHR ''/'' \<notin> set x)"

lemma mux_law_routable: "mux_law mux \<Longrightarrow> mux t p = Some v \<Longrightarrow> routable (var v k)"
  unfolding mux_law_def routable_def var_def by (auto split: option.splits)

lemma find_route_sound:
  assumes "find_route mux r = Some (e, v)"
  obtains rt where "rt \<in> set api_routes" "route_matches mux r rt" "e = rt_Endpoint rt"
    "mux (rt_Template rt) (rq_Path r) = Some v"
proof (cases "filter (route_matches mux r) api_routes")
  case (Cons rt rts)
  then have "rt \<in> set (filter (route_matches mux r) api_routes)" by simp
  then have "rt \<in> set api_routes" "route_matches mux r rt" by auto
  then show thesis
    using that [of rt] assms Cons by (auto simp: find_route_def route_matches_def)
qed (use assms in \<open>simp add: find_route_def\<close>)

text \<open>Only the account operations may change who can log in, and no request of the API makes one.\<close>

definition same_accounts :: "('s \<Rightarrow> bytes \<Rightarrow> bool outcome) \<Rightarrow> 's \<times> 'c \<Rightarrow> 's \<times> 'c \<Rightarrow> bool" where
  "same_accounts auth st st' \<longleftrightarrow> auth (fst st') = auth (fst st)"

context lfs_core
begin

lemma handler_accounts:
  assumes "inv s" and "handler_of e a (s, c) vars r = ((s', c'), rep)"
  shows "same_accounts auth (s, c) (s', c')"
proof (cases e)
  case Post
  obtain s1 res where mp: "ms_Put (app_metaStore a) s (unpack a vars r) = (s1, res)" by fastforce
  then have "s' = s1" using assms(2) Post by (auto simp: PostHandler_def Let_def split: outcome.splits)
  then show ?thesis using put_auth [OF assms(1) mp] by (simp add: same_accounts_def)
next
  case Batch
  show ?thesis
  proof (cases "unpackbatch a vars r")
    case (Ok ps)
    obtain s1 res where run: "batch_objects (app_Config a) (app_metaStore a) s ps [] = (s1, res)" by fastforce
    then have "s' = s1" using assms(2) Ok Batch by (auto simp: BatchHandler_def)
    then show ?thesis using batch_frame [OF assms(1) run] by (simp add: same_accounts_def)
  qed (use assms Batch in \<open>auto simp: BatchHandler_def same_accounts_def\<close>)
next
  case PutContent
  then have "s' = s" using assms(2) by (auto simp: PutHandler_def split: outcome.splits prod.splits)
  then show ?thesis by (simp add: same_accounts_def)
qed (use reading_handlers [of e s c vars r s' c' rep] assms(2) in \<open>simp_all add: same_accounts_def\<close>)

lemma serve_api:
  assumes "inv s" and "ok c" and "mux_law mux" and "find_route mux r = Some (e, v)"
    and "handler_of e a (s, c) v r = ((s', c'), rep)"
  shows "good_step inv objs ok held (s, c) (s', c')"
proof -
  obtain rt where rt: "rt \<in> set api_routes" "route_matches mux r rt" "e = rt_Endpoint rt"
      "mux (rt_Template rt) (rq_Path r) = Some v"
    by (rule find_route_sound [OF assms(4)])
  have "routable (rv_Oid (unpack a v r))" if "e = PutContent"
  proof -
    have "rq_Method r = ''PUT''"
      using rt(1-3) that by (auto simp: api_routes_def route_matches_def)
    then show ?thesis using mux_law_routable [OF assms(3) rt(4)] by (simp add: unpack_oid)
  qed
  then show ?thesis using handler_step [OF assms(1,2,5)] by simp
qed

text \<open>The step of a whole request, given what the other routes do.\<close>

lemma serve_step:
  assumes "inv s" and "ok c" and "mux_law mux"
    and "rest (s, c) r = ((s', c'), rep) \<Longrightarrow> good_step inv objs ok held (s, c) (s', c')"
    and "ServeHTTP a rest mux (s, c) r = ((s', c'), rep)"
  shows "good_step inv objs ok held (s, c) (s', c')"
  using assms serve_api [OF assms(1-3)] by (auto simp: ServeHTTP_def split: option.splits prod.splits)

lemma serve_accounts:
  assumes "inv s"
    and "rest (s, c) r = ((s', c'), rep) \<Longrightarrow> same_accounts auth (s, c) (s', c')"
    and "ServeHTTP a rest mux (s, c) r = ((s', c'), rep)"
  shows "same_accounts auth (s, c) (s', c')"
  using assms handler_accounts [OF assms(1)] by (auto simp: ServeHTTP_def split: option.splits prod.splits)

end

end
