(* ===== verification/Mgmt.thy ===== *)
theory Mgmt
  imports Server Ldap_Auth
begin

text \<open>
  \<^verbatim>\<open>mgmt.go\<close>: the management pages behind HTTP Basic authentication.  The form and query
  parsers of \<^verbatim>\<open>net/http\<close>, the templates with their engine, the embedded assets and the
  second opening of the metadata store are parameters.
\<close>

section \<open>Parameters\<close>

record page_data =
  pd_Name :: bytes
  pd_Config :: "Configuration option"
  pd_ConfigDump :: "json option"
  pd_Users :: "MetaUser list"
  pd_Objects :: "MetaObject list"
  pd_Projects :: "MetaProject list"

definition empty_page :: "bytes \<Rightarrow> page_data" where
  "empty_page nm =
     \<lparr>pd_Name = nm, pd_Config = None, pd_ConfigDump = None, pd_Users = [], pd_Objects = [],
      pd_Projects = []\<rparr>"

text \<open>
  \<open>mg_FormValue\<close> and \<open>mg_Query\<close> yield the first value of a form or query field, \<open>mg_Template\<close>
  the text of a template, \<open>mg_Parse\<close> the error of parsing one, \<open>mg_Execute\<close> what the
  executed template writes and its error.  \<open>mg_Css\<close> and \<open>mg_Js\<close> are the boxes of assets.
  \<open>mg_FindMetaStore\<close> is what \<^verbatim>\<open>FindMetaStore()\<close> returns while the server runs; an error
  comes with a nil store.  \<open>mg_NoRows\<close> is the encoding of an empty listing: null for the
  nil slices of the Bolt and MySQL stores, an empty array for Cassandra's.
\<close>

record 's mgmt_env =
  mg_FormValue :: "request \<Rightarrow> bytes \<Rightarrow> bytes"
  mg_Query :: "request \<Rightarrow> bytes \<Rightarrow> bytes"
  mg_Template :: "bytes \<Rightarrow> GoError + bytes"
  mg_Parse :: "bytes \<Rightarrow> GoError option"
  mg_Execute :: "bytes \<Rightarrow> bytes \<Rightarrow> page_data \<Rightarrow> bytes \<times> GoError option"
  mg_DumpConfig :: "Configuration \<Rightarrow> json"
  mg_Css :: "bytes \<Rightarrow> reader option"
  mg_Js :: "bytes \<Rightarrow> reader option"
  mg_FindMetaStore :: "'s \<Rightarrow> 's GenericMetaStore outcome"
  mg_NoRows :: json

section \<open>Authentication\<close>

text \<open>\<^verbatim>\<open>r.BasicAuth()\<close> of \<^verbatim>\<open>net/http\<close>: like the API's, but in the standard alphabet.\<close>

definition BasicAuth :: "request \<Rightarrow> (bytes \<times> bytes) option" where
  "BasicAuth r =
     (let auth = header_Get r ''Authorization'' in
      if auth = [] \<or> \<not> HasPrefix auth ''Basic '' then None
      else case DecodeString std_alphabet (TrimPrefix auth ''Basic '') of
          None \<Rightarrow> None
        | Some cs \<Rightarrow> let i = IndexByte cs CHR '':'' in if i < 0 then None else Some (cut_at cs i))"

definition challenge :: "request \<Rightarrow> writer" where
  "challenge r = writeStatus (Header_Set fresh_writer ''WWW-Authenticate'' ''Basic realm=mgmt'') r 401"

definition basicAuth :: "Configuration \<Rightarrow> ('s, 'c) handler \<Rightarrow> ('s, 'c) handler" where
  "basicAuth cfg h st vars r =
     (if AdminUser cfg = [] \<or> AdminPass cfg = [] then (st, Reply (writeStatus fresh_writer r 404))
      else case BasicAuth r of
          None \<Rightarrow> (st, Reply (challenge r))
        | Some (user, pass) \<Rightarrow>
            if user \<noteq> AdminUser cfg \<or> pass \<noteq> AdminPass cfg then (st, Reply (challenge r))
            else h st vars r)"

section \<open>Encoding\<close>

definition encode_strings :: "bytes list \<Rightarrow> json" where
  "encode_strings xs = (if xs = [] then JNull else JArr (map JStr xs))"

text \<open>The struct tag of the size is \<^verbatim>\<open>json:"size "\<close>, and the blank is part of the key.\<close>

definition encode_object :: "MetaObject \<Rightarrow> json" where
  "encode_object m =
     JObj [(''oid'', JStr (mo_Oid m)), (''size '', JInt (sint (mo_Size m))),
           (''project_names'', encode_strings (mo_ProjectNames m)), (''Existing'', JBool (mo_Existing m))]"

definition encode_project :: "MetaProject \<Rightarrow> json" where
  "encode_project p = JObj [(''name'', JStr (mp_Name p)), (''oids'', encode_strings (mp_Oids p))]"

definition encode_user :: "MetaUser \<Rightarrow> json" where
  "encode_user u = JObj [(''Name'', JStr (mu_Name u)), (''Password'', JStr (mu_Password u))]"

definition encode_aws :: "AwsConfig \<Rightarrow> json" where
  "encode_aws c =
     JObj [(''accesskeyid'', JStr (Aws_AccessKeyId c)), (''secretaccesskey'', JStr (Aws_SecretAccessKey c)),
           (''region'', JStr (Aws_Region c)), (''bucketname'', JStr (Aws_BucketName c)),
           (''bucketacl'', JStr (Aws_BucketAcl c)), (''enabled'', JBool (Aws_Enabled c))]"

definition encode_cassandra :: "CassandraConfig \<Rightarrow> json" where
  "encode_cassandra c =
     JObj [(''hosts'', JStr (Cassandra_Hosts c)), (''keyspace'', JStr (Cassandra_Keyspace c)),
           (''ProtoVersion'', JInt (Cassandra_ProtoVersion c)), (''username'', JStr (Cassandra_Username c)),
           (''password'', JStr (Cassandra_Password c)), (''enabled'', JBool (Cassandra_Enabled c))]"

definition encode_ldap :: "LdapConfig \<Rightarrow> json" where
  "encode_ldap c =
     JObj [(''enabled'', JBool (Ldap_Enabled c)), (''server'', JStr (Ldap_Server c)),
           (''base'', JStr (Ldap_Base c)), (''userobjectclass'', JStr (Ldap_UserObjectClass c)),
           (''usercn'', JStr (Ldap_UserCn c)), (''binddn'', JStr (Ldap_BindDn c)),
           (''bindpass'', JStr (Ldap_BindPass c))]"

definition encode_mysql :: "MySQLConfig \<Rightarrow> json" where
  "encode_mysql c =
     JObj [(''host'', JStr (MySQL_Host c)), (''database'', JStr (MySQL_Database c)),
           (''username'', JStr (MySQL_Username c)), (''password'', JStr (MySQL_Password c)),
           (''enabled'', JBool (MySQL_Enabled c))]"

definition encode_configuration :: "Configuration \<Rightarrow> json" where
  "encode_configuration c =
     JObj [(''listen'', JStr (Listen c)), (''host'', JStr (Host c)), (''url_context'', JStr (UrlContext c)),
           (''content_path'', JStr (ContentPath c)), (''admin_user'', JStr (AdminUser c)),
           (''admin_pass'', JStr (AdminPass c)), (''cert'', JStr (Cert c)), (''key'', JStr (Key c)),
           (''scheme'', JStr (Scheme c)), (''public'', JBool (Public c)), (''metadb'', JStr (MetaDB c)),
           (''backing_store'', JStr (BackingStore c)), (''content_store'', JStr (ContentStoreKind c)),
           (''logfile'', JStr (LogFile c)), (''numprocs'', JInt (NumProcs c)),
           (''aws'', encode_aws (Aws c)), (''cassandra'', encode_cassandra (Cassandra c)),
           (''ldap'', encode_ldap (Ldap c)), (''mysql'', encode_mysql (MySQL c))]"

definition encode_index :: "'s mgmt_env \<Rightarrow> Configuration \<Rightarrow> json" where
  "encode_index env cfg =
     JObj [(''Name'', JStr ''index''), (''Config'', encode_configuration cfg),
           (''ConfigDump'', mg_DumpConfig env cfg), (''Users'', JNull), (''Objects'', JNull),
           (''Projects'', JNull)]"

section \<open>Replies\<close>

definition isJson :: "request \<Rightarrow> bool" where
  "isJson r \<longleftrightarrow> list_ex (\<lambda>t. Contains t ''application/json'') (rq_Header r ''Accept'')"

definition json_reply :: "writer \<Rightarrow> json \<Rightarrow> writer" where
  "json_reply w j = w_Write (Header_Set w ''Content-Type'' ''application/json'') (Json j)"

text \<open>\<^verbatim>\<open>fmt.Fprintf(w, ...)\<close> with the text already formatted.\<close>

definition say :: "bytes \<Rightarrow> reply" where
  "say msg = Reply (w_Write fresh_writer (Raw msg))"

text \<open>\<^verbatim>\<open>http.Redirect\<close> of a \<^verbatim>\<open>POST\<close>, which has no body.\<close>

definition Redirect :: "bytes \<Rightarrow> reply" where
  "Redirect url = Reply (WriteHeader (Header_Set fresh_writer ''Location'' url) 302)"

text \<open>
  \<^verbatim>\<open>render\<close>: \<^verbatim>\<open>template.Must\<close> panics when the frame does not parse; the error of parsing the
  content is dropped, and the engine reports it on execution.
\<close>

definition render :: "'s mgmt_env \<Rightarrow> writer \<Rightarrow> bytes \<Rightarrow> page_data \<Rightarrow> (writer \<times> GoError option) outcome" where
  "render env w tmpl data =
     (case mg_Template env ''body.tmpl'' of
        Inl e \<Rightarrow> Ok (w, Some e)
      | Inr body \<Rightarrow> (case mg_Template env tmpl of
          Inl e \<Rightarrow> Ok (w, Some e)
        | Inr content \<Rightarrow> (case mg_Parse env body of
            Some e \<Rightarrow> Panic e
          | None \<Rightarrow> (let (out, err) = mg_Execute env body content data
                     in Ok (if out = [] then w else w_Write w (Raw out), err)))))"

definition page :: "'s mgmt_env \<Rightarrow> request \<Rightarrow> bytes \<Rightarrow> page_data \<Rightarrow> reply" where
  "page env r tmpl data =
     (case render env fresh_writer tmpl data of
        Panic e \<Rightarrow> Aborted e
      | Err e \<Rightarrow> Aborted e
      | Ok (w, None) \<Rightarrow> Reply w
      | Ok (w, Some e) \<Rightarrow> Reply (writeStatus w r 404))"

section \<open>Handlers\<close>

definition assetHandler :: "(bytes \<Rightarrow> reader option) \<Rightarrow> bytes \<Rightarrow> ('s, 'c) handler" where
  "assetHandler box mime st vars r =
     (case box (var vars ''file'') of
        None \<Rightarrow> (st, Reply (writeStatus fresh_writer r 404))
      | Some f \<Rightarrow> (st, Reply (copy_out f (Header_Set fresh_writer ''Content-Type'' mime))))"

definition cssHandler :: "'s mgmt_env \<Rightarrow> ('s, 'c) handler" where
  "cssHandler env = assetHandler (mg_Css env) ''text/css''"

definition jsHandler :: "'s mgmt_env \<Rightarrow> ('s, 'c) handler" where
  "jsHandler env = assetHandler (mg_Js env) ''text/javascript''"

definition indexHandler :: "'s mgmt_env \<Rightarrow> ('s, 'c) App \<Rightarrow> ('s, 'c) handler" where
  "indexHandler env a st vars r =
     (st, if isJson r then Reply (json_reply fresh_writer (encode_index env (app_Config a)))
          else page env r ''config.tmpl''
            ((empty_page ''index'')\<lparr>pd_Config := Some (app_Config a),
               pd_ConfigDump := Some (mg_DumpConfig env (app_Config a))\<rparr>))"

text \<open>
  \<^verbatim>\<open>searchOidHandler\<close> writes its error replies and goes on: after an empty search it lists
  everything, and after a failed \<^verbatim>\<open>FindMetaStore\<close> it calls a method of a nil store.
\<close>

fun matching_objects :: "bytes \<Rightarrow> MetaObject list \<Rightarrow> writer \<Rightarrow> writer" where
  "matching_objects searched [] w = w"
| "matching_objects searched (m # ms) w =
     matching_objects searched ms
       (if Contains (mo_Oid m) searched then json_reply w (encode_object m) else w)"

definition searchOidHandler :: "'s mgmt_env \<Rightarrow> ('s, 'c) handler" where
  "searchOidHandler env st vars r =
     (let searchedOid = mg_Query env r ''oid'';
          w = (if length searchedOid < 1 then writeStatus fresh_writer r 404 else fresh_writer)
      in (st,
          (case mg_FindMetaStore env (fst st) of
             Panic e \<Rightarrow> Aborted e
           | Err e \<Rightarrow> Aborted nil_dereference
           | Ok cs \<Rightarrow>
               (case ms_Objects cs (fst st) of
                  Panic e \<Rightarrow> Aborted e
                | Err e \<Rightarrow> Reply (writeStatus w r 404)
                | Ok oids \<Rightarrow> Reply (matching_objects searchedOid oids w)))))"

text \<open>The three listings differ in the store's method, the encoding and the template.\<close>

definition listing ::
  "'s mgmt_env \<Rightarrow> request \<Rightarrow> bytes \<Rightarrow> 'a list outcome \<Rightarrow> ('a \<Rightarrow> json) \<Rightarrow> bytes \<Rightarrow> ('a list \<Rightarrow> page_data) \<Rightarrow> reply" where
  "listing env r what got enc tmpl data =
     (case got of
        Panic e \<Rightarrow> Aborted e
      | Err e \<Rightarrow> say (''Error retrieving '' @ what @ '': '' @ Error e)
      | Ok xs \<Rightarrow>
          if isJson r then
            Reply (json_reply fresh_writer (if xs = [] then mg_NoRows env else JArr (map enc xs)))
          else page env r tmpl (data xs))"

definition objectsHandler :: "'s mgmt_env \<Rightarrow> ('s, 'c) App \<Rightarrow> ('s, 'c) handler" where
  "objectsHandler env a st vars r =
     (st, listing env r ''objects'' (ms_Objects (app_metaStore a) (fst st)) encode_object ''objects.tmpl''
            (\<lambda>xs. (empty_page ''objects'')\<lparr>pd_Objects := xs\<rparr>))"

definition projectsHandler :: "'s mgmt_env \<Rightarrow> ('s, 'c) App \<Rightarrow> ('s, 'c) handler" where
  "projectsHandler env a st vars r =
     (st, listing env r ''objects'' (ms_Projects (app_metaStore a) (fst st)) encode_project ''projects.tmpl''
            (\<lambda>xs. (empty_page ''projects'')\<lparr>pd_Projects := xs\<rparr>))"

definition usersHandler :: "'s mgmt_env \<Rightarrow> ('s, 'c) App \<Rightarrow> ('s, 'c) handler" where
  "usersHandler env a st vars r =
     (st, listing env r ''users'' (ms_Users (app_metaStore a) (fst st)) encode_user ''users.tmpl''
            (\<lambda>xs. (empty_page ''users'')\<lparr>pd_Users := xs\<rparr>))"

text \<open>The end of the three changing handlers.\<close>

definition changed :: "'s \<times> unit outcome \<Rightarrow> 'c \<Rightarrow> bytes \<Rightarrow> bytes \<Rightarrow> ('s \<times> 'c) \<times> reply" where
  "changed res c failure target =
     ((fst res, c),
      (case snd res of
         Panic e \<Rightarrow> Aborted e
       | Err e \<Rightarrow> say (failure @ Error e)
       | Ok _ \<Rightarrow> Redirect target))"

definition addProject :: "'s mgmt_env \<Rightarrow> ('s, 'c) App \<Rightarrow> ('s, 'c) handler" where
  "addProject env a st vars r =
     (let projectName = mg_FormValue env r ''name'' in
      if projectName = [] then (st, say (''Invalid project name: '' @ projectName))
      else changed (ms_AddProject (app_metaStore a) (fst st) projectName) (snd st)
             ''Error adding project: '' ''/mgmt/projects'')"

definition addUserHandler :: "'s mgmt_env \<Rightarrow> ('s, 'c) App \<Rightarrow> ('s, 'c) handler" where
  "addUserHandler env a st vars r =
     (let user = mg_FormValue env r ''name''; pass = mg_FormValue env r ''password'' in
      if user = [] \<or> pass = [] then (st, say ''Invalid username or password'')
      else changed (ms_AddUser (app_metaStore a) (fst st) user pass) (snd st)
             ''Error adding user: '' ''/mgmt/users'')"

definition delUserHandler :: "'s mgmt_env \<Rightarrow> ('s, 'c) App \<Rightarrow> ('s, 'c) handler" where
  "delUserHandler env a st vars r =
     (let user = mg_FormValue env r ''name'' in
      if user = [] then (st, say ''Invalid username'')
      else changed (ms_DeleteUser (app_metaStore a) (fst st) user) (snd st)
             ''Error deleting user: '' ''/mgmt/users'')"

section \<open>Routes\<close>

datatype mgmt_endpoint =
    Index | ListObjects | ListProjects | NewProject | ListUsers | NewUser | RemoveUser | SearchOid | Css | Js

record mgmt_route =
  mr_Template :: bytes
  mr_Methods :: "bytes list option"   \<comment> \<open>\<open>None\<close>: any method\<close>
  mr_Endpoint :: mgmt_endpoint

definition mgmt_routes :: "mgmt_route list" where
  "mgmt_routes =
     [\<lparr>mr_Template = ''/mgmt'', mr_Methods = Some [''GET''], mr_Endpoint = Index\<rparr>,
      \<lparr>mr_Template = ''/mgmt/objects'', mr_Methods = Some [''GET''], mr_Endpoint = ListObjects\<rparr>,
      \<lparr>mr_Template = ''/mgmt/projects'', mr_Methods = Some [''GET''], mr_Endpoint = ListProjects\<rparr>,
      \<lparr>mr_Template = ''/mgmt/addProject'', mr_Methods = Some [''POST''], mr_Endpoint = NewProject\<rparr>,
      \<lparr>mr_Template = ''/mgmt/users'', mr_Methods = Some [''GET''], mr_Endpoint = ListUsers\<rparr>,
      \<lparr>mr_Template = ''/mgmt/add'', mr_Methods = Some [''POST''], mr_Endpoint = NewUser\<rparr>,
      \<lparr>mr_Template = ''/mgmt/del'', mr_Methods = Some [''POST''], mr_Endpoint = RemoveUser\<rparr>,
      \<lparr>mr_Template = ''/mgmt/searchOid'', mr_Methods = Some [''GET''], mr_Endpoint = SearchOid\<rparr>,
      \<lparr>mr_Template = ''/mgmt/css/{file}'', mr_Methods = None, mr_Endpoint = Css\<rparr>,
      \<lparr>mr_Template = ''/mgmt/js/{file}'', mr_Methods = None, mr_Endpoint = Js\<rparr>]"

definition mgmt_matches :: "mux \<Rightarrow> request \<Rightarrow> mgmt_route \<Rightarrow> bool" where
  "mgmt_matches mux r rt \<longleftrightarrow>
     (case mr_Methods rt of None \<Rightarrow> True | Some ms \<Rightarrow> rq_Method r \<in> set ms) \<and>
     mux (mr_Template rt) (rq_Path r) \<noteq> None"

fun mgmt_handler :: "mgmt_endpoint \<Rightarrow> 's mgmt_env \<Rightarrow> ('s, 'c) App \<Rightarrow> ('s, 'c) handler" where
  "mgmt_handler Index env a = indexHandler env a"
| "mgmt_handler ListObjects env a = objectsHandler env a"
| "mgmt_handler ListProjects env a = projectsHandler env a"
| "mgmt_handler NewProject env a = addProject env a"
| "mgmt_handler ListUsers env a = usersHandler env a"
| "mgmt_handler NewUser env a = addUserHandler env a"
| "mgmt_handler RemoveUser env a = delUserHandler env a"
| "mgmt_handler SearchOid env a = searchOidHandler env"
| "mgmt_handler Css env a = cssHandler env"
| "mgmt_handler Js env a = jsHandler env"

definition find_mgmt :: "mux \<Rightarrow> request \<Rightarrow> (mgmt_endpoint \<times> route_vars) option" where
  "find_mgmt mux r =
     (case filter (mgmt_matches mux r) mgmt_routes of
        [] \<Rightarrow> None
      | rt # _ \<Rightarrow> Some (mr_Endpoint rt, the (mux (mr_Template rt) (rq_Path r))))"

text \<open>With no route the router answers with \<^verbatim>\<open>http.NotFound\<close>.\<close>

definition not_found :: writer where
  "not_found =
     w_Write (WriteHeader (Header_Set fresh_writer ''Content-Type'' ''text/plain; charset=utf-8'') 404)
       (Raw (''404 page not found'' @ [CHR 0x0A]))"

definition addMgmt ::
  "'s mgmt_env \<Rightarrow> ('s, 'c) App \<Rightarrow> mux \<Rightarrow> 's \<times> 'c \<Rightarrow> request \<Rightarrow> ('s \<times> 'c) \<times> reply" where
  "addMgmt env a mux st r =
     (case find_mgmt mux r of
        None \<Rightarrow> (st, Reply not_found)
      | Some (e, vars) \<Rightarrow> basicAuth (app_Config a) (mgmt_handler e env a) st vars r)"

section \<open>Lemmas\<close>

text \<open>A request that carries the configured administrator's name and password.\<close>

definition admin_request :: "Configuration \<Rightarrow> request \<Rightarrow> bool" where
  "admin_request cfg r \<longleftrightarrow>
     AdminUser cfg \<noteq> [] \<and> AdminPass cfg \<noteq> [] \<and> BasicAuth r = Some (AdminUser cfg, AdminPass cfg)"

lemma basicAuth_granted: "admin_request cfg r \<Longrightarrow> basicAuth cfg h st vars r = h st vars r"
  by (simp add: basicAuth_def admin_request_def)

lemma basicAuth_denied:
  "\<not> admin_request cfg r \<Longrightarrow>
   basicAuth cfg h st vars r =
     (st, Reply (if AdminUser cfg = [] \<or> AdminPass cfg = [] then writeStatus fresh_writer r 404 else challenge r))"
  by (auto simp: basicAuth_def admin_request_def split: option.splits)

lemma challenge_effect [simp]:
  "final_status (challenge r) = 401" "w_Header (challenge r) ''WWW-Authenticate'' = Some ''Basic realm=mgmt''"
  by (simp_all add: challenge_def http_simps Let_def)

lemma BasicAuth_header:
  assumes "CHR '':'' \<notin> set user" and "header_Get r ''Authorization'' = basic_header std_alphabet user password"
  shows "BasicAuth r = Some (user, password)"
  using DecodeString_EncodeToString [OF good_std] cut_at_IndexByte [OF assms(1), of password]
    IndexByte_append [OF assms(1), of password]
  by (simp only: BasicAuth_def basic_header_form assms(2) Let_def if_False if_True not_True_eq_False
      option.case simp_thms) simp

text \<open>The pages that only read.\<close>

lemma mgmt_reading:
  assumes "e \<notin> {NewProject, NewUser, RemoveUser}"
  shows "fst (mgmt_handler e env a st vars r) = st"
  using assms
  by (cases e)
    (simp_all add: indexHandler_def objectsHandler_def projectsHandler_def usersHandler_def searchOidHandler_def
      cssHandler_def jsHandler_def assetHandler_def Let_def split: option.splits)

lemma addMgmt_cases:
  assumes "addMgmt env a mux st r = (st', rep)"
  obtains (none) "st' = st" "rep = Reply not_found"
    | (denied) "st' = st" "\<not> admin_request (app_Config a) r"
    | (served) e vars where "admin_request (app_Config a) r" "mgmt_handler e env a st vars r = (st', rep)"
proof (cases "find_mgmt mux r")
  case None
  with assms none show thesis by (simp add: addMgmt_def)
next
  case (Some ev)
  with assms denied served show thesis
    by (cases "admin_request (app_Config a) r"; cases ev) (auto simp: addMgmt_def basicAuth_granted basicAuth_denied)
qed

lemma matching_objects_body:
  "w_Body (matching_objects q ms w) =
     w_Body w @ map (Json \<circ> encode_object) (filter (\<lambda>m. Contains (mo_Oid m) q) ms)"
  by (induction q ms w rule: matching_objects.induct) (simp_all add: json_reply_def http_simps Let_def)

lemma matching_objects_status:
  "w_Status w \<noteq> None \<Longrightarrow> w_Status (matching_objects q ms w) = w_Status w"
  by (induction q ms w rule: matching_objects.induct) (auto simp: json_reply_def http_simps Let_def)

lemma matching_objects_found:
  "w_Status w = None \<Longrightarrow> final_status (matching_objects q ms w) = 200"
proof (induction q ms w rule: matching_objects.induct)
  case (2 q m ms w)
  show ?case
  proof (cases "Contains (mo_Oid m) q")
    case True
    then have "w_Status (matching_objects q ms (json_reply w (encode_object m))) = Some 200"
      using 2(2) matching_objects_status [of "json_reply w (encode_object m)" q ms]
      by (simp add: json_reply_def http_simps Let_def)
    then show ?thesis using True by (simp add: final_status_def)
  qed (use 2 in simp)
qed (simp add: final_status_def)

section \<open>The life of a server\<close>

text \<open>One request, by the routes of the API or else of the management pages.\<close>

definition serve ::
  "('s, 'c) App \<Rightarrow> 's mgmt_env \<Rightarrow> mux \<Rightarrow> 's \<times> 'c \<Rightarrow> request \<Rightarrow> ('s \<times> 'c) \<times> reply" where
  "serve a mg mux = ServeHTTP a (addMgmt mg a mux) mux"

text \<open>
  A run of the server: requests, one after the other, each answered or aborted.
\<close>

inductive served ::
  "('s, 'c) App \<Rightarrow> 's mgmt_env \<Rightarrow> mux \<Rightarrow> 's \<times> 'c \<Rightarrow> request list \<Rightarrow> 's \<times> 'c \<Rightarrow> bool"
  for a mg mux st where
  start: "served a mg mux st [] st"
| request: "served a mg mux st rs st1 \<Longrightarrow> serve a mg mux st1 r = (st2, rep) \<Longrightarrow>
    served a mg mux st (rs @ [r]) st2"

inductive_simps served_Nil [simp]: "served a mg mux st [] st'"

locale mgmt_core =
  lfs_core a inv auth objs same ok held + managed_ledger "app_metaStore a" inv auth objs same
  for a :: "('s, 'c) App" and inv auth objs same ok held
begin

text \<open>No management page touches the objects or the contents.\<close>

lemma mgmt_handler_frame:
  assumes "inv s" and "mgmt_handler e env a (s, c) vars r = ((s', c'), rep)"
  shows "c' = c \<and> inv s' \<and> objs s' = objs s"
proof (cases "e \<in> {NewProject, NewUser, RemoveUser}")
  case True
  then show ?thesis
    using assms add_user_frame [OF assms(1)] delete_user_frame [OF assms(1)] add_project_frame [OF assms(1)]
    by (auto simp: addProject_def addUserHandler_def delUserHandler_def changed_def Let_def split: if_splits)
      (metis surjective_pairing)+
next
  case False
  then show ?thesis using mgmt_reading [OF False, of env a "(s, c)" vars r] assms by simp
qed

lemma mgmt_handler_step:
  assumes "inv s" and "ok c" and "mgmt_handler e env a (s, c) vars r = ((s', c'), rep)"
  shows "good_step inv objs ok held (s, c) (s', c')"
  using mgmt_handler_frame [OF assms(1,3)] assms(2) by (simp add: good_step_meta)

lemma mgmt_step:
  assumes "inv s" and "ok c" and "addMgmt env a mux (s, c) r = ((s', c'), rep)"
  shows "good_step inv objs ok held (s, c) (s', c')"
  using assms(3)
proof (cases rule: addMgmt_cases)
  case (served e vars)
  then show ?thesis by (intro mgmt_handler_step [OF assms(1,2)])
qed (use assms in \<open>simp_all add: good_step_refl\<close>)

lemma mgmt_accounts:
  assumes "\<not> admin_request (app_Config a) r" and "addMgmt env a mux (s, c) r = ((s', c'), rep)"
  shows "same_accounts auth (s, c) (s', c')"
  using assms(2)
proof (cases rule: addMgmt_cases)
  case (served e vars)
  then show ?thesis using assms(1) by simp
qed (simp_all add: same_accounts_def)

lemma serve_good:
  assumes "mux_law mux" and "inv (fst st)" and "ok (snd st)" and "serve a mg mux st r = (st', rep)"
  shows "good_step inv objs ok held st st'"
  using serve_step [OF assms(2,3,1), where rest = "addMgmt mg a mux" and r = r and s' = "fst st'"
      and c' = "snd st'" and rep = rep]
    mgmt_step [OF assms(2,3), where env = mg and mux = mux and r = r and s' = "fst st'"
      and c' = "snd st'" and rep = rep] assms(4)
  by (simp add: serve_def)

lemma served_good:
  assumes "served a mg mux st rs st'" and "mux_law mux" and "inv (fst st)" and "ok (snd st)"
  shows "good_step inv objs ok held st st'"
  using assms
proof (induction rule: served.induct)
  case start
  then show ?case by (intro good_step_refl)
next
  case (request rs st1 r st2 rep)
  let ?good = "good_step inv objs ok held"
  have g: "?good st st1" using request by simp
  then have "inv (fst st1)" "ok (snd st1)" unfolding good_step_def by simp_all
  then have "?good st1 st2" using request serve_good by blast
  with g show ?case by (rule good_step_trans)
qed

lemma served_accounts:
  assumes "served a mg mux st rs st'" and "mux_law mux" and "inv (fst st)" and "ok (snd st)"
    and "\<forall>r \<in> set rs. \<not> admin_request (app_Config a) r"
  shows "same_accounts auth st st'"
  using assms
proof (induction rule: served.induct)
  case start
  then show ?case by (simp add: same_accounts_def)
next
  case (request rs st1 r st2 rep)
  have "inv (fst st1)" using served_good [OF request(1,4-6)] by (simp add: good_step_def)
  moreover have "\<not> admin_request (app_Config a) r" using request(7) by simp
  ultimately have "same_accounts auth st1 st2"
    using serve_accounts [where rest = "addMgmt mg a mux" and mux = mux and r = r and s = "fst st1"
        and c = "snd st1" and s' = "fst st2" and c' = "snd st2" and rep = rep]
      mgmt_accounts [where r = r and env = mg and mux = mux and s = "fst st1" and c = "snd st1"
        and s' = "fst st2" and c' = "snd st2" and rep = rep] request(2)
    by (simp add: serve_def)
  then show ?case using request by (simp add: same_accounts_def)
qed

end

locale mgmt_app =
  mgmt_core a inv auth objs "(=)" ok held + lfs_app a inv auth objs ok held
  for a :: "('s, 'c) App" and inv auth objs ok held

end
