(* ===== verification/Lfs_Spec.thy ===== *)
theory Lfs_Spec
  imports Mgmt
begin

text \<open>
  What a Git LFS server is for, without its protocol, its databases and its file system: a
  specification of three maps, and the refinement by the handlers, over any two stores that
  keep the contracts.
\<close>

section \<open>The specification\<close>

text \<open>
  Who may use the server, the announced objects with their sizes, and the contents.
\<close>

record lfs_state =
  accepts :: "bytes \<Rightarrow> bool"
  known :: "bytes \<rightharpoonup> int64"
  stored :: "bytes \<rightharpoonup> bytes"

datatype lfs_event =
    Announced bytes bytes int64   \<comment> \<open>credentials, OID, size\<close>
  | Stored bytes bytes            \<comment> \<open>credentials, content\<close>
  | Accounts "bytes \<Rightarrow> bool"

text \<open>
  An object is announced once, by somebody who may; a content is stored by somebody who may,
  under its own hash, if just this hash and length were announced.
\<close>

fun lfs_do :: "lfs_event \<Rightarrow> lfs_state \<Rightarrow> lfs_state option" where
  "lfs_do (Announced cred oid n) \<sigma> =
     (if accepts \<sigma> cred \<and> known \<sigma> oid = None then Some (\<sigma>\<lparr>known := (known \<sigma>)(oid \<mapsto> n)\<rparr>) else None)"
| "lfs_do (Stored cred b) \<sigma> =
     (if accepts \<sigma> cred \<and> known \<sigma> (oid_of b) = Some (int64_len b)
      then Some (\<sigma>\<lparr>stored := (stored \<sigma>)(oid_of b \<mapsto> b)\<rparr>) else None)"
| "lfs_do (Accounts f) \<sigma> = Some (\<sigma>\<lparr>accepts := f\<rparr>)"

fun lfs_run :: "lfs_event list \<Rightarrow> lfs_state \<Rightarrow> lfs_state option" where
  "lfs_run [] \<sigma> = Some \<sigma>"
| "lfs_run (e # es) \<sigma> = Option.bind (lfs_do e \<sigma>) (lfs_run es)"

fun_cases lfs_do_SomeE: "lfs_do e \<sigma> = Some \<sigma>'"

lemma lfs_run_append: "lfs_run (es @ fs) \<sigma> = Option.bind (lfs_run es \<sigma>) (lfs_run fs)"
  by (induction es arbitrary: \<sigma>) (simp_all add: bind_eq_None_conv split: bind_split)

subsection \<open>What follows from the specification\<close>

text \<open>Contents lie under their hash and have the announced length.\<close>

definition lfs_inv :: "lfs_state \<Rightarrow> bool" where
  "lfs_inv \<sigma> \<longleftrightarrow> (\<forall>oid b. stored \<sigma> oid = Some b \<longrightarrow> oid_of b = oid \<and> known \<sigma> oid = Some (int64_len b))"

lemma lfs_do_facts:
  assumes "lfs_do e \<sigma> = Some \<sigma>'"
  shows "lfs_inv \<sigma> \<Longrightarrow> lfs_inv \<sigma>'"
    and "known \<sigma> oid = Some n \<Longrightarrow> known \<sigma>' oid = Some n"
    and "stored \<sigma> oid \<noteq> None \<Longrightarrow> stored \<sigma>' oid \<noteq> None"
    and "stored \<sigma>' oid = Some b \<Longrightarrow> stored \<sigma> oid = Some b \<or> (\<exists>cred. e = Stored cred b \<and> oid_of b = oid)"
    and "known \<sigma>' oid = Some n \<Longrightarrow> known \<sigma> oid = Some n \<or> (\<exists>cred. e = Announced cred oid n)"
  using assms by (auto elim!: lfs_do_SomeE simp: lfs_inv_def split: if_splits)

lemma lfs_run_inv: "lfs_run es \<sigma> = Some \<sigma>' \<Longrightarrow> lfs_inv \<sigma> \<Longrightarrow> lfs_inv \<sigma>'"
  by (induction es arbitrary: \<sigma>) (auto simp: bind_eq_Some_conv dest: lfs_do_facts(1))

lemma lfs_run_known: "lfs_run es \<sigma> = Some \<sigma>' \<Longrightarrow> known \<sigma> oid = Some n \<Longrightarrow> known \<sigma>' oid = Some n"
  by (induction es arbitrary: \<sigma>) (auto simp: bind_eq_Some_conv dest: lfs_do_facts(2))

lemma lfs_run_stored: "lfs_run es \<sigma> = Some \<sigma>' \<Longrightarrow> stored \<sigma> oid \<noteq> None \<Longrightarrow> stored \<sigma>' oid \<noteq> None"
proof (induction es arbitrary: \<sigma>)
  case (Cons e es)
  then obtain \<sigma>1 where s1: "lfs_do e \<sigma> = Some \<sigma>1" "lfs_run es \<sigma>1 = Some \<sigma>'" by (auto simp: bind_eq_Some_conv)
  show ?case by (rule Cons.IH [OF s1(2) lfs_do_facts(3) [OF s1(1) Cons.prems(2)]])
qed simp

text \<open>Nothing is known that was not announced, and nothing is held that was not uploaded.\<close>

lemma lfs_run_origin:
  assumes "lfs_run es \<sigma> = Some \<sigma>'"
  shows "stored \<sigma>' oid = Some b \<Longrightarrow>
      stored \<sigma> oid = Some b \<or> (\<exists>cred. Stored cred b \<in> set es \<and> oid_of b = oid)"
    and "known \<sigma>' oid = Some n \<Longrightarrow> known \<sigma> oid = Some n \<or> (\<exists>cred. Announced cred oid n \<in> set es)"
  using assms
proof (induction es arbitrary: \<sigma>)
  case (Cons e es)
  {
    case 1
    then obtain \<sigma>1 where "lfs_do e \<sigma> = Some \<sigma>1" "lfs_run es \<sigma>1 = Some \<sigma>'" by (auto simp: bind_eq_Some_conv)
    with Cons.IH(1) [OF 1(1)] lfs_do_facts(4) [of e \<sigma> \<sigma>1 oid b] show ?case by fastforce
  next
    case 2
    then obtain \<sigma>1 where "lfs_do e \<sigma> = Some \<sigma>1" "lfs_run es \<sigma>1 = Some \<sigma>'" by (auto simp: bind_eq_Some_conv)
    with Cons.IH(2) [OF 2(1)] lfs_do_facts(5) [of e \<sigma> \<sigma>1 oid n] show ?case by fastforce
  }
qed simp_all

subsection \<open>States within reach\<close>

text \<open>Reaching a state by events of some kind.\<close>

definition reaches :: "(lfs_event \<Rightarrow> bool) \<Rightarrow> lfs_state \<Rightarrow> lfs_state \<Rightarrow> bool" where
  "reaches P \<sigma> \<sigma>' \<longleftrightarrow> (\<exists>es. lfs_run es \<sigma> = Some \<sigma>' \<and> list_all P es)"

lemma reaches_refl [simp, intro]: "reaches P \<sigma> \<sigma>"
  unfolding reaches_def by (intro exI [of _ "[]"]) simp

lemma reaches_do: "lfs_do e \<sigma> = Some \<sigma>' \<Longrightarrow> P e \<Longrightarrow> reaches P \<sigma> \<sigma>'"
  unfolding reaches_def by (intro exI [of _ "[e]"]) simp

lemma reaches_trans: "reaches P \<sigma> \<sigma>1 \<Longrightarrow> reaches P \<sigma>1 \<sigma>' \<Longrightarrow> reaches P \<sigma> \<sigma>'"
  unfolding reaches_def by (metis bind.bind_lunit lfs_run_append list_all_append)

lemma reaches_mono: "reaches P \<sigma> \<sigma>' \<Longrightarrow> (\<And>e. P e \<Longrightarrow> Q e) \<Longrightarrow> reaches Q \<sigma> \<sigma>'"
  unfolding reaches_def by (metis list.pred_mono_strong)

section \<open>The refinement\<close>

text \<open>What the specification sees of a metadata store and a content store.\<close>

definition lfs_abs ::
  "('s \<Rightarrow> bytes \<Rightarrow> bool outcome) \<Rightarrow> ('s \<Rightarrow> bytes \<rightharpoonup> MetaObject) \<Rightarrow> ('c \<Rightarrow> bytes \<rightharpoonup> bytes) \<Rightarrow>
   's \<times> 'c \<Rightarrow> lfs_state" where
  "lfs_abs auth objs held st =
     \<lparr>accepts = (\<lambda>a. auth (fst st) a = Ok True), known = (\<lambda>oid. map_option mo_Size (objs (fst st) oid)),
      stored = held (snd st)\<rparr>"

text \<open>
  The requests an event may come from.  (A batch whose body is malformed is handled with the
  credentials of the body in place of those of the header.)
\<close>

fun caused :: "Configuration \<Rightarrow> request \<Rightarrow> lfs_event \<Rightarrow> bool" where
  "caused cfg r (Announced cred oid n) \<longleftrightarrow> rq_Method r = ''POST''"
| "caused cfg r (Stored cred b) \<longleftrightarrow>
     rq_Method r = ''PUT'' \<and> cred = header_Get r ''Authorization'' \<and> b = fst (rq_Body r)"
| "caused cfg r (Accounts f) \<longleftrightarrow> admin_request cfg r"

text \<open>The events of announcements, one \<^verbatim>\<open>Put\<close> or a batch of them.\<close>

fun announces :: "lfs_event \<Rightarrow> bool" where
  "announces (Announced cred oid n) \<longleftrightarrow> True"
| "announces e \<longleftrightarrow> False"

lemma announces_caused: "announces e \<Longrightarrow> rq_Method r = ''POST'' \<Longrightarrow> caused cfg r e"
  by (cases e) simp_all

context lfs_core
begin

lemma put_spec:
  assumes "inv s" and "ms_Put (app_metaStore a) s v = (s', r)"
  shows "reaches announces (lfs_abs auth objs held (s, c)) (lfs_abs auth objs held (s', c))"
proof (cases "objs s' = objs s")
  case True
  then have "lfs_abs auth objs held (s', c) = lfs_abs auth objs held (s, c)"
    using put_auth [OF assms] by (simp add: lfs_abs_def)
  then show ?thesis by simp
next
  case False
  from put_entry [OF assms False] obtain m where granted: "auth s (rv_Authorization v) = Ok True"
    and none: "objs s (rv_Oid v) = None" and m: "objs s' = (objs s)(rv_Oid v \<mapsto> m)" by blast
  have "lfs_do (Announced (rv_Authorization v) (rv_Oid v) (mo_Size m)) (lfs_abs auth objs held (s, c)) =
      Some (lfs_abs auth objs held (s', c))"
    using granted none m put_auth [OF assms] by (auto simp: lfs_abs_def)
  then show ?thesis by (rule reaches_do) simp
qed

lemma batch_spec:
  "inv s \<Longrightarrow> batch_objects cfg (app_metaStore a) s ps acc = (s', res) \<Longrightarrow>
   reaches announces (lfs_abs auth objs held (s, c)) (lfs_abs auth objs held (s', c))"
proof (induction cfg "app_metaStore a" s ps acc rule: batch_objects.induct)
  case (3 cfg s p ps acc)
  obtain s1 r1 where put: "ms_Put (app_metaStore a) s p = (s1, r1)" by fastforce
  note inv1 = put_inv [OF 3(4) put]
  have first: "reaches announces (lfs_abs auth objs held (s, c)) (lfs_abs auth objs held (s1, c))"
    by (rule put_spec [OF 3(4) put])
  show ?case
  proof (cases "ms_Get (app_metaStore a) s p")
    case (Ok m)
    then show ?thesis using 3(1) [OF Ok 3(4)] 3(5) by simp
  next
    case (Panic e)
    then show ?thesis using 3(5) by simp
  next
    case get: (Err e)
    show ?thesis
    proof (cases "isAuthError e")
      case True
      then show ?thesis using 3(5) get by simp
    next
      case False
      show ?thesis
      proof (cases r1)
        case (Ok m)
        from 3(5) get False put Ok have "batch_objects cfg (app_metaStore a) s1 ps
            (acc @ [Represent cfg p m (mo_Existing m) True]) = (s', res)" by simp
        from reaches_trans [OF first 3(2) [OF get False put [symmetric] Ok inv1 this]] show ?thesis .
      next
        case (Err e1)
        from 3(5) get False put Err have "batch_objects cfg (app_metaStore a) s1 ps acc = (s', res)" by simp
        from reaches_trans [OF first 3(3) [OF get False put [symmetric] Err inv1 this]] show ?thesis .
      next
        case (Panic e1)
        with 3(5) get False put have "s' = s1" by simp
        then show ?thesis using first by simp
      qed
    qed
  qed
qed simp_all

lemma store_spec:
  assumes "ok c" and "auth s cred = Ok True" and "objs s (mo_Oid m) = Some m"
    and "cs_Put (app_contentStore a) c m (b, err) = (c', res)" and "P (Stored cred b)"
  shows "reaches P (lfs_abs auth objs held (s, c)) (lfs_abs auth objs held (s, c'))"
proof (cases "held c' = held c")
  case True
  then have "lfs_abs auth objs held (s, c') = lfs_abs auth objs held (s, c)" by (simp add: lfs_abs_def)
  then show ?thesis by simp
next
  case False
  then have "matches_meta m b" "held c' = (held c)(mo_Oid m \<mapsto> b)" using put_frame [OF assms(1,4)] by blast+
  then have "lfs_do (Stored cred b) (lfs_abs auth objs held (s, c)) = Some (lfs_abs auth objs held (s, c'))"
    using assms(2,3) by (simp add: lfs_abs_def matches_meta_def)
  then show ?thesis by (rule reaches_do) (fact assms(5))
qed

lemma upload_spec:
  assumes "inv s" and "ok c" and "PutHandler a (s, c) vars r = ((s', c'), rep)" and "rq_Method r = ''PUT''"
  shows "reaches (caused cfg r) (lfs_abs auth objs held (s, c)) (lfs_abs auth objs held (s', c'))"
proof (cases "ms_Get (app_metaStore a) s (unpack a vars r)")
  case (Ok m)
  note g = get_entry [OF assms(1) Ok]
  obtain b err res where body: "rq_Body r = (b, err)" and cp: "cs_Put (app_contentStore a) c m (b, err) = (c', res)"
    and s: "s' = s" using assms(3) Ok by (cases "rq_Body r") (auto simp: PutHandler_def split: prod.splits)
  have "caused cfg r (Stored (header_Get r ''Authorization'') b)" by (simp add: assms(4) body)
  from store_spec [where P = "caused cfg r", OF assms(2) _ _ cp this] g s show ?thesis by simp
qed (use assms(3) in \<open>auto simp: PutHandler_def\<close>)

lemma api_spec:
  assumes "inv s" and "ok c" and "find_route mux r = Some (e, v)" and "handler_of e a (s, c) v r = ((s', c'), rep)"
  shows "reaches (caused cfg r) (lfs_abs auth objs held (s, c)) (lfs_abs auth objs held (s', c'))"
proof -
  obtain rt where rt: "rt \<in> set api_routes" "route_matches mux r rt" "e = rt_Endpoint rt"
    by (rule find_route_sound [OF assms(3)])
  have post: ?thesis if "rq_Method r = ''POST''" "c' = c"
    "reaches announces (lfs_abs auth objs held (s, c)) (lfs_abs auth objs held (s', c))"
    using that(2) reaches_mono [OF that(3), of "caused cfg r"] announces_caused that(1) by blast
  show ?thesis
  proof (cases e)
    case PutContent
    then have "rq_Method r = ''PUT''" using rt by (auto simp: api_routes_def route_matches_def)
    then show ?thesis using upload_spec [OF assms(1,2)] assms(4) PutContent by simp
  next
    case Post
    then have m: "rq_Method r = ''POST''" using rt by (auto simp: api_routes_def route_matches_def)
    obtain s1 res where mp: "ms_Put (app_metaStore a) s (unpack a v r) = (s1, res)" by fastforce
    then have "s' = s1" "c' = c"
      using assms(4) Post by (auto simp: PostHandler_def Let_def split: outcome.splits)
    then show ?thesis using put_spec [OF assms(1) mp] post m by simp
  next
    case Batch
    then have m: "rq_Method r = ''POST''" using rt by (auto simp: api_routes_def route_matches_def)
    show ?thesis
    proof (cases "unpackbatch a v r")
      case (Ok ps)
      obtain s1 res where run: "batch_objects (app_Config a) (app_metaStore a) s ps [] = (s1, res)" by fastforce
      then have "s' = s1" "c' = c" using assms(4) Batch Ok by (auto simp: BatchHandler_def)
      then show ?thesis using batch_spec [OF assms(1) run] post m by simp
    qed (use assms(4) Batch in \<open>auto simp: BatchHandler_def\<close>)
  qed (use reading_handlers [OF _ assms(4)] in auto)
qed

end

context mgmt_core
begin

lemma mgmt_spec:
  assumes "inv s" and "addMgmt env a mux (s, c) r = ((s', c'), rep)"
  shows "reaches (caused (app_Config a) r) (lfs_abs auth objs held (s, c)) (lfs_abs auth objs held (s', c'))"
  using assms(2)
proof (cases rule: addMgmt_cases)
  case (served e vars)
  have "c' = c \<and> objs s' = objs s" using mgmt_handler_frame [OF assms(1) served(2)] by blast
  then have "lfs_do (Accounts (\<lambda>h. auth s' h = Ok True)) (lfs_abs auth objs held (s, c)) =
      Some (lfs_abs auth objs held (s', c'))" by (simp add: lfs_abs_def)
  then show ?thesis by (rule reaches_do) (simp add: served(1))
qed simp_all

lemma serve_spec:
  assumes "inv (fst st)" and "ok (snd st)" and "serve a mg mux st r = (st', rep)"
  shows "reaches (caused (app_Config a) r) (lfs_abs auth objs held st) (lfs_abs auth objs held st')"
proof -
  obtain s c s' c' where st: "st = (s, c)" "st' = (s', c')" by fastforce
  show ?thesis
    using assms api_spec [of s c mux r _ _ s' c' rep "app_Config a"] mgmt_spec [of s mg mux c r s' c' rep]
    by (auto simp: st serve_def ServeHTTP_def split: option.splits prod.splits)
qed

text \<open>A run of the server is a run of the specification, its events sorted by their requests.\<close>

lemma served_spec:
  assumes "served a mg mux st rs st'" and "mux_law mux" and "inv (fst st)" and "ok (snd st)"
  shows "\<exists>ess. lfs_run (concat ess) (lfs_abs auth objs held st) = Some (lfs_abs auth objs held st') \<and>
    list_all2 (\<lambda>r. list_all (caused (app_Config a) r)) rs ess"
  using assms
proof (induction rule: served.induct)
  case start
  then show ?case by (intro exI [of _ "[]"]) simp
next
  case (request rs st1 r st2 rep)
  then obtain ess where ess: "lfs_run (concat ess) (lfs_abs auth objs held st) = Some (lfs_abs auth objs held st1)"
    "list_all2 (\<lambda>r. list_all (caused (app_Config a) r)) rs ess" by blast
  have "inv (fst st1)" "ok (snd st1)" using good_stepD(1,2) [OF served_good [OF request(1,4-6)]] .
  from serve_spec [OF this request(2)] obtain es where
    es: "lfs_run es (lfs_abs auth objs held st1) = Some (lfs_abs auth objs held st2)"
      "list_all (caused (app_Config a) r) es" unfolding reaches_def by blast
  show ?case
    using ess es by (intro exI [of _ "ess @ [es]"]) (simp add: lfs_run_append list_all2_appendI)
qed

end

end
