(* ===== verification/Handler_Race.thy ===== *)
theory Handler_Race
  imports Lfs_Spec
begin

text \<open>
  The handlers of \<^verbatim>\<open>server.go\<close> call by call.  The Go server runs each request in a goroutine of
  its own and the handlers share no lock: between two calls of one handler to the stores those of
  others may come.  Here each call to a store is atomic; what happens inside of the calls is in
  Put_Race and Upload_Race.
\<close>

section \<open>The calls of one request\<close>

datatype handler_phase =
    Asking endpoint                 \<comment> \<open>about to make the first call\<close>
  | Downloading MetaObject          \<comment> \<open>\<^verbatim>\<open>GET\<close>: about to ask the content store\<close>
  | Uploading MetaObject            \<comment> \<open>\<^verbatim>\<open>PUT\<close>: about to store the body\<close>
  | Announcing MetaObject           \<comment> \<open>\<^verbatim>\<open>POST\<close>: about to look whether the content is there\<close>
  | Looking "RequestVars option list" "Representation list"              \<comment> \<open>the loop of a batch\<close>
  | Adding RequestVars "RequestVars option list" "Representation list"   \<comment> \<open>its call of \<^verbatim>\<open>Put\<close>\<close>
  | Answered reply

record request_call =
  rc_Request :: request
  rc_Vars :: route_vars
  rc_Phase :: handler_phase

text \<open>Where a handler goes on after \<^verbatim>\<open>metaStore.Get\<close>, and what it answers at the end.\<close>

fun after_meta :: "request \<Rightarrow> MetaObject outcome \<Rightarrow> (MetaObject \<Rightarrow> handler_phase) \<Rightarrow> handler_phase" where
  "after_meta r (Ok m) k = k m"
| "after_meta r (Err e) k = Answered (meta_error r e)"
| "after_meta r (Panic e) k = Answered (Aborted e)"

definition post_reply :: "('s, 'c) App \<Rightarrow> 'c \<Rightarrow> RequestVars \<Rightarrow> MetaObject \<Rightarrow> reply" where
  "post_reply a c rv meta =
     (let w = Header_Set fresh_writer ''Content-Type'' metaMediaType;
          sentStatus = (if mo_Existing meta \<and> cs_Exists (app_contentStore a) c meta then 200 else 202);
          w' = WriteHeader w sentStatus
      in Reply (w_Write w' (Json (encode_representation
           (Represent (app_Config a) rv meta (mo_Existing meta) True)))))"

definition batch_reply :: "request \<Rightarrow> batch_result \<Rightarrow> reply" where
  "batch_reply r res =
     (case res of
        Crashed e \<Rightarrow> Aborted e
      | Denied \<Rightarrow> Reply (requireAuth fresh_writer r)
      | Represented reps \<Rightarrow>
          Reply (w_Write (Header_Set fresh_writer ''Content-Type'' metaMediaType) (Json (encode_batch reps))))"

fun upload_reply :: "unit outcome \<Rightarrow> reply" where
  "upload_reply (Ok u) = Reply fresh_writer"
| "upload_reply (Err e) =
     Reply (w_Write (WriteHeader fresh_writer 500) (Raw (''{\"message\":\"'' @ Error e @ ''\"}'')))"
| "upload_reply (Panic e) = Aborted e"

fun download_reply :: "request \<Rightarrow> reader outcome \<Rightarrow> reply" where
  "download_reply r (Ok content) = Reply (copy_out content fresh_writer)"
| "download_reply r (Err e) = Reply (writeStatus fresh_writer r 404)"
| "download_reply r (Panic e) = Aborted e"

text \<open>One call to a store, by the phase of the request: what it does and the next phase.\<close>

fun handler_call ::
  "('s, 'c) App \<Rightarrow> route_vars \<Rightarrow> request \<Rightarrow> handler_phase \<Rightarrow> 's \<times> 'c \<Rightarrow> ('s \<times> 'c) \<times> handler_phase" where
  "handler_call a vars r (Asking e) (s, c) =
     (let rv = unpack a vars r; ms = app_metaStore a in
      case e of
        GetContent \<Rightarrow> ((s, c), after_meta r (ms_Get ms s rv) Downloading)
      | PutContent \<Rightarrow> ((s, c), after_meta r (ms_Get ms s rv) Uploading)
      | Post \<Rightarrow> (let (s', res) = ms_Put ms s rv in ((s', c), after_meta r res Announcing))
      | Batch \<Rightarrow> ((s, c), case unpackbatch a vars r of
            Ok ps \<Rightarrow> Looking ps [] | Err e \<Rightarrow> Answered (Aborted e) | Panic e \<Rightarrow> Answered (Aborted e))
      | _ \<Rightarrow> apsnd Answered (handler_of e a (s, c) vars r))"
| "handler_call a vars r (Downloading m) (s, c) =
     ((s, c), Answered (download_reply r (cs_Get (app_contentStore a) c m)))"
| "handler_call a vars r (Uploading m) (s, c) =
     (let (c', res) = cs_Put (app_contentStore a) c m (rq_Body r) in ((s, c'), Answered (upload_reply res)))"
| "handler_call a vars r (Announcing m) (s, c) = ((s, c), Answered (post_reply a c (unpack a vars r) m))"
| "handler_call a vars r (Looking [] acc) st = (st, Answered (batch_reply r (Represented acc)))"
| "handler_call a vars r (Looking (None # ps) acc) st = (st, Answered (Aborted nil_dereference))"
| "handler_call a vars r (Looking (Some p # ps) acc) (s, c) =
     ((s, c), case ms_Get (app_metaStore a) s p of
        Ok m \<Rightarrow> Looking ps (acc @ [Represent (app_Config a) p m True False])
      | Err e \<Rightarrow> if isAuthError e then Answered (batch_reply r Denied) else Adding p ps acc
      | Panic e \<Rightarrow> Answered (Aborted e))"
| "handler_call a vars r (Adding p ps acc) (s, c) =
     (let (s', res) = ms_Put (app_metaStore a) s p in
      ((s', c), case res of
         Ok m \<Rightarrow> Looking ps (acc @ [Represent (app_Config a) p m (mo_Existing m) True])
       | Err e \<Rightarrow> Looking ps acc
       | Panic e \<Rightarrow> Answered (Aborted e)))"
| "handler_call a vars r (Answered rep) st = (st, Answered rep)"

subsection \<open>Alone, the calls add up to the handler\<close>

definition batch_rest ::
  "('s, 'c) App \<Rightarrow> request \<Rightarrow> RequestVars option list \<Rightarrow> Representation list \<Rightarrow> 's \<times> 'c \<Rightarrow> ('s \<times> 'c) \<times> reply" where
  "batch_rest a r ps acc st =
     (let (s', res) = batch_objects (app_Config a) (app_metaStore a) (fst st) ps acc
      in ((s', snd st), batch_reply r res))"

fun handler_rest ::
  "('s, 'c) App \<Rightarrow> route_vars \<Rightarrow> request \<Rightarrow> handler_phase \<Rightarrow> 's \<times> 'c \<Rightarrow> ('s \<times> 'c) \<times> reply" where
  "handler_rest a vars r (Asking e) st = handler_of e a st vars r"
| "handler_rest a vars r (Downloading m) (s, c) = ((s, c), download_reply r (cs_Get (app_contentStore a) c m))"
| "handler_rest a vars r (Uploading m) (s, c) =
     (let (c', res) = cs_Put (app_contentStore a) c m (rq_Body r) in ((s, c'), upload_reply res))"
| "handler_rest a vars r (Announcing m) (s, c) = ((s, c), post_reply a c (unpack a vars r) m)"
| "handler_rest a vars r (Looking ps acc) st = batch_rest a r ps acc st"
| "handler_rest a vars r (Adding p ps acc) (s, c) =
     (case ms_Put (app_metaStore a) s p of
        (s', Ok m) \<Rightarrow> batch_rest a r ps (acc @ [Represent (app_Config a) p m (mo_Existing m) True]) (s', c)
      | (s', Err e) \<Rightarrow> batch_rest a r ps acc (s', c)
      | (s', Panic e) \<Rightarrow> ((s', c), Aborted e))"
| "handler_rest a vars r (Answered rep) st = (st, rep)"

lemma handler_rest_after_meta:
  "handler_rest a vars r (after_meta r res k) st =
     (case res of Ok m \<Rightarrow> handler_rest a vars r (k m) st | Err e \<Rightarrow> (st, meta_error r e) | Panic e \<Rightarrow> (st, Aborted e))"
  by (cases res) simp_all

lemma handlers_by_calls:
  "GetContentHandler a (s, c) vars r = handler_rest a vars r (after_meta r (ms_Get (app_metaStore a) s (unpack a vars r)) Downloading) (s, c)"
  "PutHandler a (s, c) vars r = handler_rest a vars r (after_meta r (ms_Get (app_metaStore a) s (unpack a vars r)) Uploading) (s, c)"
  "PostHandler a (s, c) vars r =
     (let (s', res) = ms_Put (app_metaStore a) s (unpack a vars r) in handler_rest a vars r (after_meta r res Announcing) (s', c))"
  by (simp_all add: GetContentHandler_def PutHandler_def PostHandler_def handler_rest_after_meta post_reply_def Let_def
      split: outcome.split prod.split)

lemma batch_by_calls:
  "BatchHandler a (s, c) vars r =
     (case unpackbatch a vars r of
        Ok ps \<Rightarrow> handler_rest a vars r (Looking ps []) (s, c) | Err e \<Rightarrow> ((s, c), Aborted e) | Panic e \<Rightarrow> ((s, c), Aborted e))"
  by (simp add: BatchHandler_def batch_rest_def batch_reply_def split: outcome.split batch_result.split)

lemma answered_rest: "apsnd Answered x = (st', p') \<Longrightarrow> handler_rest a vars r p' st' = x"
  by (cases x) auto

lemma handler_call_rest:
  assumes "handler_call a vars r p st = (st', p')"
  shows "handler_rest a vars r p' st' = handler_rest a vars r p st"
proof -
  obtain s c where st: "st = (s, c)" by fastforce
  show ?thesis
    using assms unfolding st
  proof (induction a vars r p "(s, c)" arbitrary: s c rule: handler_call.induct)
    case (1 a vars r e s c)
    then show ?case
      by (cases e) (auto simp: handlers_by_calls batch_by_calls Let_def dest: answered_rest
          split: prod.splits outcome.splits)
  next
    case (7 a vars r p ps acc s c)
    show ?case
      using 7 by (cases "ms_Get (app_metaStore a) s p") (auto simp: batch_rest_def batch_reply_def split: prod.split outcome.split if_splits)
  next
    case (8 a vars r p ps acc s c)
    then show ?case by (auto simp: Let_def split: prod.splits outcome.splits)
  qed (auto simp: Let_def batch_rest_def batch_reply_def split: prod.splits)
qed

text \<open>The calls a request has left at most: two for each object of a batch, two otherwise.\<close>

fun calls_left :: "('s, 'c) App \<Rightarrow> route_vars \<Rightarrow> request \<Rightarrow> handler_phase \<Rightarrow> nat" where
  "calls_left a vars r (Asking e) =
     (if e = Batch then (case unpackbatch a vars r of Ok ps \<Rightarrow> 2 + 2 * length ps | _ \<Rightarrow> 1) else 2)"
| "calls_left a vars r (Looking ps acc) = 1 + 2 * length ps"
| "calls_left a vars r (Adding p ps acc) = 2 + 2 * length ps"
| "calls_left a vars r (Answered rep) = 0"
| "calls_left a vars r p = 1"

lemma calls_left_zero: "calls_left a vars r p = 0 \<longleftrightarrow> (\<exists>rep. p = Answered rep)"
  by (cases "(a, vars, r, p)" rule: calls_left.cases) (auto split: outcome.split)

lemma after_meta_left:
  "(\<And>m. calls_left a vars r (k m) \<le> n) \<Longrightarrow> calls_left a vars r (after_meta r res k) \<le> n"
  by (cases res) simp_all

lemma handler_call_left:
  assumes "handler_call a vars r p st = (st', p')" and "calls_left a vars r p \<noteq> 0"
  shows "calls_left a vars r p' < calls_left a vars r p"
proof -
  obtain s c where st: "st = (s, c)" by fastforce
  show ?thesis
    using assms unfolding st
  proof (induction a vars r p "(s, c)" arbitrary: s c rule: handler_call.induct)
    case (1 a vars r e s c)
    have le: "calls_left a vars r (after_meta r res k) < 2" if "\<And>m. calls_left a vars r (k m) = 1" for res k
      using after_meta_left [of a vars r k 1 res] that by simp
    show ?case
      using 1 le [of Downloading] le [of Uploading] le [of Announcing]
      by (cases e) (auto simp: Let_def apsnd_def map_prod_def split: prod.splits outcome.splits)
  qed (auto simp: Let_def split: prod.splits outcome.splits if_splits)
qed

fun handler_run ::
  "('s, 'c) App \<Rightarrow> route_vars \<Rightarrow> request \<Rightarrow> nat \<Rightarrow> handler_phase \<Rightarrow> 's \<times> 'c \<Rightarrow> ('s \<times> 'c) \<times> handler_phase" where
  "handler_run a vars r 0 p st = (st, p)"
| "handler_run a vars r (Suc n) p st =
     (let (st', p') = handler_call a vars r p st in handler_run a vars r n p' st')"

lemma handler_run_finishes:
  "calls_left a vars r p \<le> n \<Longrightarrow>
   handler_run a vars r n p st = apsnd Answered (handler_rest a vars r p st)"
proof (induction n arbitrary: p st)
  case 0
  then obtain rep where "p = Answered rep" using calls_left_zero [of a vars r p] by auto
  then show ?case by simp
next
  case (Suc n)
  obtain st1 p1 where c: "handler_call a vars r p st = (st1, p1)" by fastforce
  have "calls_left a vars r p1 \<le> n"
  proof (cases "calls_left a vars r p = 0")
    case True
    then obtain rep where "p = Answered rep" using calls_left_zero [of a vars r p] by auto
    then show ?thesis using c by (cases st) auto
  next
    case False
    from handler_call_left [OF c False] Suc.prems show ?thesis by simp
  qed
  from Suc.IH [OF this] show ?case using c handler_call_rest [OF c] by simp
qed

section \<open>Many requests at once\<close>

record ('s, 'c) busy_server =
  bs_State :: "'s \<times> 'c"
  bs_Calls :: "nat \<Rightarrow> request_call option"

definition new_request :: "endpoint \<Rightarrow> route_vars \<Rightarrow> request \<Rightarrow> request_call" where
  "new_request e vars r = \<lparr>rc_Request = r, rc_Vars = vars, rc_Phase = Asking e\<rparr>"

text \<open>A request arrives on a route of the API, or a request under way makes its next call.\<close>

inductive busy_step ::
  "('s, 'c) App \<Rightarrow> mux \<Rightarrow> ('s, 'c) busy_server \<Rightarrow> ('s, 'c) busy_server \<Rightarrow> bool" for a mux where
  arrive: "bs_Calls s k = None \<Longrightarrow> find_route mux r = Some (e, v) \<Longrightarrow>
    busy_step a mux s (s\<lparr>bs_Calls := (bs_Calls s)(k \<mapsto> new_request e v r)\<rparr>)"
| proceed: "bs_Calls s k = Some q \<Longrightarrow>
    handler_call a (rc_Vars q) (rc_Request q) (rc_Phase q) (bs_State s) = (st', p') \<Longrightarrow>
    busy_step a mux s \<lparr>bs_State = st', bs_Calls = (bs_Calls s)(k \<mapsto> q\<lparr>rc_Phase := p'\<rparr>)\<rparr>"

inductive_cases busy_stepE [consumes 1, case_names arrive proceed]: "busy_step a mux s s'"

text \<open>Requests are not forgotten.\<close>

lemma busy_step_requests:
  assumes "busy_step a mux s s'" and "bs_Calls s k = Some q"
  shows "\<exists>q'. bs_Calls s' k = Some q' \<and> rc_Request q' = rc_Request q"
  using assms(1) by (cases rule: busy_stepE) (use assms(2) in auto)

definition idle :: "'s \<times> 'c \<Rightarrow> ('s, 'c) busy_server" where
  "idle st = \<lparr>bs_State = st, bs_Calls = Map.empty\<rparr>"

text \<open>What a request under way may rely on, whatever calls come in between.\<close>

fun phase_ok ::
  "('s \<Rightarrow> bytes \<Rightarrow> bool outcome) \<Rightarrow> ('s \<Rightarrow> bytes \<rightharpoonup> MetaObject) \<Rightarrow> (bytes \<Rightarrow> bytes \<Rightarrow> bool) \<Rightarrow>
   ('c \<Rightarrow> bytes \<rightharpoonup> bytes) \<Rightarrow> ('s, 'c) App \<Rightarrow> 's \<times> 'c \<Rightarrow> route_vars \<Rightarrow> request \<Rightarrow> handler_phase \<Rightarrow> bool" where
  "phase_ok auth objs same held a st vars r (Asking e) \<longleftrightarrow>
     (rq_Method r = ''PUT'' \<longleftrightarrow> e = PutContent) \<and> (e = Post \<or> e = Batch \<longrightarrow> rq_Method r = ''POST'') \<and>
     (e = PutContent \<longrightarrow> routable (rv_Oid (unpack a vars r)))"
| "phase_ok auth objs same held a st vars r (Uploading m) \<longleftrightarrow>
     rq_Method r = ''PUT'' \<and> auth (fst st) (header_Get r ''Authorization'') = Ok True \<and>
     same (mo_Oid m) (rv_Oid (unpack a vars r)) \<and> objs (fst st) (mo_Oid m) = Some m \<and> routable (mo_Oid m)"
| "phase_ok auth objs same held a st vars r (Downloading m) \<longleftrightarrow> rq_Method r \<noteq> ''PUT''"
| "phase_ok auth objs same held a st vars r (Announcing m) \<longleftrightarrow> rq_Method r \<noteq> ''PUT''"
| "phase_ok auth objs same held a st vars r (Looking ps acc) \<longleftrightarrow> rq_Method r = ''POST''"
| "phase_ok auth objs same held a st vars r (Adding p ps acc) \<longleftrightarrow> rq_Method r = ''POST''"
| "phase_ok auth objs same held a st vars r (Answered rep) \<longleftrightarrow>
     (rq_Method r = ''PUT'' \<longrightarrow> (\<forall>w. rep = Reply w \<longrightarrow> final_status w = 200 \<longrightarrow>
        (\<exists>k. same k (rv_Oid (unpack a vars r)) \<and> held (snd st) k \<noteq> None)))"

text \<open>The steps of others: credentials stay, objects and contents are not lost.\<close>

lemma phase_ok_mono:
  assumes "phase_ok auth objs same held a st vars r p" and "auth (fst st') = auth (fst st)"
    and "\<And>oid m. objs (fst st) oid = Some m \<Longrightarrow> objs (fst st') oid = Some m"
    and "\<And>oid. held (snd st) oid \<noteq> None \<Longrightarrow> held (snd st') oid \<noteq> None"
  shows "phase_ok auth objs same held a st' vars r p"
  using assms by (cases p) (auto, blast)

lemma meta_error_not_200: "meta_error r e = Reply w \<Longrightarrow> final_status w \<noteq> 200"
  by (auto simp: meta_error_def split: if_splits)

lemma after_meta_refused:
  "\<lbrakk>\<And>m. res \<noteq> Ok m\<rbrakk> \<Longrightarrow> phase_ok auth objs same held a st vars r (after_meta r res k)"
  by (cases res) (auto dest: meta_error_not_200)

lemma routed_phase_ok:
  assumes "mux_law mux" and "find_route mux r = Some (e, v)"
  shows "phase_ok auth objs same held a st v r (Asking e)"
proof -
  obtain rt where rt: "rt \<in> set api_routes" "route_matches mux r rt" "e = rt_Endpoint rt"
      "mux (rt_Template rt) (rq_Path r) = Some v" by (rule find_route_sound [OF assms(2)])
  then have "rq_Method r = ''PUT'' \<longleftrightarrow> e = PutContent" "e = Post \<or> e = Batch \<longrightarrow> rq_Method r = ''POST''"
    by (auto simp: api_routes_def route_matches_def)
  then show ?thesis using mux_law_routable [OF assms(1) rt(4)] by (auto simp: unpack_oid)
qed

text \<open>The states between which calls of handlers may lead, and the specification's part in it.\<close>

definition call_effect ::
  "('s \<Rightarrow> bool) \<Rightarrow> ('s \<Rightarrow> bytes \<Rightarrow> bool outcome) \<Rightarrow> ('s \<Rightarrow> bytes \<rightharpoonup> MetaObject) \<Rightarrow> ('c \<Rightarrow> bool) \<Rightarrow>
   ('c \<Rightarrow> bytes \<rightharpoonup> bytes) \<Rightarrow> (lfs_event \<Rightarrow> bool) \<Rightarrow> 's \<times> 'c \<Rightarrow> 's \<times> 'c \<Rightarrow> bool" where
  "call_effect iv auth objs ok held P st st' \<longleftrightarrow>
     iv (fst st') \<and> ok (snd st') \<and> auth (fst st') = auth (fst st) \<and>
     (\<forall>oid m. objs (fst st) oid = Some m \<longrightarrow> objs (fst st') oid = Some m) \<and>
     (\<forall>oid. held (snd st) oid \<noteq> None \<longrightarrow> held (snd st') oid \<noteq> None) \<and>
     reaches P (lfs_abs auth objs held st) (lfs_abs auth objs held st')"

lemma call_effect_refl: "iv (fst st) \<Longrightarrow> ok (snd st) \<Longrightarrow> call_effect iv auth objs ok held P st st"
  by (simp add: call_effect_def)

lemma call_effect_mono:
  "call_effect iv auth objs ok held P st st' \<Longrightarrow> (\<And>e. P e \<Longrightarrow> Q e) \<Longrightarrow> call_effect iv auth objs ok held Q st st'"
  using reaches_mono [of P _ _ Q] by (simp add: call_effect_def)

lemma call_effect_trans:
  "call_effect iv auth objs ok held P st st1 \<Longrightarrow> call_effect iv auth objs ok held P st1 st2 \<Longrightarrow>
   call_effect iv auth objs ok held P st st2"
  using reaches_trans unfolding call_effect_def by metis

context lfs_core
begin

lemma put_effect_call:
  assumes "inv s" and "ok c" and "ms_Put (app_metaStore a) s v = (s', res)" and "rq_Method r = ''POST''"
  shows "call_effect inv auth objs ok held (caused cfg r) (s, c) (s', c)"
  using put_inv [OF assms(1,3)] put_auth [OF assms(1,3)] put_monotone [OF assms(1,3)] assms(2)
    reaches_mono [OF put_spec [OF assms(1,3)], of "caused cfg r"] announces_caused assms(4)
  by (simp add: call_effect_def)

lemma upload_effect_call:
  assumes "inv s" and "ok c" and up: "phase_ok auth objs same held a (s, c) vars r (Uploading m)"
    and put: "cs_Put (app_contentStore a) c m (rq_Body r) = (c', res)"
  shows "call_effect inv auth objs ok held (caused cfg r) (s, c) (s, c')"
    and "phase_ok auth objs same held a (s, c') vars r (Answered (upload_reply res))"
proof -
  obtain b err where body: "rq_Body r = (b, err)" by fastforce
  have "auth s (header_Get r ''Authorization'') = Ok True" and "objs s (mo_Oid m) = Some m"
    and "caused cfg r (Stored (header_Get r ''Authorization'') b)" using up by (auto simp: body)
  from store_spec [where P = "caused cfg r", OF assms(2) this(1,2) put [unfolded body] this(3)]
  have "reaches (caused cfg r) (lfs_abs auth objs held (s, c)) (lfs_abs auth objs held (s, c'))" .
  moreover have "routable (mo_Oid m)" using up unfolding phase_ok.simps by blast
  ultimately show "call_effect inv auth objs ok held (caused cfg r) (s, c) (s, c')"
    using assms(1) put_keeps [OF assms(2) _ put] put_monotone_content [OF assms(2) put]
    by (simp add: call_effect_def)
  show "phase_ok auth objs same held a (s, c') vars r (Answered (upload_reply res))"
  proof (cases res)
    case (Ok u)
    with put body have "cs_Put (app_contentStore a) c m (b, err) = (c', Ok ())" by simp
    from put_ok [OF assms(2) this] up show ?thesis
      by (simp del: split_paired_Ex) (intro impI allI exI [of _ "mo_Oid m"], simp)
  next
    case (Err e)
    then show ?thesis by (simp add: http_simps Let_def)
  qed simp
qed

text \<open>One call of one request: its effect, and what the request may rely on afterwards.\<close>

lemma handler_call_effect:
  assumes "inv s" and "ok c" and ph: "phase_ok auth objs same held a (s, c) vars r p"
    and call: "handler_call a vars r p (s, c) = (st', p')"
  shows "call_effect inv auth objs ok held (caused cfg r) (s, c) st' \<and> phase_ok auth objs same held a st' vars r p'"
proof (cases p)
  case (Asking e)
  let ?rv = "unpack a vars r"
  note same = call_effect_refl [of inv "(s, c)" ok auth objs held "caused cfg r"]
  show ?thesis
  proof (cases e)
    case Post
    obtain s' res where put: "ms_Put (app_metaStore a) s ?rv = (s', res)" by fastforce
    have st': "st' = (s', c)" "p' = after_meta r res Announcing" using call Asking Post put by auto
    have m: "rq_Method r = ''POST''" using ph Asking Post by simp
    have "phase_ok auth objs same held a st' vars r p'"
      unfolding st'(2) by (cases res) (auto simp: m)
    then show ?thesis using put_effect_call [OF assms(1,2) put m] st'(1) by simp
  next
    case PutContent
    have st': "st' = (s, c)" "p' = after_meta r (ms_Get (app_metaStore a) s ?rv) Uploading"
      using call Asking PutContent by (auto simp: Let_def)
    have "phase_ok auth objs same held a st' vars r p'"
    proof (cases "ms_Get (app_metaStore a) s ?rv")
      case (Ok m)
      from get_entry [OF assms(1) this] show ?thesis
        using st' Ok ph Asking PutContent same_routable [OF assms(1), of "mo_Oid m" "rv_Oid ?rv"] by simp
    next
      case (Err e)
      then show ?thesis unfolding st'(2) by (intro after_meta_refused) simp
    next
      case (Panic e)
      then show ?thesis unfolding st'(2) by (intro after_meta_refused) simp
    qed
    then show ?thesis using same assms(1,2) st'(1) by simp
  next
    case Batch
    have m: "rq_Method r = ''POST''" using ph Asking Batch by simp
    then show ?thesis
      using call Asking Batch same assms(1,2) by (auto simp: Let_def split: outcome.splits)
  next
    case GetContent
    have m: "rq_Method r \<noteq> ''PUT''" using ph Asking GetContent by simp
    have st': "st' = (s, c)" "p' = after_meta r (ms_Get (app_metaStore a) s ?rv) Downloading"
      using call Asking GetContent by (auto simp: Let_def)
    then show ?thesis
      using same assms(1,2) m by (cases "ms_Get (app_metaStore a) s ?rv") simp_all
  next
    case GetMeta
    have m: "rq_Method r \<noteq> ''PUT''" using ph Asking GetMeta by simp
    obtain st1 rep where h: "handler_of GetMeta a (s, c) vars r = (st1, rep)" by fastforce
    then have "st1 = (s, c)" using reading_handlers [of GetMeta s c vars r] by (cases st1) simp
    then show ?thesis using call Asking GetMeta h same assms(1,2) m by (auto simp: Let_def)
  next
    case Search
    have m: "rq_Method r \<noteq> ''PUT''" using ph Asking Search by simp
    obtain st1 rep where h: "handler_of Search a (s, c) vars r = (st1, rep)" by fastforce
    then have "st1 = (s, c)" using reading_handlers [of Search s c vars r] by (cases st1) simp
    then show ?thesis using call Asking Search h same assms(1,2) m by (auto simp: Let_def)
  qed
next
  case (Uploading m)
  obtain c' res where put: "cs_Put (app_contentStore a) c m (rq_Body r) = (c', res)" by fastforce
  from upload_effect_call [OF assms(1,2) ph [unfolded Uploading] put] show ?thesis
    using call Uploading put by auto
next
  case (Looking ps acc)
  have m: "rq_Method r = ''POST''" using ph Looking by simp
  consider "ps = []" | qs where "ps = None # qs" | v qs where "ps = Some v # qs"
    by (metis list.exhaust option.exhaust)
  then show ?thesis
    by cases (use call Looking m call_effect_refl [of inv "(s, c)" ok] assms(1,2) in
        \<open>auto split: outcome.splits if_splits\<close>)
next
  case (Adding v ps acc)
  obtain s' res where put: "ms_Put (app_metaStore a) s v = (s', res)" by fastforce
  have m: "rq_Method r = ''POST''" using ph Adding by simp
  then show ?thesis
    using call Adding put put_effect_call [OF assms(1,2) put m] by (auto split: outcome.splits)
qed (use assms call_effect_refl [of inv "(s, c)" ok] in auto)

lemma call_effect_phase_ok:
  assumes "phase_ok auth objs same held a st vars r p" and "call_effect inv auth objs ok held P st st'"
  shows "phase_ok auth objs same held a st' vars r p"
  by (rule phase_ok_mono [OF assms(1)]) (use assms(2) in \<open>auto simp: call_effect_def\<close>)

text \<open>However calls interleave: the stores stay well-formed, and what happens is a run of the specification.\<close>

lemma busy_run:
  assumes "(busy_step a mux)\<^sup>*\<^sup>* (idle st) s" and "mux_law mux" and "inv (fst st)" and "ok (snd st)"
  shows "call_effect inv auth objs ok held
      (\<lambda>e. \<exists>k q. bs_Calls s k = Some q \<and> caused (app_Config a) (rc_Request q) e) st (bs_State s) \<and>
    (\<forall>k q. bs_Calls s k = Some q \<longrightarrow>
       phase_ok auth objs same held a (bs_State s) (rc_Vars q) (rc_Request q) (rc_Phase q))"
  using assms
proof (induction rule: rtranclp_induct)
  case base
  then show ?case by (simp add: idle_def call_effect_refl)
next
  case (step s s1)
  let ?by = "\<lambda>s e. \<exists>k q. bs_Calls s k = Some q \<and> caused (app_Config a) (rc_Request q) e"
  have eff: "call_effect inv auth objs ok held (?by s) st (bs_State s)"
    and ph: "phase_ok auth objs same held a (bs_State s) (rc_Vars q) (rc_Request q) (rc_Phase q)"
      if "bs_Calls s k = Some q" for k q
    using step that by blast+
  have eff: "call_effect inv auth objs ok held (?by s) st (bs_State s)" using step by blast
  have keep: "?by s e \<Longrightarrow> ?by s1 e" for e using busy_step_requests [OF step(2)] by metis
  from step(2) show ?case
  proof (cases rule: busy_stepE)
    case (arrive k r e v)
    have "call_effect inv auth objs ok held (?by s1) st (bs_State s1)"
      using call_effect_mono [OF eff keep] arrive(1) by simp
    moreover have "phase_ok auth objs same held a (bs_State s1) (rc_Vars q) (rc_Request q) (rc_Phase q)"
      if "bs_Calls s1 j = Some q" for j q
    proof (cases "j = k")
      case True
      then have q: "q = new_request e v r" using that arrive(1) by simp
      have "phase_ok auth objs same held a (bs_State s1) v r (Asking e)" by (rule routed_phase_ok [OF step(4) arrive(3)])
      then show ?thesis unfolding q new_request_def by (simp del: phase_ok.simps)
    next
      case False
      then show ?thesis using that ph [of j q] arrive(1) by simp
    qed
    ultimately show ?thesis by blast
  next
    case (proceed k q st' p')
    obtain t c where t: "bs_State s = (t, c)" by fastforce
    have ok: "inv t" "ok c" using eff by (simp_all add: call_effect_def t)
    let ?r = "rc_Request q"
    have one: "call_effect inv auth objs ok held (caused (app_Config a) ?r) (t, c) st'"
      "phase_ok auth objs same held a st' (rc_Vars q) ?r p'"
      using handler_call_effect [OF ok ph [OF proceed(2), unfolded t] proceed(3) [unfolded t], of "app_Config a"]
      by blast+
    have mine: "caused (app_Config a) ?r e \<Longrightarrow> ?by s1 e" for e
      using proceed(1) by (intro exI [of _ k]) simp
    have "call_effect inv auth objs ok held (?by s1) (bs_State s) (bs_State s1)"
      using call_effect_mono [OF one(1) mine] proceed(1) t by simp
    from call_effect_trans [OF call_effect_mono [OF eff keep] this]
    have "call_effect inv auth objs ok held (?by s1) st (bs_State s1)" .
    moreover have "phase_ok auth objs same held a (bs_State s1) (rc_Vars x) (rc_Request x) (rc_Phase x)"
      if "bs_Calls s1 j = Some x" for j x
      using that ph [of j x] one(2) call_effect_phase_ok [OF _ one(1)] proceed(1)
      by (auto simp: t split: if_splits)
    ultimately show ?thesis by blast
  qed
qed

end

end
