(* ===== verification/Lfs_Server.thy ===== *)
theory Lfs_Server
  imports Handler_Race Bolt_Store Content_Store
begin

text \<open>
  The server in its default configuration: the handlers over the Bolt metadata store and
  the file content store.  The laws of the handlers, proved from the contracts of the two
  interfaces, hold here of the code's own definitions.
\<close>

definition bolt_file_app ::
  "('db, 'c) bolt_env \<Rightarrow> bytes \<Rightarrow> (reader \<Rightarrow> json option) \<Rightarrow> ('db, fs) App" where
  "bolt_file_app env base js =
     \<lparr>app_Config = be_Config env, app_contentStore = file_store base, app_metaStore = bolt_store env,
      app_json = js\<rparr>"

lemma bolt_file_app_simps [simp]:
  "app_Config (bolt_file_app env base js) = be_Config env"
  "app_contentStore (bolt_file_app env base js) = file_store base"
  "app_metaStore (bolt_file_app env base js) = bolt_store env"
  "app_json (bolt_file_app env base js) = js"
  by (simp_all add: bolt_file_app_def)

interpretation lfs: mgmt_app "bolt_file_app env base js" "bolt_inv env" "authenticate env"
  "bolt_objs env" "store_ok base" "held_content base" for env base js
  unfolding mgmt_app_def mgmt_core_def lfs_app_def lfs_core_def bolt_file_app_simps
  using bolt.ledger_store_axioms bolt.meta_store_axioms files.content_store_axioms
    bolt_managed.managed_ledger_axioms by blast

section \<open>Requests for the witnesses\<close>

text \<open>
  The requests of \<^verbatim>\<open>harbour_test.go\<close>: one announces the test object, one uploads it, one
  downloads it; the router knows the two paths they use, and the JSON reader the one body.
\<close>

definition test_request :: "bytes \<Rightarrow> bytes \<Rightarrow> bytes \<Rightarrow> reader \<Rightarrow> request" where
  "test_request method path accept body =
     \<lparr>rq_Method = method, rq_Path = path, rq_Header = (\<lambda>k. if k = ''Accept'' then [accept] else []),
      rq_Body = body\<rparr>"

definition test_vars :: route_vars where
  "test_vars = [''namespace'' \<mapsto> ''ns'', ''repo'' \<mapsto> ''repo'', ''oid'' \<mapsto> test_oid]"

definition test_mux :: mux where
  "test_mux t p =
     (if t = ''/{namespace}/{repo}/objects'' \<and> p = ''/ns/repo/objects'' then Some (test_vars(''oid'' := None))
      else if t = object_route \<and> p = ''/ns/repo/objects/'' @ test_oid then Some test_vars else None)"

definition test_json :: "reader \<Rightarrow> json option" where
  "test_json rd = Some (JObj [(''oid'', JStr test_oid), (''size'', JInt 18)])"

definition batch_json :: "reader \<Rightarrow> json option" where
  "batch_json rd = Some (JObj [(''objects'', JArr [JObj [(''oid'', JStr test_oid)]])])"

definition test_app :: "bool \<Rightarrow> (mem_db, fs) App" where
  "test_app public = bolt_file_app (mem_env public) test_base test_json"

definition test_post :: request where
  "test_post = test_request ''POST'' ''/ns/repo/objects'' metaMediaType (''{}'', None)"

definition test_put :: request where
  "test_put = test_request ''PUT'' (''/ns/repo/objects/'' @ test_oid) contentMediaType (test_content, None)"

definition test_get :: request where
  "test_get = test_request ''GET'' (''/ns/repo/objects/'' @ test_oid) contentMediaType ([], None)"

text \<open>Management pages without templates and assets; the forms name one user.\<close>

definition test_mgmt :: "mem_db mgmt_env" where
  "test_mgmt =
     \<lparr>mg_FormValue = (\<lambda>r k. if k = ''name'' then ''bilbo'' else ''ring''),
      mg_Query = (\<lambda>r k. []), mg_Template = (\<lambda>t. Inl (ErrExt ''no template'')), mg_Parse = (\<lambda>t. None),
      mg_Execute = (\<lambda>b t d. ([], None)), mg_DumpConfig = (\<lambda>c. JNull), mg_Css = (\<lambda>f. None),
      mg_Js = (\<lambda>f. None), mg_FindMetaStore = (\<lambda>db. Err (ErrExt ''timeout'')), mg_NoRows = JNull\<rparr>"

lemma test_requests [simp]:
  "rq_Method test_post = ''POST''" "rq_Method test_put = ''PUT''" "rq_Method test_get = ''GET''"
  "rq_Body test_put = (test_content, None)"
  "header_Get test_post ''Authorization'' = []" "header_Get test_put ''Authorization'' = []"
  "header_Get test_get ''Authorization'' = []"
  by (simp_all add: test_post_def test_put_def test_get_def test_request_def header_Get_def)

lemma test_mux_law: "mux_law test_mux"
proof -
  have hex: "CHR ''/'' \<notin> set test_oid"
    using hex_routable [of test_oid] oid_of_shape [of test_content] oid_of_test by (simp add: routable_def)
  then show ?thesis
    by (auto simp: mux_law_def test_mux_def test_vars_def split: if_splits)
qed

lemma test_decode:
  "decode_vars (JObj [(''oid'', JStr test_oid), (''size'', JInt 18)]) zero_vars =
     (zero_vars\<lparr>rv_Oid := test_oid, rv_Size := 18\<rparr>, True)"
proof -
  have k: "fold_key ''oid'' = ''oid''" "fold_key ''size'' = ''size''"
    by (simp_all add: fold_char_def Let_def)
  show ?thesis by (simp add: set_field_def k Let_def zero_vars_def del: fold_key.simps)
qed

lemma batch_decode:
  "decode_batch (JObj [(''objects'', JArr [JObj [(''oid'', JStr test_oid)]])]) =
     ([Some (zero_vars\<lparr>rv_Oid := test_oid\<rparr>)], True)"
proof -
  have "fold_key ''objects'' = ''objects''" "fold_key ''oid'' = ''oid''"
    by (simp_all add: fold_char_def Let_def)
  then show ?thesis by (simp add: set_field_def Let_def zero_vars_def del: fold_key.simps)
qed

lemma test_new: "bolt_objs (mem_env public) mem_fresh oid = None"
  by (simp add: bolt_objs_def)

lemma test_empty: "held_content test_base test_fs = Map.empty"
  by (rule NewContentStore_ok [OF test_fs_new])

lemma test_post_run:
  obtains st rep where "serve (test_app True) test_mgmt test_mux (mem_fresh, test_fs) test_post = (st, rep)"
    "served (test_app True) test_mgmt test_mux (mem_fresh, test_fs) [test_post] st"
proof -
  obtain st rep where s: "serve (test_app True) test_mgmt test_mux (mem_fresh, test_fs) test_post = (st, rep)"
    by fastforce
  from served.request [OF served.start this] that s show thesis by simp
qed

section \<open>An upload after its announcement\<close>

text \<open>A new object that the database takes is announced with 202.\<close>

lemma post_taken:
  assumes inv: "bolt_inv env s" and auth: "authenticate env s (header_Get r ''Authorization'') = Ok True"
    and new: "bolt_objs env s (rv_Oid (unpack (bolt_file_app env base js) vars r)) = None"
    and can: "can_put env s (unpack (bolt_file_app env base js) vars r)"
  obtains s1 w where "PostHandler (bolt_file_app env base js) (s, c) vars r = ((s1, c), Reply w)" "final_status w = 202"
proof -
  let ?rv = "unpack (bolt_file_app env base js) vars r"
  obtain s1 where "MetaStore_Put env s ?rv = (s1, Ok (new_object ?rv))"
    using Put_taken [OF inv _ new can] auth by auto
  then show thesis
    using that by (simp add: PostHandler_def Let_def new_object_def http_simps)
qed

lemma announced_upload:
  assumes inv: "bolt_inv env s" and ok: "store_ok base c"
    and auth: "authenticate env s (header_Get r1 ''Authorization'') = Ok True"
      "authenticate env s (header_Get r2 ''Authorization'') = Ok True"
    and announce: "rq_Method r1 = ''POST''" "js (rq_Body r1) = Some j" "decode_vars j zero_vars = (p, True)"
      "rv_Oid p = oid_of b" "rv_Size p = int64_len b" "bolt_objs env s (oid_of b) = None"
      "can_put env s (unpack (bolt_file_app env base js) v1 r1)"
    and upload: "rq_Method r2 = ''PUT''" "var v2 ''oid'' = oid_of b" "rq_Body r2 = (b, None)"
      "entry c (tmp_key base (oid_of b)) = None"
  obtains s1 w1 c2 where "PostHandler (bolt_file_app env base js) (s, c) v1 r1 = ((s1, c), Reply w1)"
    "final_status w1 = 202"
    "PutHandler (bolt_file_app env base js) (s1, c) v2 r2 = ((s1, c2), Reply fresh_writer)"
    "bolt_inv env s1" "authenticate env s1 = authenticate env s"
    "held_content base c2 = (held_content base c)(oid_of b \<mapsto> b)"
proof -
  let ?a = "bolt_file_app env base js"
  have oids: "rv_Oid (unpack ?a v1 r1) = oid_of b" "rv_Size (unpack ?a v1 r1) = int64_len b"
    "rv_Oid (unpack ?a v2 r2) = oid_of b"
    using unpack_post [of r1 ?a j p v1] announce(1-5) upload(1,2) by (simp_all add: unpack_oid)
  have new: "bolt_objs env s (rv_Oid (unpack ?a v1 r1)) = None" using announce(6) oids(1) by simp
  obtain s1 w1 where post: "PostHandler ?a (s, c) v1 r1 = ((s1, c), Reply w1)" "final_status w1 = 202"
    by (rule post_taken [OF inv auth(1) new announce(7)])
  obtain m' where inv1: "bolt_inv env s1" and m': "entry_for (unpack ?a v1 r1) m'"
      "bolt_objs env s1 = (bolt_objs env s)(rv_Oid (unpack ?a v1 r1) \<mapsto> m')"
  proof (cases rule: lfs.post_new [OF inv auth(1) new post(1)])
    case (1 m m')
    then show thesis by (intro that)
  next
    case 2
    then show thesis using post(2) by simp
  qed
  have auth1: "authenticate env s1 = authenticate env s"
    using lfs.handler_accounts [where e = Post and env = env and base = base, OF inv, OF post(1) [folded handler_of.simps]]
    by (simp add: same_accounts_def)
  have obj: "bolt_objs env s1 (oid_of b) = Some m'" using m'(2) oids(1) by simp
  have meta: "mo_Oid m' = oid_of b" "matches_meta m' b"
    using m'(1) oids(1,2) by (simp_all add: entry_for_def matches_meta_def)
  have free: "entry c (tmp_key base (mo_Oid m')) = None" using upload(4) meta(1) by simp
  obtain c2 where put: "ContentStore_Put base c m' (b, None) = (c2, Ok ())"
    by (rule Put_matching [OF ok meta(2) free])
  have "MetaStore_Get env s1 (unpack ?a v2 r2) = Ok m'"
    using bolt_Get [OF inv1, of "unpack ?a v2 r2"] auth1 auth(2) oids(3) obj by simp
  then have h2: "PutHandler ?a (s1, c) v2 r2 = ((s1, c2), Reply fresh_writer)"
    using put upload(3) by (simp add: PutHandler_def)
  have "held_content base c2 = (held_content base c)(oid_of b \<mapsto> b)"
    using files.put_ok [OF ok, of m' b None c2] put meta(1) by simp
  then show thesis by (intro that [OF post h2 inv1 auth1])
qed

lemma fresh_status: "final_status fresh_writer = 200"
  by (simp add: fresh_writer_def final_status_def)

lemma test_can_put:
  "can_put (mem_env True) mem_fresh (unpack (bolt_file_app (mem_env True) test_base test_json) vars test_post)"
proof -
  have "rv_Oid (unpack (bolt_file_app (mem_env True) test_base test_json) vars test_post) = test_oid"
    using unpack_post(1) [of test_post "bolt_file_app (mem_env True) test_base test_json" _ _ vars] test_decode
    by (simp add: test_json_def)
  moreover have "test_oid \<noteq> []" using test_valid by (auto simp: valid_oid_def test_meta_def)
  ultimately show ?thesis by (intro mem_can_put) simp_all
qed

lemma test_content_facts:
  "var test_vars ''oid'' = oid_of test_content" "int64_len test_content = 18" "test_content \<noteq> []"
proof -
  show "var test_vars ''oid'' = oid_of test_content" by (simp add: var_def test_vars_def oid_of_test)
qed (simp_all add: int64_len_def test_content_def)

section \<open>Properties\<close>

text \<open>
  The server refines the specification \<open>lfs_run\<close>.  Whatever requests it serves, in any
  order, what they make of the credentials it accepts, of the announced objects and of the contents
  on disk is a run of the specification: an object is announced once, a content is stored
  under its own hash and only with the announced length, both only with credentials accepted
  at that moment.  The events come from the requests, each from its own: announcements from
  \<^verbatim>\<open>POST\<close>, contents from the body of a \<^verbatim>\<open>PUT\<close> with the credentials of its header, changes of
  the accounts from the administrator.
\<close>

theorem server_refines_spec:
  assumes "served (bolt_file_app env base js) mg mux st rs st'" and "mux_law mux"
    and "bolt_inv env (fst st)" and "store_ok base (snd st)"
  shows "\<exists>ess. lfs_run (concat ess) (lfs_abs (authenticate env) (bolt_objs env) (held_content base) st) =
      Some (lfs_abs (authenticate env) (bolt_objs env) (held_content base) st') \<and>
    list_all2 (\<lambda>r. list_all (caused (be_Config env) r)) rs ess"
  using lfs.served_spec [OF assms] by simp

lemma server_refines_spec_witness:
  "\<exists>st rep es. serve (test_app True) test_mgmt test_mux (mem_fresh, test_fs) test_post = (st, rep) \<and>
     lfs_run es (lfs_abs (authenticate (mem_env True)) (bolt_objs (mem_env True)) (held_content test_base)
         (mem_fresh, test_fs)) =
       Some (lfs_abs (authenticate (mem_env True)) (bolt_objs (mem_env True)) (held_content test_base) st)"
proof -
  obtain st rep where s: "serve (test_app True) test_mgmt test_mux (mem_fresh, test_fs) test_post = (st, rep)"
    and run: "served (test_app True) test_mgmt test_mux (mem_fresh, test_fs) [test_post] st" by (rule test_post_run)
  from server_refines_spec [OF run [unfolded test_app_def] test_mux_law] s show ?thesis
    using mem_fresh_inv test_store_ok by auto
qed

text \<open>
  Whatever requests a server in this configuration serves, of the API or of the
  management pages, in whatever order, answered or aborted: the object table and the content
  store stay well-formed, every content goes on hashing to its OID, no object is lost or
  altered and no content is lost.
\<close>

theorem served_stores_sound:
  assumes "served (bolt_file_app env base js) mg mux st rs st'" and "mux_law mux"
    and "bolt_inv env (fst st)" and "store_ok base (snd st)"
    and "\<forall>oid b. held_content base (snd st) oid = Some b \<longrightarrow> oid_of b = oid"
  shows "bolt_inv env (fst st') \<and> store_ok base (snd st') \<and>
    (\<forall>oid b. held_content base (snd st') oid = Some b \<longrightarrow> oid_of b = oid) \<and>
    (\<forall>oid m. bolt_objs env (fst st) oid = Some m \<longrightarrow> bolt_objs env (fst st') oid = Some m) \<and>
    (\<forall>oid. held_content base (snd st) oid \<noteq> None \<longrightarrow> held_content base (snd st') oid \<noteq> None)"
  using lfs.served_good [OF assms(1-4)] assms(5) unfolding good_step_def by blast

lemma served_stores_sound_witness:
  "\<exists>st rep. serve (test_app True) test_mgmt test_mux (mem_fresh, test_fs) test_post = (st, rep) \<and>
     bolt_inv (mem_env True) (fst st) \<and> store_ok test_base (snd st)"
proof -
  obtain st rep where s: "serve (test_app True) test_mgmt test_mux (mem_fresh, test_fs) test_post = (st, rep)"
    and run: "served (test_app True) test_mgmt test_mux (mem_fresh, test_fs) [test_post] st" by (rule test_post_run)
  from served_stores_sound [OF run [unfolded test_app_def] test_mux_law] have
    "bolt_inv (mem_env True) (fst st) \<and> store_ok test_base (snd st)"
    using mem_fresh_inv test_store_ok by (simp add: test_empty)
  with s show ?thesis by blast
qed

text \<open>
  C2: the whole protocol.  A client announces an object that the server does not know; if the
  database takes the entry, the answer is 202.  The client uploads the content, whose hash and
  length are the announced ones, and is answered 200; any authorised client that then
  downloads the object gets 200 and the content, byte for byte.
\<close>

theorem announce_upload_download:
  assumes inv: "bolt_inv env s" and ok: "store_ok base c"
    and auth: "authenticate env s (header_Get r1 ''Authorization'') = Ok True"
      "authenticate env s (header_Get r2 ''Authorization'') = Ok True"
      "authenticate env s (header_Get r3 ''Authorization'') = Ok True"
    and announce: "rq_Method r1 = ''POST''" "js (rq_Body r1) = Some j" "decode_vars j zero_vars = (p, True)"
      "rv_Oid p = oid_of b" "rv_Size p = int64_len b" "bolt_objs env s (oid_of b) = None"
      "can_put env s (unpack (bolt_file_app env base js) v1 r1)"
    and upload: "rq_Method r2 = ''PUT''" "var v2 ''oid'' = oid_of b" "rq_Body r2 = (b, None)"
      "entry c (tmp_key base (oid_of b)) = None"
    and download: "rq_Method r3 = ''GET''" "var v3 ''oid'' = oid_of b"
  shows "\<exists>s1 c2 w1 w2 w3. PostHandler (bolt_file_app env base js) (s, c) v1 r1 = ((s1, c), Reply w1) \<and>
    final_status w1 = 202 \<and>
    PutHandler (bolt_file_app env base js) (s1, c) v2 r2 = ((s1, c2), Reply w2) \<and>
    final_status w2 = 200 \<and>
    GetContentHandler (bolt_file_app env base js) (s1, c2) v3 r3 = ((s1, c2), Reply w3) \<and>
    final_status w3 = 200 \<and> w_Body w3 = (if b = [] then [] else [Raw b])"
proof -
  let ?a = "bolt_file_app env base js"
  obtain s1 w1 c2 where h1: "PostHandler ?a (s, c) v1 r1 = ((s1, c), Reply w1)" "final_status w1 = 202"
    and h2: "PutHandler ?a (s1, c) v2 r2 = ((s1, c2), Reply fresh_writer)"
    and inv1: "bolt_inv env s1" and auth1: "authenticate env s1 = authenticate env s"
    using announced_upload [OF inv ok auth(1,2) announce upload] by metis
  have same: "rv_Oid (unpack ?a v3 r3) = rv_Oid (unpack ?a v2 r2)"
    using upload(1,2) download by (simp add: unpack_oid)
  have au3: "authenticate env s1 (header_Get r3 ''Authorization'') = Ok True" using auth1 auth(3) by simp
  have "GetContentHandler ?a (s1, c2) v3 r3 = ((s1, c2), Reply (copy_out (b, None) fresh_writer))"
    using lfs.put_then_download [OF inv1 ok h2 fresh_status same au3] upload(3) by simp
  with h1 h2 fresh_status show ?thesis by (intro exI conjI) (assumption | simp)+
qed

lemma announce_upload_download_witness:
  "\<exists>s1 c2 w1 w2 w3. PostHandler (test_app True) (mem_fresh, test_fs) (test_vars(''oid'' := None)) test_post =
       ((s1, test_fs), Reply w1) \<and> final_status w1 = 202 \<and>
     PutHandler (test_app True) (s1, test_fs) test_vars test_put = ((s1, c2), Reply w2) \<and> final_status w2 = 200 \<and>
     GetContentHandler (test_app True) (s1, c2) test_vars test_get = ((s1, c2), Reply w3) \<and>
     final_status w3 = 200 \<and> w_Body w3 = [Raw test_content]"
proof -
  let ?a = "bolt_file_app (mem_env True) test_base test_json"
  note var = test_content_facts(1)
  have "\<exists>s1 c2 w1 w2 w3. PostHandler ?a (mem_fresh, test_fs) (test_vars(''oid'' := None)) test_post =
        ((s1, test_fs), Reply w1) \<and> final_status w1 = 202 \<and>
      PutHandler ?a (s1, test_fs) test_vars test_put = ((s1, c2), Reply w2) \<and>
      final_status w2 = 200 \<and>
      GetContentHandler ?a (s1, c2) test_vars test_get = ((s1, c2), Reply w3) \<and>
      final_status w3 = 200 \<and> w_Body w3 = (if test_content = [] then [] else [Raw test_content])"
    by (rule announce_upload_download [OF mem_fresh_inv test_store_ok mem_authenticate mem_authenticate
          mem_authenticate test_requests(1) _ test_decode _ _ _ test_can_put test_requests(2) var test_requests(4)
          test_tmp_free test_requests(3) var])
      (simp_all add: test_json_def oid_of_test test_content_facts test_new)
  then show ?thesis using test_content_facts(3) unfolding test_app_def by simp
qed

text \<open>
  C6: an \<^verbatim>\<open>Authorization\<close> header that the metadata store does not accept.  Every object request
  is answered 401 with a challenge and changes nothing in either store.  A batch changes
  nothing either: one whose body decodes and names an object is answered 401 like the others,
  one without objects, or with a body that is no JSON, gets an empty list, and one with a null
  object ends in a panic.  When a batch decodes only in part \<^verbatim>\<open>unpackbatch\<close> leaves its objects
  the credentials that stand in the body; if the store refuses these as well, the same holds.
\<close>

theorem refused_requests_change_nothing:
  assumes denied: "authenticate env s (header_Get r ''Authorization'') = Ok False"
  shows "\<exists>w w0. final_status w = 401 \<and> w_Header w ''Lfs-Authenticate'' = Some ''Basic realm=lfs-server-go'' \<and>
    final_status w0 = 200 \<and> w_Body w0 = [Json (encode_batch [])] \<and>
    (\<forall>e. e \<noteq> Batch \<longrightarrow> handler_of e (bolt_file_app env base js) (s, c) vars r = ((s, c), Reply w)) \<and>
    (js (rq_Body r) = None \<longrightarrow> BatchHandler (bolt_file_app env base js) (s, c) vars r = ((s, c), Reply w0)) \<and>
    (\<forall>j ps. js (rq_Body r) = Some j \<longrightarrow> decode_batch j = (ps, True) \<longrightarrow>
       BatchHandler (bolt_file_app env base js) (s, c) vars r =
         ((s, c), if None \<in> set ps then Aborted nil_dereference else Reply (if ps = [] then w0 else w))) \<and>
    (\<forall>j ps. js (rq_Body r) = Some j \<longrightarrow> decode_batch j = (ps, False) \<longrightarrow>
       (\<forall>p. Some p \<in> set ps \<longrightarrow> authenticate env s (rv_Authorization p) = Ok False) \<longrightarrow>
       BatchHandler (bolt_file_app env base js) (s, c) vars r =
         ((s, c), if ps = [] then Reply w0 else if hd ps = None then Aborted nil_dereference else Reply w))"
proof (rule exI [of _ "requireAuth fresh_writer r"], rule exI [of _ "w_Write (Header_Set fresh_writer
    ''Content-Type'' metaMediaType) (Json (encode_batch []))"], intro conjI allI impI)
  let ?a = "bolt_file_app env base js"
  fix e
  assume "e \<noteq> Batch"
  then show "handler_of e ?a (s, c) vars r = ((s, c), Reply (requireAuth fresh_writer r))"
    using lfs.refused [OF denied, of base js c vars] by (cases e) simp_all
next
  fix j ps
  assume "js (rq_Body r) = Some j" "decode_batch j = (ps, True)"
  then show "BatchHandler (bolt_file_app env base js) (s, c) vars r =
      ((s, c), if None \<in> set ps then Aborted nil_dereference
        else Reply (if ps = [] then w_Write (Header_Set fresh_writer ''Content-Type'' metaMediaType)
          (Json (encode_batch [])) else requireAuth fresh_writer r))"
    using denied by (cases ps; cases "hd ps")
      (auto simp: BatchHandler_def unpackbatch_def fill_batch_vars_def MetaStore_Get_def)
next
  fix j ps
  assume "js (rq_Body r) = Some j" "decode_batch j = (ps, False)"
    "\<forall>p. Some p \<in> set ps \<longrightarrow> authenticate env s (rv_Authorization p) = Ok False"
  then show "BatchHandler (bolt_file_app env base js) (s, c) vars r =
      ((s, c), if ps = [] then Reply (w_Write (Header_Set fresh_writer ''Content-Type'' metaMediaType)
          (Json (encode_batch []))) else if hd ps = None then Aborted nil_dereference
        else Reply (requireAuth fresh_writer r))"
    by (cases ps; cases "hd ps") (auto simp: BatchHandler_def unpackbatch_def MetaStore_Get_def)
qed (simp_all add: BatchHandler_def unpackbatch_def http_simps Let_def)

lemma refused_requests_change_nothing_witness:
  "\<exists>w w'. final_status w' = 401 \<and>
     PutHandler (bolt_file_app (mem_env False) test_base batch_json) (mem_fresh, test_fs) test_vars test_put =
       ((mem_fresh, test_fs), Reply w') \<and>
     final_status w = 401 \<and>
     BatchHandler (bolt_file_app (mem_env False) test_base batch_json) (mem_fresh, test_fs) test_vars test_post =
       ((mem_fresh, test_fs), Reply w)"
proof -
  have "authenticate (mem_env False) mem_fresh (header_Get test_post ''Authorization'') = Ok False"
    by (simp add: authenticate_def basic_credentials_def)
  from refused_requests_change_nothing [OF this, of test_base batch_json test_fs test_vars] obtain w where
    "final_status w = 401"
    "BatchHandler (bolt_file_app (mem_env False) test_base batch_json) (mem_fresh, test_fs) test_vars test_post =
        ((mem_fresh, test_fs), Reply w)"
    using batch_decode by (auto simp: batch_json_def)
  moreover have "authenticate (mem_env False) mem_fresh (header_Get test_put ''Authorization'') = Ok False"
    by (simp add: authenticate_def basic_credentials_def)
  from refused_requests_change_nothing [OF this, of test_base batch_json test_fs test_vars] obtain w' where
    "final_status w' = 401"
    "PutHandler (bolt_file_app (mem_env False) test_base batch_json) (mem_fresh, test_fs) test_vars test_put =
        ((mem_fresh, test_fs), Reply w')"
    by (metis endpoint.distinct(7) handler_of.simps(5))
  ultimately show ?thesis by blast
qed

text \<open>
  C5: the answer to an upload tells its effect.  200: the object is known, the body was read
  to its end, has the size and the hash on record, and is now the content of the OID.  500,
  404 or 401: no content changed.  The metadata never change.
\<close>

theorem upload_answer_tells_effect:
  assumes "bolt_inv env s" and "store_ok base c"
    and "PutHandler (bolt_file_app env base js) (s, c) vars r = ((s', c'), Reply w)"
    and "rq_Method r = ''PUT''"
  shows "s' = s \<and>
    (final_status w = 200 \<and> snd (rq_Body r) = None \<and> oid_of (fst (rq_Body r)) = var vars ''oid'' \<and>
       (\<exists>m. bolt_objs env s (var vars ''oid'') = Some m \<and> int64_len (fst (rq_Body r)) = mo_Size m) \<and>
       held_content base c' = (held_content base c)(var vars ''oid'' \<mapsto> fst (rq_Body r)) \<or>
     final_status w \<in> {401, 404, 500} \<and> held_content base c' = held_content base c)"
proof -
  have oid: "rv_Oid (unpack (bolt_file_app env base js) vars r) = var vars ''oid''"
    using assms(4) by (simp add: unpack_oid)
  show ?thesis
    using files.put_ok_clean [OF assms(2)] files.put_failed [OF assms(2)]
    by (cases rule: lfs.put_cases [OF assms(1-3), unfolded oid])
      (auto simp: matches_meta_def simp del: fun_upd_apply)
qed

lemma upload_answer_tells_effect_witness:
  "\<exists>w. PutHandler (test_app True) (mem_fresh, test_fs) test_vars test_put = ((mem_fresh, test_fs), Reply w) \<and>
     final_status w \<in> {401, 404, 500} \<and> held_content test_base test_fs = Map.empty"
proof -
  have "MetaStore_Get (mem_env True) mem_fresh rv = Err ErrObjectNotFound" for rv
    using bolt_Get [OF mem_fresh_inv mem_authenticate] test_new by simp
  then obtain w where put: "PutHandler (bolt_file_app (mem_env True) test_base test_json) (mem_fresh, test_fs)
      test_vars test_put = ((mem_fresh, test_fs), Reply w)"
    by (simp add: PutHandler_def meta_error_def)
  have "held_content test_base test_fs \<noteq> (held_content test_base test_fs)(oid \<mapsto> x)" for oid x
    by (simp add: test_empty) (metis fun_upd_same option.distinct(1))
  with upload_answer_tells_effect [OF mem_fresh_inv test_store_ok put] put
  show ?thesis by (auto simp: test_app_def test_empty)
qed

text \<open>
  C26: an announced object whose content never arrived stays unreachable through the batch
  API.  The batch reply offers the download link, and only that one, although the download
  answers 404; only the single-object API, answering 202, offers the upload again.
\<close>

theorem batch_hides_missing_content:
  assumes inv: "bolt_inv env s" and ok: "store_ok base c"
    and auth: "authenticate env s (header_Get r ''Authorization'') = Ok True"
    and batch: "unpackbatch (bolt_file_app env base js) vars r = Ok [Some p]"
      "rv_Authorization p = header_Get r ''Authorization''"
    and known: "bolt_objs env s (rv_Oid p) = Some m" and missing: "held_content base c (rv_Oid p) = None"
    and oid: "rv_Oid p = oid_of b"
    and get: "rv_Oid (unpack (bolt_file_app env base js) vars' r') = rv_Oid p"
      "authenticate env s (header_Get r' ''Authorization'') = Ok True"
  shows "\<exists>w rep. BatchHandler (bolt_file_app env base js) (s, c) vars r = ((s, c), Reply w) \<and>
    w_Body w = [Json (encode_batch [rep])] \<and> rep_Oid rep = rv_Oid p \<and>
    rep_Links rep ''download'' \<noteq> None \<and> rep_Links rep ''upload'' = None \<and>
    GetContentHandler (bolt_file_app env base js) (s, c) vars' r' = ((s, c), Reply (writeStatus fresh_writer r' 404)) \<and>
    (\<exists>w'. PostHandler (bolt_file_app env base js) (s, c) vars' r' = ((s, c), Reply w') \<and> final_status w' = 202)"
proof -
  let ?a = "bolt_file_app env base js" and ?rep = "Represent (be_Config env) p m True False"
  have m: "mo_Oid m = rv_Oid p" using bolt.entry_oid [OF inv known] by simp
  have "GetContentHandler ?a (s, c) vars' r' = ((s, c), Reply (writeStatus fresh_writer r' 404))"
    using lfs.download_absent [where vars = vars' and m = m and b = b and js = js, OF inv ok get(2)]
      known missing m oid get(1) by simp
  moreover have "\<not> ContentStore_Exists base c (m\<lparr>mo_Existing := True\<rparr>)"
    using Exists_held [OF ok, of "m\<lparr>mo_Existing := True\<rparr>"] missing m oid by simp
  then have "\<exists>w'. PostHandler ?a (s, c) vars' r' = ((s, c), Reply w') \<and> final_status w' = 202"
    using lfs.post_known [where vars = vars' and m = m and c = c and js = js and base = base, OF inv get(2)]
      known get(1) by (simp add: http_simps Let_def)
  moreover have "BatchHandler ?a (s, c) vars r = ((s, c), Reply (w_Write
      (Header_Set fresh_writer ''Content-Type'' metaMediaType) (Json (encode_batch [?rep]))))"
    using lfs.batch_handler_one [where c = c, OF inv auth batch known] by simp
  moreover have "w_Body (w_Write (Header_Set fresh_writer ''Content-Type'' metaMediaType) x) = [x]" for x
    by (simp add: http_simps Let_def)
  ultimately show ?thesis
    using m
    by (intro exI [of _ "w_Write (Header_Set fresh_writer ''Content-Type'' metaMediaType)
        (Json (encode_batch [?rep]))"], intro exI [of _ ?rep])
      (simp add: Represent_links)
qed

lemma batch_hides_missing_content_witness:
  "\<exists>s1 w rep. BatchHandler (bolt_file_app (mem_env True) test_base batch_json) (s1, test_fs) test_vars test_post =
       ((s1, test_fs), Reply w) \<and>
     w_Body w = [Json (encode_batch [rep])] \<and> rep_Links rep ''upload'' = None"
proof -
  let ?a = "bolt_file_app (mem_env True) test_base batch_json"
  let ?rv = "zero_vars\<lparr>rv_Oid := test_oid\<rparr>"
  let ?p = "fill_batch_vars test_vars test_post ?rv"
  have oid: "test_oid \<noteq> []" using test_valid by (auto simp: valid_oid_def test_meta_def)
  obtain s1 where put: "MetaStore_Put (mem_env True) mem_fresh ?rv = (s1, Ok (new_object ?rv))"
    using mem_Put_ok [OF mem_fresh_inv _ test_new, of ?rv] oid by auto
  have inv1: "bolt_inv (mem_env True) s1" by (rule Put_inv [OF mem_fresh_inv put])
  have "bolt_objs (mem_env True) s1 test_oid \<noteq> None"
    using bolt.put_new [where env = "mem_env True" and s = mem_fresh and v = ?rv] put test_new [of True test_oid]
    by (auto simp: mem_authenticate mem_fresh_inv)
  then obtain m where m: "bolt_objs (mem_env True) s1 (rv_Oid ?p) = Some m" by (auto simp: fill_batch_vars_def)
  have b: "unpackbatch ?a test_vars test_post = Ok [Some ?p]"
    using batch_decode by (simp add: unpackbatch_def batch_json_def)
  have "\<exists>w rep. BatchHandler ?a (s1, test_fs) test_vars test_post = ((s1, test_fs), Reply w) \<and>
      w_Body w = [Json (encode_batch [rep])] \<and> rep_Oid rep = rv_Oid ?p \<and>
      rep_Links rep ''download'' \<noteq> None \<and> rep_Links rep ''upload'' = None \<and>
      GetContentHandler ?a (s1, test_fs) test_vars test_get = ((s1, test_fs), Reply (writeStatus fresh_writer test_get 404)) \<and>
      (\<exists>w'. PostHandler ?a (s1, test_fs) test_vars test_get = ((s1, test_fs), Reply w') \<and> final_status w' = 202)"
    by (rule batch_hides_missing_content [OF inv1 test_store_ok mem_authenticate b _ m _ _ _ mem_authenticate,
          where b = test_content])
      (simp_all add: fill_batch_vars_def test_empty oid_of_test unpack_oid var_def test_vars_def)
  then show ?thesis by blast
qed

text \<open>
  C25: the announcement of an object, on every request.  Refused credentials: 401 and no change.
  A panic of the authentication: the connection is dropped, no change.  Otherwise, for an object
  the server knows, 200 if the existence test of the content store finds its content and 202 if
  not, with both links either way, and nothing changes; for a new object 202 with the upload
  link alone, and the object is recorded with the announced size, or 404 and no object is
  recorded, which only happens if the database does not take the entry.  A body that does not
  decode announces the OID of the route, which is empty, with size zero.  The accounts and the
  contents never change.
\<close>

theorem announcement_answers:
  assumes inv: "bolt_inv env s" and ok: "store_ok base c"
    and post: "PostHandler (bolt_file_app env base js) (s, c) vars r = ((s', c'), rep)"
    and rv: "rv = unpack (bolt_file_app env base js) vars r"
  shows "c' = c \<and> authenticate env s' = authenticate env s \<and>
    (js (rq_Body r) = None \<or> (\<exists>j p. js (rq_Body r) = Some j \<and> decode_vars j zero_vars = (p, False)) \<longrightarrow>
       rv_Oid rv = var vars ''oid'' \<and> rv_Size rv = 0) \<and>
    (case authenticate env s (header_Get r ''Authorization'') of
       Err e \<Rightarrow> False
     | Panic e \<Rightarrow> s' = s \<and> rep = Aborted e
     | Ok False \<Rightarrow> s' = s \<and> (\<exists>w. rep = Reply w \<and> final_status w = 401)
     | Ok True \<Rightarrow>
         (case bolt_objs env s (rv_Oid rv) of
            Some m \<Rightarrow> s' = s \<and>
              (valid_oid (rv_Oid rv) \<longrightarrow> ContentStore_Exists base c m = (held_content base c (rv_Oid rv) \<noteq> None)) \<and>
              (\<exists>w. rep = Reply w \<and> final_status w = (if ContentStore_Exists base c m then 200 else 202) \<and>
                 w_Body w = [Json (encode_representation (Represent (be_Config env) rv m True True))])
          | None \<Rightarrow> (\<exists>w. rep = Reply w \<and>
              ((\<exists>m. final_status w = 202 \<and> bolt_objs env s' = (bolt_objs env s)(rv_Oid rv \<mapsto> m) \<and> mo_Size m = rv_Size rv \<and>
                  w_Body w = [Json (encode_representation (Represent (be_Config env) rv m False True))]) \<or>
               final_status w = 404 \<and> bolt_objs env s' = bolt_objs env s \<and> \<not> can_put env s rv))))"
proof -
  let ?a = "bolt_file_app env base js" and ?auth = "authenticate env s (header_Get r ''Authorization'')"
  have c': "c' = c"
    using post by (auto simp: PostHandler_def Let_def split: outcome.splits prod.splits)
  have accounts: "authenticate env s' = authenticate env s"
    using lfs.handler_accounts [where e = Post and env = env and base = base, OF inv, OF post [folded handler_of.simps]]
    by (simp add: same_accounts_def)
  have malformed: "rv_Oid rv = var vars ''oid'' \<and> rv_Size rv = 0"
    if "js (rq_Body r) = None \<or> (\<exists>j p. js (rq_Body r) = Some j \<and> decode_vars j zero_vars = (p, False))"
    using that rv by (auto simp: unpack_def Let_def zero_vars_def)
  have denied: "s' = s \<and> (\<exists>w. rep = Reply w \<and> final_status w = 401)" if "?auth = Ok False"
    using lfs.refused(5) [OF that, of base js c vars] post by auto
  have panic: "s' = s \<and> rep = Aborted e" if "?auth = Panic e" for e
    using that post by (simp add: PostHandler_def MetaStore_Put_def)
  have known: "s' = s \<and>
      (valid_oid (rv_Oid rv) \<longrightarrow> ContentStore_Exists base c m = (held_content base c (rv_Oid rv) \<noteq> None)) \<and>
      (\<exists>w. rep = Reply w \<and> final_status w = (if ContentStore_Exists base c m then 200 else 202) \<and>
         w_Body w = [Json (encode_representation (Represent (be_Config env) rv m True True))])"
    if "?auth = Ok True" "bolt_objs env s (rv_Oid rv) = Some m" for m
  proof -
    have m: "mo_Oid m = rv_Oid rv" using bolt.entry_oid [OF inv that(2)] by simp
    have "ContentStore_Exists base c (m\<lparr>mo_Existing := True\<rparr>) = ContentStore_Exists base c m"
      by (simp add: ContentStore_Exists_def)
    moreover have "Represent (be_Config env) rv (m\<lparr>mo_Existing := True\<rparr>) True True =
        Represent (be_Config env) rv m True True"
      by (simp add: Represent_def)
    ultimately show ?thesis
      using lfs.post_known [OF inv that(1), where c = c and js = js and base = base and vars = vars and m = m]
        that(2) post rv m Exists_held [OF ok, of m] by (auto simp: http_simps Let_def)
  qed
  have new: "\<exists>w. rep = Reply w \<and>
      ((\<exists>m. final_status w = 202 \<and> bolt_objs env s' = (bolt_objs env s)(rv_Oid rv \<mapsto> m) \<and> mo_Size m = rv_Size rv \<and>
          w_Body w = [Json (encode_representation (Represent (be_Config env) rv m False True))]) \<or>
       final_status w = 404 \<and> bolt_objs env s' = bolt_objs env s \<and> \<not> can_put env s rv)"
    if "?auth = Ok True" "bolt_objs env s (rv_Oid rv) = None"
  proof -
    have au: "authenticate env s (rv_Authorization rv) = Ok True" using that(1) rv by simp
    obtain s1 res where put: "MetaStore_Put env s rv = (s1, res)" by fastforce
    have s': "s' = s1"
      using post put rv by (cases res; simp add: PostHandler_def Let_def)
    show ?thesis
    proof (cases rule: Put_new_cases [OF inv au that(2) put])
      case 1
      then obtain w where "rep = Reply w" "final_status w = 202"
        "w_Body w = [Json (encode_representation (Represent (be_Config env) rv (new_object rv) False True))]"
        using post put rv by (auto simp: PostHandler_def http_simps Let_def new_object_def)
      then show ?thesis
        using s' bolt_objs_stored [OF 1(5)] by (auto simp: new_object_def)
    next
      case (2 e)
      then have "\<exists>w. rep = Reply w \<and> final_status w = 404"
        using post put rv by (auto simp: PostHandler_def meta_error_def)
      moreover have "\<not> can_put env s rv"
        using Put_taken [OF inv au that(2)] put 2(1) by auto
      ultimately show ?thesis using s' bolt_objs_frame [OF 2(5)] by blast
    qed
  qed
  show ?thesis
    using c' accounts malformed denied panic known new authenticate_no_err [of env s]
    by (auto split: outcome.split bool.split option.split)
qed

lemma announcement_answers_witness:
  "\<exists>s1 w m. PostHandler (test_app True) (mem_fresh, test_fs) test_vars test_post = ((s1, test_fs), Reply w) \<and>
     final_status w = 202 \<and> bolt_objs (mem_env True) s1 = [test_oid \<mapsto> m] \<and> mo_Size m = 18"
proof -
  let ?a = "bolt_file_app (mem_env True) test_base test_json"
  let ?rv = "unpack ?a test_vars test_post"
  have rv: "rv_Oid ?rv = test_oid" "rv_Size ?rv = 18"
    using unpack_post [of test_post ?a _ _ test_vars] test_decode by (simp_all add: test_json_def)
  obtain s1 c1 rep where post: "PostHandler ?a (mem_fresh, test_fs) test_vars test_post = ((s1, c1), rep)"
    by (metis prod.exhaust)
  have "bolt_objs (mem_env True) mem_fresh = Map.empty" by (intro ext) (simp add: test_new)
  then show ?thesis
    using announcement_answers [OF mem_fresh_inv test_store_ok post refl] post rv test_can_put [of test_vars]
    by (auto simp: test_app_def mem_authenticate)
qed

end
