(* ===== verification/Lfs_Admin.thy ===== *)
theory Lfs_Admin
  imports Lfs_Server
begin

text \<open>
  The management pages of the server in its default configuration: who gets in, what an
  administrator's request does to the accounts of the API, and what the search page answers.
\<close>

section \<open>Requests for the witnesses\<close>

text \<open>The form that adds a user, sent by the administrator; the router knows that one path.\<close>

definition admin_mux :: mux where
  "admin_mux t p = (if t = ''/mgmt/add'' \<and> p = ''/mgmt/add'' then Some Map.empty else None)"

definition admin_add :: "bytes \<Rightarrow> request" where
  "admin_add password =
     \<lparr>rq_Method = ''POST'', rq_Path = ''/mgmt/add'',
      rq_Header = (\<lambda>k. if k = ''Authorization'' then [basic_header std_alphabet ''admin'' password] else []),
      rq_Body = ([], None)\<rparr>"

lemma admin_mux_law: "mux_law admin_mux"
  by (simp add: mux_law_def admin_mux_def)

lemma admin_add_route:
  "find_route admin_mux r = None" "find_mgmt admin_mux (admin_add password) = Some (NewUser, Map.empty)"
proof -
  show "find_route admin_mux r = None"
    by (simp add: find_route_def route_matches_def api_routes_def object_route_def admin_mux_def)
  show "find_mgmt admin_mux (admin_add password) = Some (NewUser, Map.empty)"
    by (simp add: find_mgmt_def mgmt_matches_def mgmt_routes_def admin_mux_def admin_add_def)
qed

lemma admin_add_credentials: "BasicAuth (admin_add password) = Some (''admin'', password)"
  by (rule BasicAuth_header) (simp_all add: admin_add_def header_Get_def)

lemma mem_AddUser:
  assumes "b_Bucket mem_bolt db usersBucket" and "user \<noteq> []"
  obtains db' where "AddUser (mem_env public) db user pass = (db', Ok ())"
  using assms
  by (cases "blob_empty (b_Get mem_bolt db usersBucket user)"; simp add: AddUser_alt db_Update_def mem_bcrypt_def)
    (auto simp: mem_bolt_def)

lemma admin_add_request:
  "admin_request (be_Config (mem_env public)) (admin_add password) \<longleftrightarrow> password = ''admin''"
  by (auto simp: admin_request_def admin_add_credentials mem_env_def default_configuration_def)

text \<open>The page that adds a user, once the administrator is let in.\<close>

lemma serve_new_user:
  assumes "find_route mux r = None" and "find_mgmt mux r = Some (NewUser, vars)"
    and "admin_request (be_Config env) r" and "mg_FormValue mg r ''name'' \<noteq> []"
    and "mg_FormValue mg r ''password'' \<noteq> []"
  shows "serve (bolt_file_app env base js) mg mux (db, c) r =
    changed (AddUser env db (mg_FormValue mg r ''name'') (mg_FormValue mg r ''password'')) c
      ''Error adding user: '' ''/mgmt/users''"
  using assms by (simp add: serve_def ServeHTTP_def addMgmt_def basicAuth_granted addUserHandler_def Let_def)

lemma test_add:
  obtains db1 where "AddUser (mem_env False) mem_fresh ''bilbo'' ''ring'' = (db1, Ok ())"
    "serve (test_app False) test_mgmt admin_mux (mem_fresh, c) (admin_add ''admin'') =
       ((db1, c), Redirect ''/mgmt/users'')"
proof -
  obtain db1 where add: "AddUser (mem_env False) mem_fresh ''bilbo'' ''ring'' = (db1, Ok ())"
    using mem_AddUser [of mem_fresh "''bilbo''"] by (simp, metis)
  have "serve (test_app False) test_mgmt admin_mux (mem_fresh, c) (admin_add ''admin'') =
      changed (AddUser (mem_env False) mem_fresh ''bilbo'' ''ring'') c ''Error adding user: '' ''/mgmt/users''"
    using serve_new_user [OF admin_add_route(1,2), of "mem_env False" "''admin''" test_mgmt test_base test_json mem_fresh c]
      admin_add_request by (simp add: test_mgmt_def test_app_def)
  then show thesis using add by (intro that [OF add]) (simp add: changed_def)
qed

lemma final_status_Redirect: "Redirect url = Reply w \<Longrightarrow> final_status w = 302"
  by (auto simp: Redirect_def http_simps)

section \<open>Properties\<close>

text \<open>
  C7: who may log in changes only by requests that carry the administrator's name and
  password; without such a request every header is judged at the end of a run as it was at
  its start.
\<close>

theorem only_admin_changes_accounts:
  assumes "served (bolt_file_app env base js) mg mux st rs st'" and "mux_law mux"
    and "bolt_inv env (fst st)" and "store_ok base (snd st)"
    and "authenticate env (fst st') a \<noteq> authenticate env (fst st) a"
  shows "\<exists>r \<in> set rs. admin_request (be_Config env) r"
  using lfs.served_accounts [OF assms(1-4)] assms(5) unfolding same_accounts_def bolt_file_app_simps by metis

lemma only_admin_changes_accounts_witness:
  "\<exists>st' rep. serve (test_app False) test_mgmt admin_mux (mem_fresh, test_fs) (admin_add ''admin'') =
     (st', rep) \<and> admin_request (be_Config (mem_env False)) (admin_add ''admin'')"
proof -
  let ?r = "admin_add ''admin''" and ?h = "basic_header url_alphabet ''bilbo'' ''ring''"
  obtain db1 where add: "AddUser (mem_env False) mem_fresh ''bilbo'' ''ring'' = (db1, Ok ())"
    and s: "serve (test_app False) test_mgmt admin_mux (mem_fresh, test_fs) ?r =
      ((db1, test_fs), Redirect ''/mgmt/users'')" by (rule test_add)
  have run: "served (test_app False) test_mgmt admin_mux (mem_fresh, test_fs) ([] @ [?r]) (db1, test_fs)"
    by (rule served.request [OF served.start s])
  have after: "authenticate (mem_env False) db1 ?h = Ok True"
    by (rule new_user_logs_in [OF _ _ _ _ _ add]) (simp_all add: mem_bolt_laws mem_bcrypt_laws)
  have before: "authenticate (mem_env False) mem_fresh ?h = Ok False"
    by (subst authenticate_users) (simp_all add: mem_bcrypt_def)
  have "\<exists>r \<in> set ([] @ [?r]). admin_request (be_Config (mem_env False)) r"
    by (rule only_admin_changes_accounts [OF run [unfolded test_app_def] admin_mux_law, where a = ?h])
      (simp_all add: mem_fresh_inv test_store_ok after before)
  then show ?thesis using s by simp
qed

text \<open>
  The administrator adds a user.  The page answers 302 and the user can log in to the
  API with the password of the form, or it answers 200 with an error text and nothing has
  changed.
\<close>

theorem admin_adds_user:
  assumes laws: "bolt_laws (be_Bolt env)" "bcrypt_laws (be_Bcrypt env)"
    and closed: "\<not> IsPublic (be_Config env)" and admin: "admin_request (be_Config env) r"
    and route: "find_route mux r = None" "find_mgmt mux r = Some (NewUser, vars)"
    and form: "mg_FormValue mg r ''name'' = user" "mg_FormValue mg r ''password'' = pass" "user \<noteq> []" "pass \<noteq> []"
    and colon: "CHR '':'' \<notin> set user" and new: "b_Get (be_Bolt env) db usersBucket user = None"
  shows "\<exists>db' w. serve (bolt_file_app env base js) mg mux (db, c) r = ((db', c), Reply w) \<and>
    (final_status w = 302 \<and> authenticate env db' (basic_header url_alphabet user pass) = Ok True \<or>
     final_status w = 200 \<and> db' = db \<and> (\<exists>e. w_Body w = [Raw (''Error adding user: '' @ Error e)]))"
proof -
  obtain db' res where add: "AddUser env db user pass = (db', res)" by fastforce
  have s: "serve (bolt_file_app env base js) mg mux (db, c) r = changed (db', res) c ''Error adding user: '' ''/mgmt/users''"
    using serve_new_user [OF route admin, of mg] form add by simp
  show ?thesis
  proof (cases res)
    case (Ok u)
    then have "authenticate env db' (basic_header url_alphabet user pass) = Ok True"
      using new_user_logs_in [OF laws closed colon new] add by simp
    then show ?thesis using s Ok by (simp add: changed_def Redirect_def http_simps)
  next
    case (Err e)
    then have "db' = db" using AddUser_failed [OF add] by simp
    then show ?thesis using s Err by (auto simp: changed_def say_def http_simps Let_def)
  next
    case (Panic e)
    then show ?thesis using AddUser_failed [OF add] by simp
  qed
qed

lemma admin_adds_user_witness:
  "\<exists>db' w. serve (test_app False) test_mgmt admin_mux (mem_fresh, test_fs) (admin_add ''admin'') =
       ((db', test_fs), Reply w) \<and> final_status w = 302 \<and>
     authenticate (mem_env False) db' (basic_header url_alphabet ''bilbo'' ''ring'') = Ok True"
proof -
  have "admin_request (be_Config (mem_env False)) (admin_add ''admin'')" by (simp add: admin_add_request)
  with admin_adds_user [of "mem_env False" "admin_add ''admin''" admin_mux Map.empty test_mgmt "''bilbo''" "''ring''"
      mem_fresh test_base test_json test_fs]
  have "\<exists>db' w. serve (test_app False) test_mgmt admin_mux (mem_fresh, test_fs) (admin_add ''admin'') =
        ((db', test_fs), Reply w) \<and>
      (final_status w = 302 \<and> authenticate (mem_env False) db' (basic_header url_alphabet ''bilbo'' ''ring'') = Ok True \<or>
       final_status w = 200 \<and> db' = mem_fresh \<and> (\<exists>e. w_Body w = [Raw (''Error adding user: '' @ Error e)]))"
    using mem_bolt_laws mem_bcrypt_laws admin_add_route by (simp add: test_mgmt_def test_app_def)
  moreover obtain db1 where "serve (test_app False) test_mgmt admin_mux (mem_fresh, test_fs)
      (admin_add ''admin'') = ((db1, test_fs), Redirect ''/mgmt/users'')" by (rule test_add)
  ultimately show ?thesis using final_status_Redirect by fastforce
qed

text \<open>
  Without the administrator's name and password no management page is served and
  nothing changes.  The answer is 404 if there is no such page or no administrator is
  configured, and 401 with a challenge otherwise.
\<close>

theorem mgmt_refuses_others:
  assumes "\<not> admin_request (app_Config a) r"
  shows "\<exists>w. addMgmt mg a mux st r = (st, Reply w) \<and>
    (if find_mgmt mux r = None \<or> AdminUser (app_Config a) = [] \<or> AdminPass (app_Config a) = []
     then final_status w = 404
     else final_status w = 401 \<and> w_Header w ''WWW-Authenticate'' = Some ''Basic realm=mgmt'')"
proof (cases "find_mgmt mux r")
  case None
  then show ?thesis by (simp add: addMgmt_def not_found_def http_simps Let_def)
next
  case (Some ev)
  then show ?thesis using assms by (cases ev) (simp add: addMgmt_def basicAuth_denied)
qed

lemma mgmt_refuses_others_witness:
  "\<exists>w. addMgmt test_mgmt (test_app False) admin_mux (mem_fresh, test_fs) (admin_add ''guess'') =
     ((mem_fresh, test_fs), Reply w) \<and> final_status w = 401"
proof -
  have "app_Config (test_app False) = be_Config (mem_env False)" by (simp add: test_app_def)
  then show ?thesis
    using mgmt_refuses_others [of "test_app False" "admin_add ''guess''" test_mgmt admin_mux "(mem_fresh, test_fs)"]
      admin_add_request [of False "''guess''"] admin_add_route(2) [of "''guess''"]
    by (auto simp: mem_env_def default_configuration_def)
qed

text \<open>
  What the search page answers.  If the metadata store cannot be opened a second time,
  as a Bolt file that the server holds locked cannot, every search ends in the dereference
  of a nil store.  Otherwise the matching objects are listed, and an empty search, answered
  404, lists them all behind its error message.
\<close>

theorem search_page_answers:
  "(mg_FindMetaStore mg (fst st) = Err e \<longrightarrow> searchOidHandler mg st vars r = (st, Aborted nil_dereference)) \<and>
   (mg_FindMetaStore mg (fst st) = Ok cs \<longrightarrow> ms_Objects cs (fst st) = Ok ms \<longrightarrow>
      (\<exists>w. searchOidHandler mg st vars r = (st, Reply w) \<and>
         final_status w = (if mg_Query mg r ''oid'' = [] then 404 else 200) \<and>
         w_Body w = (if mg_Query mg r ''oid'' = []
           then w_Body (writeStatus fresh_writer r 404) @ map (Json \<circ> encode_object) ms
           else map (Json \<circ> encode_object) (filter (\<lambda>m. Contains (mo_Oid m) (mg_Query mg r ''oid'')) ms))))"
proof -
  have all: "Contains s []" for s by (cases s) (simp_all add: HasPrefix_def)
  have st: "w_Status (writeStatus fresh_writer r 404) = Some 404" by (simp add: http_simps Let_def)
  have found: "final_status (matching_objects q ms fresh_writer) = 200" for q
    by (rule matching_objects_found) (simp add: fresh_writer_def)
  have missed: "final_status (matching_objects q ms (writeStatus fresh_writer r 404)) = 404" for q
    using matching_objects_status [of "writeStatus fresh_writer r 404" q ms] st by (simp add: final_status_def)
  have empty: "w_Body fresh_writer = []" by (simp add: fresh_writer_def)
  show ?thesis by (auto simp: searchOidHandler_def Let_def matching_objects_body all found missed empty)
qed

lemma search_page_answers_witness:
  "searchOidHandler test_mgmt (mem_fresh, test_fs) Map.empty test_get = ((mem_fresh, test_fs), Aborted nil_dereference)"
  using search_page_answers [of test_mgmt "(mem_fresh, test_fs)" "ErrExt ''timeout''" Map.empty test_get]
  by (simp add: test_mgmt_def)

end
