(* ===== verification/Cassandra_Store.thy ===== *)
theory Cassandra_Store
  imports Interfaces Bolt_Store
begin

text \<open>
  \<^verbatim>\<open>cassandra_meta_store.go\<close> and \<^verbatim>\<open>cassandra_service.go\<close>: the metadata store on Cassandra.
  The driver is a third-party package: a session executes a statement, given by its text and
  the values bound to it, or iterates over the rows of a query.  The texts are built here as
  the code builds them, and what is documented of their effect is stated of these texts in
  \<open>cql_laws\<close>, where any statement may fail.  Passwords and the LDAP login are shared with the other stores.
\<close>

section \<open>Sessions\<close>

datatype cql_value = Text bytes | Bigint int64 | TextSet "bytes list"

type_synonym row = "(bytes \<times> cql_value) list"

text \<open>
  \<open>cq_Exec\<close> yields the new state, which a failing statement may or may not have reached, and
  the error; \<open>cq_Iter\<close> the rows of a query, \<open>None\<close> if it fails.
\<close>

record 'db cql_api =
  cq_Exec :: "'db \<Rightarrow> bytes \<Rightarrow> cql_value list \<Rightarrow> 'db \<times> GoError option"
  cq_Iter :: "'db \<Rightarrow> bytes \<Rightarrow> cql_value list \<Rightarrow> row list option"

record ('db, 'c) cass_env =
  ce_Config :: Configuration
  ce_Cql :: "'db cql_api"
  ce_Bcrypt :: bcrypt_api
  ce_Ldap :: "'c ldap_api"

text \<open>What a scan leaves in a string or integer field: the zero value if the column is missing.\<close>

definition text_of :: "row \<Rightarrow> bytes \<Rightarrow> bytes" where
  "text_of r k = (case map_of r k of Some (Text t) \<Rightarrow> t | _ \<Rightarrow> [])"

definition int_of :: "row \<Rightarrow> bytes \<Rightarrow> int64" where
  "int_of r k = (case map_of r k of Some (Bigint n) \<Rightarrow> n | _ \<Rightarrow> 0)"

definition set_of :: "row \<Rightarrow> bytes \<Rightarrow> bytes list" where
  "set_of r k = (case map_of r k of Some (TextSet ts) \<Rightarrow> ts | _ \<Rightarrow> [])"

text \<open>The first row of a query, empty if there is none or the query fails.\<close>

definition first_row :: "'db cql_api \<Rightarrow> 'db \<Rightarrow> bytes \<Rightarrow> cql_value list \<Rightarrow> row" where
  "first_row Q db q vs = (case cq_Iter Q db q vs of Some (r # _) \<Rightarrow> r | _ \<Rightarrow> [])"

definition all_rows :: "'db cql_api \<Rightarrow> 'db \<Rightarrow> bytes \<Rightarrow> cql_value list \<Rightarrow> row list" where
  "all_rows Q db q vs = (case cq_Iter Q db q vs of Some rs \<Rightarrow> rs | None \<Rightarrow> [])"

section \<open>Statements\<close>

definition quote :: bytes where "quote = [CHR 0x27]"

definition cql_count_project :: bytes where
  "cql_count_project = ''select count(*) as count from projects where name = ?''"
definition cql_insert_project :: bytes where
  "cql_insert_project = ''insert into projects (name) values(?)''"
definition cql_select_project :: bytes where
  "cql_select_project = ''select * from projects where name = ?''"
definition cql_select_projects :: bytes where
  "cql_select_projects = ''select name, oids from projects;''"
definition cql_delete_project :: bytes where
  "cql_delete_project = ''delete from projects where name = ?''"
definition cql_insert_oid :: bytes where
  "cql_insert_oid = ''insert into oids (oid, size) values (?, ?)''"
definition cql_delete_oid :: bytes where
  "cql_delete_oid = ''delete from oids where oid = ?''"
definition cql_select_oid :: bytes where
  "cql_select_oid = ''select oid, size from oids where oid = ? limit 1''"
definition cql_select_oids :: bytes where
  "cql_select_oids = ''select oid, size from oids;''"
definition cql_select_user :: bytes where
  "cql_select_user = ''select * from users where username = ?''"
definition cql_insert_user :: bytes where
  "cql_insert_user = ''insert into users (username, password) values(?, ?)''"
definition cql_delete_user :: bytes where
  "cql_delete_user = ''delete from users where username = ?''"
definition cql_select_users :: bytes where
  "cql_select_users = ''select username from users''"

text \<open>The two statements that are put together by \<^verbatim>\<open>fmt.Sprintf\<close>; collections cannot be bound.\<close>

definition cql_add_oid :: "bytes \<Rightarrow> bytes \<Rightarrow> bytes" where
  "cql_add_oid oid project =
     ''update projects set oids = oids + {'' @ quote @ oid @ quote @ ''} where name = '' @ quote @ project @ quote"

definition cql_remove_oid :: "bytes \<Rightarrow> bytes \<Rightarrow> bytes" where
  "cql_remove_oid oid project =
     ''update projects set oids = oids - {'' @ quote @ oid @ quote @ ''} where name = '' @ quote @ project @ quote"

section \<open>Operations\<close>

text \<open>The type assertion \<^verbatim>\<open>counter["count"].(int64)\<close> panics when the query gave no row.\<close>

definition cass_createProject :: "'db cql_api \<Rightarrow> 'db \<Rightarrow> bytes \<Rightarrow> 'db \<times> unit outcome" where
  "cass_createProject Q db project =
     (case map_of (first_row Q db cql_count_project [Text project]) ''count'' of
        Some (Bigint n) \<Rightarrow>
          if 0 <s n then (db, Ok ())
          else (case cq_Exec Q db cql_insert_project [Text project] of
              (db', None) \<Rightarrow> (db', Ok ())
            | (db', Some e) \<Rightarrow> (db', Err e))
      | _ \<Rightarrow> (db, Panic (ErrExt ''interface conversion'')))"

definition cass_addOidToProject :: "'db cql_api \<Rightarrow> 'db \<Rightarrow> bytes \<Rightarrow> bytes \<Rightarrow> 'db \<times> GoError option" where
  "cass_addOidToProject Q db oid project = cq_Exec Q db (cql_add_oid oid project) []"

definition cass_createOid :: "'db cql_api \<Rightarrow> 'db \<Rightarrow> bytes \<Rightarrow> int64 \<Rightarrow> 'db \<times> GoError option" where
  "cass_createOid Q db oid sz = cq_Exec Q db cql_insert_oid [Text oid, Bigint sz]"

definition cass_removeOid :: "'db cql_api \<Rightarrow> 'db \<Rightarrow> bytes \<Rightarrow> 'db \<times> GoError option" where
  "cass_removeOid Q db oid = cq_Exec Q db cql_delete_oid [Text oid]"

definition cass_removeOidFromProject :: "'db cql_api \<Rightarrow> 'db \<Rightarrow> bytes \<Rightarrow> bytes \<Rightarrow> 'db \<times> GoError option" where
  "cass_removeOidFromProject Q db oid project = cq_Exec Q db (cql_remove_oid oid project) []"

definition cass_removeProject :: "'db cql_api \<Rightarrow> 'db \<Rightarrow> bytes \<Rightarrow> 'db \<times> GoError option" where
  "cass_removeProject Q db projectName = cq_Exec Q db cql_delete_project [Text projectName]"

definition cass_findProject :: "'db cql_api \<Rightarrow> 'db \<Rightarrow> bytes \<Rightarrow> MetaProject outcome" where
  "cass_findProject Q db projectName =
     (if projectName = [] then Err ErrProjectNotFound
      else let r = first_row Q db cql_select_project [Text projectName]
           in if text_of r ''name'' = [] then Err ErrProjectNotFound
              else Ok \<lparr>mp_Name = text_of r ''name'', mp_Oids = set_of r ''oids''\<rparr>)"

definition cass_findOid :: "'db cql_api \<Rightarrow> 'db \<Rightarrow> bytes \<Rightarrow> MetaObject outcome" where
  "cass_findOid Q db oid =
     (let r = first_row Q db cql_select_oid [Text oid]
      in if text_of r ''oid'' = [] then Err ErrObjectNotFound
         else Ok \<lparr>mo_Oid = text_of r ''oid'', mo_Size = int_of r ''size'', mo_ProjectNames = [],
                  mo_Existing = False\<rparr>)"

text \<open>The iterations by position; a row of another shape ends them.\<close>

fun scan_oids :: "row list \<Rightarrow> MetaObject list" where
  "scan_oids ([(_, Text oid), (_, Bigint sz)] # rs) =
     \<lparr>mo_Oid = oid, mo_Size = sz, mo_ProjectNames = [], mo_Existing = False\<rparr> # scan_oids rs"
| "scan_oids _ = []"

fun scan_projects :: "row list \<Rightarrow> MetaProject list" where
  "scan_projects ([(_, Text nm), (_, TextSet oids)] # rs) = \<lparr>mp_Name = nm, mp_Oids = oids\<rparr> # scan_projects rs"
| "scan_projects _ = []"

definition cass_findAllOids :: "'db cql_api \<Rightarrow> 'db \<Rightarrow> MetaObject list outcome" where
  "cass_findAllOids Q db = Ok (scan_oids (all_rows Q db cql_select_oids []))"

definition cass_findAllProjects :: "'db cql_api \<Rightarrow> 'db \<Rightarrow> MetaProject list outcome" where
  "cass_findAllProjects Q db =
     (let project_list = scan_projects (all_rows Q db cql_select_projects [])
      in if project_list = [] then Err ErrProjectNotFound else Ok project_list)"

definition cass_findUser :: "'db cql_api \<Rightarrow> 'db \<Rightarrow> bytes \<Rightarrow> MetaUser outcome" where
  "cass_findUser Q db user =
     (let r = first_row Q db cql_select_user [Text user]
      in if text_of r ''username'' = [] then Err ErrUserNotFound
         else Ok \<lparr>mu_Name = text_of r ''username'', mu_Password = text_of r ''password''\<rparr>)"

definition cass_authenticate :: "('db, 'c) cass_env \<Rightarrow> 'db \<Rightarrow> bytes \<Rightarrow> bool outcome" where
  "cass_authenticate env db authorization =
     (if IsPublic (ce_Config env) then Ok True
      else case basic_credentials authorization of
          None \<Rightarrow> Ok False
        | Some (user, password) \<Rightarrow>
            if Ldap_Enabled (Ldap (ce_Config env)) then
              authenticateLdap (ce_Ldap env) (Ldap (ce_Config env)) user password
            else (case cass_findUser (ce_Cql env) db user of
                Ok mu \<Rightarrow> Ok (fst (checkPass (ce_Bcrypt env) (mu_Password mu) password))
              | _ \<Rightarrow> Ok False))"

definition cass_Get :: "('db, 'c) cass_env \<Rightarrow> 'db \<Rightarrow> RequestVars \<Rightarrow> MetaObject outcome" where
  "cass_Get env db v =
     (case cass_authenticate env db (rv_Authorization v) of
        Panic e \<Rightarrow> Panic e
      | Err e \<Rightarrow> Err e
      | Ok False \<Rightarrow> Err AuthError
      | Ok True \<Rightarrow> cass_findOid (ce_Cql env) db (rv_Oid v))"

text \<open>
  The second half of \<^verbatim>\<open>Put\<close>, once the OID is stored: every error on the way is a panic.
\<close>

definition cass_put_project :: "'db cql_api \<Rightarrow> 'db \<Rightarrow> RequestVars \<Rightarrow> 'db \<times> unit outcome" where
  "cass_put_project Q db v =
     (if rv_Repo v = [] then (db, Ok ())
      else let (db1, created) =
             (case cass_findProject Q db (rv_Repo v) of
                Err _ \<Rightarrow> (case cass_createProject Q db (rv_Repo v) of
                    (db', Err e) \<Rightarrow> (db', perror (Some e))
                  | r \<Rightarrow> r)
              | _ \<Rightarrow> (db, Ok ()))
           in case created of
                Ok _ \<Rightarrow> apsnd perror (cass_addOidToProject Q db1 (rv_Oid v) (rv_Repo v))
              | r \<Rightarrow> (db1, r))"

definition cass_new_object :: "RequestVars \<Rightarrow> MetaObject" where
  "cass_new_object v =
     \<lparr>mo_Oid = rv_Oid v, mo_Size = rv_Size v, mo_ProjectNames = [], mo_Existing = False\<rparr>"

definition cass_Put :: "('db, 'c) cass_env \<Rightarrow> 'db \<Rightarrow> RequestVars \<Rightarrow> 'db \<times> MetaObject outcome" where
  "cass_Put env db v =
     (case cass_authenticate env db (rv_Authorization v) of
        Panic e \<Rightarrow> (db, Panic e)
      | Err e \<Rightarrow> (db, Err e)
      | Ok False \<Rightarrow> (db, Err AuthError)
      | Ok True \<Rightarrow>
          (case cass_Get env db v of
             Panic e \<Rightarrow> (db, Panic e)
           | Ok meta \<Rightarrow> (db, Ok (meta\<lparr>mo_Existing := True\<rparr>))
           | Err _ \<Rightarrow>
               let Q = ce_Cql env; (db1, err) = cass_createOid Q db (rv_Oid v) (rv_Size v)
               in case perror err of
                    Ok _ \<Rightarrow> (let (db2, res) = cass_put_project Q db1 v
                             in (db2, bind_outcome res (\<lambda>_. Ok (cass_new_object v))))
                  | Err e \<Rightarrow> (db1, Err e)
                  | Panic e \<Rightarrow> (db1, Panic e)))"

definition exec_outcome :: "'db \<times> GoError option \<Rightarrow> 'db \<times> unit outcome" where
  "exec_outcome r = (fst r, case snd r of None \<Rightarrow> Ok () | Some e \<Rightarrow> Err e)"

definition cass_AddUser :: "('db, 'c) cass_env \<Rightarrow> 'db \<Rightarrow> bytes \<Rightarrow> bytes \<Rightarrow> 'db \<times> unit outcome" where
  "cass_AddUser env db user pass =
     (if Ldap_Enabled (Ldap (ce_Config env)) then (db, Err ErrNotImplemented)
      else if is_ok (cass_findUser (ce_Cql env) db user) then (db, Ok ())
      else case encryptPass (ce_Bcrypt env) pass of
          Inl e \<Rightarrow> (db, Err e)
        | Inr encryptedPass \<Rightarrow>
            exec_outcome (cq_Exec (ce_Cql env) db cql_insert_user [Text user, Text encryptedPass]))"

definition cass_DeleteUser :: "('db, 'c) cass_env \<Rightarrow> 'db \<Rightarrow> bytes \<Rightarrow> 'db \<times> unit outcome" where
  "cass_DeleteUser env db user =
     (if Ldap_Enabled (Ldap (ce_Config env)) then (db, Err ErrNotImplemented)
      else exec_outcome (cq_Exec (ce_Cql env) db cql_delete_user [Text user]))"

text \<open>
  \<^verbatim>\<open>Users\<close>: the loop appends the address of one variable that every scan overwrites, so the
  list holds the last user as often as there are users.
\<close>

definition cass_Users :: "('db, 'c) cass_env \<Rightarrow> 'db \<Rightarrow> MetaUser list outcome" where
  "cass_Users env db =
     (if Ldap_Enabled (Ldap (ce_Config env)) then Err ErrNotImplemented
      else let scanned = map (\<lambda>r. \<lparr>mu_Name = text_of r ''username'', mu_Password = []\<rparr>)
                 (all_rows (ce_Cql env) db cql_select_users [])
           in Ok (map (\<lambda>_. last scanned) scanned))"

definition cass_Objects :: "('db, 'c) cass_env \<Rightarrow> 'db \<Rightarrow> MetaObject list outcome" where
  "cass_Objects env db = cass_findAllOids (ce_Cql env) db"

definition cass_Projects :: "('db, 'c) cass_env \<Rightarrow> 'db \<Rightarrow> MetaProject list outcome" where
  "cass_Projects env db = cass_findAllProjects (ce_Cql env) db"

definition cass_AddProject :: "'db \<Rightarrow> bytes \<Rightarrow> 'db \<times> unit outcome" where
  "cass_AddProject db nm = (db, Err ErrMySQLNotImplemented)"

definition cassandra_store :: "('db, 'c) cass_env \<Rightarrow> 'db GenericMetaStore" where
  "cassandra_store env =
     \<lparr>ms_Put = cass_Put env, ms_Get = cass_Get env, ms_DeleteUser = cass_DeleteUser env,
      ms_AddUser = cass_AddUser env, ms_AddProject = cass_AddProject, ms_Users = cass_Users env,
      ms_Objects = cass_Objects env, ms_Projects = cass_Projects env\<rparr>"

lemma cassandra_simps [simp, store_simps]:
  "ms_Put (cassandra_store env) = cass_Put env" "ms_Get (cassandra_store env) = cass_Get env"
  "ms_DeleteUser (cassandra_store env) = cass_DeleteUser env" "ms_AddUser (cassandra_store env) = cass_AddUser env"
  "ms_AddProject (cassandra_store env) = cass_AddProject" "ms_Users (cassandra_store env) = cass_Users env"
  "ms_Objects (cassandra_store env) = cass_Objects env" "ms_Projects (cassandra_store env) = cass_Projects env"
  by (simp_all add: cassandra_store_def)

section \<open>Opening a session\<close>

definition cql_create_keyspace :: "CassandraConfig \<Rightarrow> bytes \<Rightarrow> bytes" where
  "cql_create_keyspace cfg goenv =
     ''create keyspace if not exists '' @ Cassandra_Keyspace cfg @ ''_'' @ goenv @ '' with replication = { '' @
     quote @ ''class'' @ quote @ '' : '' @ quote @ ''SimpleStrategy'' @ quote @ '', '' @
     quote @ ''replication_factor'' @ quote @ '' : 1 };''"

text \<open>The tables; the error of creating the third is not looked at.\<close>

definition initializeCassandra :: "'db cql_api \<Rightarrow> 'db \<Rightarrow> 'db \<times> GoError option" where
  "initializeCassandra Q db =
     (case cq_Exec Q db ''create table if not exists projects (name text PRIMARY KEY, oids SET<text>);'' [] of
        (db1, Some e) \<Rightarrow> (db1, Some e)
      | (db1, None) \<Rightarrow> (case cq_Exec Q db1 ''create index if not exists on projects(oids);'' [] of
          (db2, Some e) \<Rightarrow> (db2, Some e)
        | (db2, None) \<Rightarrow>
            let (db3, _) = cq_Exec Q db2 ''create table if not exists oids(oid text primary key, size bigint);'' []
            in cq_Exec Q db3 ''create table if not exists users(username text primary key, password text);'' []))"

text \<open>
  \<^verbatim>\<open>NewCassandraSession\<close>: \<open>connect\<close> is the error of opening a session in a keyspace.  The first
  error and that of creating the keyspace are dropped, so a session that was not opened is
  used as if it were.
\<close>

definition NewCassandraSession ::
  "'db cql_api \<Rightarrow> ('db \<Rightarrow> bytes \<Rightarrow> GoError option) \<Rightarrow> CassandraConfig \<Rightarrow> bytes \<Rightarrow> 'db \<Rightarrow> 'db \<times> unit outcome" where
  "NewCassandraSession Q connect cfg goenv db =
     (case connect db [] of
        Some e \<Rightarrow> (db, Panic nil_dereference)
      | None \<Rightarrow>
          let (db1, _) = cq_Exec Q db (cql_create_keyspace cfg goenv) [];
              keyspace = Cassandra_Keyspace cfg @ ''_'' @ goenv
          in case connect db1 keyspace of
               Some e \<Rightarrow> (db1, Panic nil_dereference)
             | None \<Rightarrow> apsnd perror (initializeCassandra Q db1))"

definition DropCassandra ::
  "'db cql_api \<Rightarrow> ('db \<Rightarrow> bytes \<Rightarrow> GoError option) \<Rightarrow> CassandraConfig \<Rightarrow> bytes \<Rightarrow> 'db \<Rightarrow> 'db \<times> unit outcome" where
  "DropCassandra Q connect cfg goenv db =
     (case NewCassandraSession Q connect cfg goenv db of
        (db1, Ok _) \<Rightarrow>
          exec_outcome (cq_Exec Q db1 (''drop keyspace '' @ Cassandra_Keyspace cfg @ ''_'' @ goenv @ '';'') [])
      | r \<Rightarrow> r)"

section \<open>The contract of the interface\<close>

text \<open>
  What is documented of the statements, over the tables that the cluster holds.  A query by
  key yields the row of that key, or fails, in which case it tells nothing.  Storing an OID
  puts its row into the table, over an earlier one; if the statement fails it may have done so
  or not.  The statements on projects leave the other tables alone, those on users leave the
  OIDs alone; a primary key is not empty.
\<close>

record 'db cql_tables =
  ct_oids :: "'db \<Rightarrow> bytes \<rightharpoonup> int64"
  ct_users :: "'db \<Rightarrow> bytes \<rightharpoonup> bytes"

definition oid_rows :: "'db cql_tables \<Rightarrow> 'db \<Rightarrow> bytes \<Rightarrow> row list" where
  "oid_rows T db oid =
     (case ct_oids T db oid of None \<Rightarrow> [] | Some sz \<Rightarrow> [[(''oid'', Text oid), (''size'', Bigint sz)]])"

definition user_rows :: "'db cql_tables \<Rightarrow> 'db \<Rightarrow> bytes \<Rightarrow> row list" where
  "user_rows T db user =
     (case ct_users T db user of None \<Rightarrow> [] | Some p \<Rightarrow> [[(''username'', Text user), (''password'', Text p)]])"

definition on_projects :: "bytes \<Rightarrow> bool" where
  "on_projects q \<longleftrightarrow> HasPrefix q ''update projects '' \<or> q = cql_insert_project"

definition cql_laws :: "'db cql_api \<Rightarrow> 'db cql_tables \<Rightarrow> bool" where
  "cql_laws Q T \<longleftrightarrow>
     (\<forall>db oid. cq_Iter Q db cql_select_oid [Text oid] \<in> {None, Some (oid_rows T db oid)}) \<and>
     (\<forall>db user. cq_Iter Q db cql_select_user [Text user] \<in> {None, Some (user_rows T db user)}) \<and>
     (\<forall>db oid sz db' err. cq_Exec Q db cql_insert_oid [Text oid, Bigint sz] = (db', err) \<longrightarrow>
        ct_users T db' = ct_users T db \<and>
        (oid \<noteq> [] \<and> ct_oids T db' = (ct_oids T db)(oid \<mapsto> sz) \<or> err \<noteq> None \<and> ct_oids T db' = ct_oids T db)) \<and>
     (\<forall>db q vs db' err. cq_Exec Q db q vs = (db', err) \<longrightarrow> on_projects q \<longrightarrow>
        ct_oids T db' = ct_oids T db \<and> ct_users T db' = ct_users T db) \<and>
     (\<forall>db q vs db' err. cq_Exec Q db q vs = (db', err) \<longrightarrow> q \<in> {cql_insert_user, cql_delete_user} \<longrightarrow>
        ct_oids T db' = ct_oids T db)"

text \<open>
  A cluster that answers every query by key.  This is nothing that Cassandra promises, and the
  code does not notice when it fails; it is the hypothesis under which the store
  keeps the contract of the interface, and so a read can stand for the table.
\<close>

definition cql_answered :: "'db cql_api \<Rightarrow> bool" where
  "cql_answered Q \<longleftrightarrow>
     (\<forall>db oid. cq_Iter Q db cql_select_oid [Text oid] \<noteq> None) \<and>
     (\<forall>db user. cq_Iter Q db cql_select_user [Text user] \<noteq> None)"

definition oid_table :: "'db cql_api \<Rightarrow> 'db \<Rightarrow> bytes \<Rightarrow> row" where
  "oid_table Q db oid = first_row Q db cql_select_oid [Text oid]"

definition user_table :: "'db cql_api \<Rightarrow> 'db \<Rightarrow> bytes \<Rightarrow> row" where
  "user_table Q db user = first_row Q db cql_select_user [Text user]"

definition cql_steady :: "'db cql_api \<Rightarrow> bool" where
  "cql_steady Q \<longleftrightarrow>
     (\<forall>db oid. text_of (oid_table Q db oid) ''oid'' \<in> {[], oid}) \<and>
     (\<forall>db oid sz db' err. cq_Exec Q db cql_insert_oid [Text oid, Bigint sz] = (db', err) \<longrightarrow>
        user_table Q db' = user_table Q db \<and>
        (oid \<noteq> [] \<and> oid_table Q db' = (oid_table Q db)(oid := [(''oid'', Text oid), (''size'', Bigint sz)]) \<or>
         err \<noteq> None \<and> oid_table Q db' = oid_table Q db)) \<and>
     (\<forall>db q vs db' err. cq_Exec Q db q vs = (db', err) \<longrightarrow> on_projects q \<longrightarrow>
        oid_table Q db' = oid_table Q db \<and> user_table Q db' = user_table Q db) \<and>
     (\<forall>db q vs db' err. cq_Exec Q db q vs = (db', err) \<longrightarrow> q \<in> {cql_insert_user, cql_delete_user} \<longrightarrow>
        oid_table Q db' = oid_table Q db)"

lemma cql_steady_if_answered:
  assumes laws: "cql_laws Q T" and answered: "cql_answered Q"
  shows "cql_steady Q"
proof -
  define row_of where "row_of oid sz = [(''oid'', Text oid), (''size'', Bigint sz)]" for oid sz
  have "cq_Iter Q db cql_select_oid [Text oid] \<in> {None, Some (oid_rows T db oid)}"
    "cq_Iter Q db cql_select_user [Text user] \<in> {None, Some (user_rows T db user)}"
    "cq_Iter Q db cql_select_oid [Text oid] \<noteq> None" "cq_Iter Q db cql_select_user [Text user] \<noteq> None" for db oid user
    using laws answered unfolding cql_laws_def cql_answered_def by meson+
  then have oids: "cq_Iter Q db cql_select_oid [Text oid] = Some (oid_rows T db oid)"
    and users: "cq_Iter Q db cql_select_user [Text user] = Some (user_rows T db user)" for db oid user
    by blast+
  have o: "oid_table Q db = (\<lambda>oid. case ct_oids T db oid of None \<Rightarrow> [] | Some sz \<Rightarrow> row_of oid sz)" for db
    by (intro ext) (simp add: oid_table_def first_row_def oids oid_rows_def row_of_def split: option.split)
  have u: "user_table Q db = (\<lambda>user. case ct_users T db user of None \<Rightarrow> []
      | Some p \<Rightarrow> [(''username'', Text user), (''password'', Text p)])" for db
    by (intro ext) (simp add: user_table_def first_row_def users user_rows_def split: option.split)
  have key: "text_of (oid_table Q db oid) ''oid'' \<in> {[], oid}" for db oid
    by (simp add: o row_of_def text_of_def split: option.split)
  have ins: "user_table Q db' = user_table Q db \<and>
      (oid \<noteq> [] \<and> oid_table Q db' = (oid_table Q db)(oid := row_of oid sz) \<or>
       err \<noteq> None \<and> oid_table Q db' = oid_table Q db)"
    if "cq_Exec Q db cql_insert_oid [Text oid, Bigint sz] = (db', err)" for db oid sz db' err
  proof -
    have "ct_users T db' = ct_users T db \<and> (oid \<noteq> [] \<and> ct_oids T db' = (ct_oids T db)(oid \<mapsto> sz) \<or>
        err \<noteq> None \<and> ct_oids T db' = ct_oids T db)"
      using laws that unfolding cql_laws_def by blast
    then show ?thesis by (auto simp: o u fun_eq_iff)
  qed
  have proj: "oid_table Q db' = oid_table Q db \<and> user_table Q db' = user_table Q db"
    if "cq_Exec Q db q vs = (db', err)" "on_projects q" for db q vs db' err
  proof -
    have "ct_oids T db' = ct_oids T db \<and> ct_users T db' = ct_users T db"
      using laws that unfolding cql_laws_def by blast
    then show ?thesis by (simp add: o u)
  qed
  have acc: "oid_table Q db' = oid_table Q db"
    if "cq_Exec Q db q vs = (db', err)" "q \<in> {cql_insert_user, cql_delete_user}" for db q vs db' err
  proof -
    have "ct_oids T db' = ct_oids T db" using laws that unfolding cql_laws_def by blast
    then show ?thesis by (simp add: o)
  qed
  show ?thesis unfolding cql_steady_def using key ins proj acc unfolding row_of_def by metis
qed

lemma cql_steady_oid:
  assumes "cql_steady Q" and "cq_Exec Q db cql_insert_oid [Text oid, Bigint sz] = (db', err)"
  obtains (stored) "oid \<noteq> []" "user_table Q db' = user_table Q db"
      "oid_table Q db' = (oid_table Q db)(oid := [(''oid'', Text oid), (''size'', Bigint sz)])"
    | (failed) e where "err = Some e" "user_table Q db' = user_table Q db" "oid_table Q db' = oid_table Q db"
  using assms unfolding cql_steady_def by (metis option.exhaust)

lemma cql_steady_key: "cql_steady Q \<Longrightarrow> text_of (oid_table Q db oid) ''oid'' \<in> {[], oid}"
  unfolding cql_steady_def by blast

lemma cql_steady_projects:
  assumes "cql_steady Q" and "on_projects q" and "cq_Exec Q db q vs = (db', err)"
  shows "oid_table Q db' = oid_table Q db" and "user_table Q db' = user_table Q db"
  using assms unfolding cql_steady_def by blast+

lemma cql_steady_users:
  assumes "cql_steady Q" and "q \<in> {cql_insert_user, cql_delete_user}" and "cq_Exec Q db q vs = (db', err)"
  shows "oid_table Q db' = oid_table Q db"
  using assms unfolding cql_steady_def by blast

lemma on_projects_statements [simp]: "on_projects cql_insert_project" "on_projects (cql_add_oid oid project)"
  by (simp_all add: on_projects_def cql_add_oid_def HasPrefix_def)

definition cass_objs :: "('db, 'c) cass_env \<Rightarrow> 'db \<Rightarrow> bytes \<Rightarrow> MetaObject option" where
  "cass_objs env db oid = (case cass_findOid (ce_Cql env) db oid of Ok m \<Rightarrow> Some m | _ \<Rightarrow> None)"

lemma cass_findOid_alt:
  "cass_findOid Q db oid =
     (let r = oid_table Q db oid in
      if text_of r ''oid'' = [] then Err ErrObjectNotFound
      else Ok \<lparr>mo_Oid = text_of r ''oid'', mo_Size = int_of r ''size'', mo_ProjectNames = [], mo_Existing = False\<rparr>)"
  by (simp add: cass_findOid_def oid_table_def)

lemma cass_findOid_cases:
  obtains (found) m where "cass_findOid (ce_Cql env) db oid = Ok m" "cass_objs env db oid = Some m"
    | (missing) "cass_findOid (ce_Cql env) db oid = Err ErrObjectNotFound" "cass_objs env db oid = None"
  by (cases "text_of (oid_table (ce_Cql env) db oid) ''oid'' = []")
    (auto simp: cass_objs_def cass_findOid_alt Let_def)

lemma cass_objs_frame: "oid_table (ce_Cql env) db' = oid_table (ce_Cql env) db \<Longrightarrow> cass_objs env db' = cass_objs env db"
  by (intro ext) (simp add: cass_objs_def cass_findOid_alt)

lemma cass_objs_stored:
  assumes "oid_table (ce_Cql env) db' = (oid_table (ce_Cql env) db)(rv_Oid v := [(''oid'', Text (rv_Oid v)), (''size'', Bigint (rv_Size v))])"
    and "rv_Oid v \<noteq> []"
  shows "cass_objs env db' = (cass_objs env db)(rv_Oid v \<mapsto> cass_new_object v)"
  using assms by (intro ext) (simp add: cass_objs_def cass_findOid_alt cass_new_object_def text_of_def int_of_def Let_def)

lemma cass_authenticate_frame:
  assumes "user_table (ce_Cql env) db' = user_table (ce_Cql env) db"
  shows "cass_authenticate env db' = cass_authenticate env db"
proof -
  have "cass_findUser (ce_Cql env) db' user = cass_findUser (ce_Cql env) db user" for user
    using assms by (simp add: cass_findUser_def fun_eq_iff user_table_def)
  then show ?thesis by (intro ext) (simp add: cass_authenticate_def split: option.splits prod.splits)
qed

lemma cass_authenticate_no_err: "cass_authenticate env db a \<noteq> Err e"
  by (simp add: cass_authenticate_def authenticateLdap_no_err split: option.splits outcome.splits)

lemma cass_createProject_frame:
  assumes "cql_steady Q" and "cass_createProject Q db project = (db', r)"
  shows "oid_table Q db' = oid_table Q db" and "user_table Q db' = user_table Q db"
  using assms(2) cql_steady_projects [OF assms(1) on_projects_statements(1), of db "[Text project]"]
  by (auto simp: cass_createProject_def split: option.splits cql_value.splits if_splits prod.splits)

lemma cass_put_project_frame:
  assumes laws: "cql_steady Q" and put: "cass_put_project Q db v = (db', r)"
  shows "oid_table Q db' = oid_table Q db \<and> user_table Q db' = user_table Q db \<and> (\<nexists>e. r = Err e)"
proof (cases "rv_Repo v = []")
  case True
  then show ?thesis using put by (auto simp: cass_put_project_def)
next
  case False
  obtain db1 created where c: "(case cass_findProject Q db (rv_Repo v) of
      Err _ \<Rightarrow> (case cass_createProject Q db (rv_Repo v) of
          (db', Err e) \<Rightarrow> (db', perror (Some e))
        | r \<Rightarrow> r)
    | _ \<Rightarrow> (db, Ok ())) = (db1, created)" by fastforce
  then have 1: "oid_table Q db1 = oid_table Q db" "user_table Q db1 = user_table Q db" "\<nexists>e. created = Err e"
    using cass_createProject_frame [OF laws, of db "rv_Repo v"]
    by (auto split: outcome.splits prod.splits)
  have put': "(case created of
      Ok _ \<Rightarrow> apsnd perror (cass_addOidToProject Q db1 (rv_Oid v) (rv_Repo v)) | r \<Rightarrow> (db1, r)) = (db', r)"
    using put False c by (simp add: cass_put_project_def)
  obtain db2 err where x: "cq_Exec Q db1 (cql_add_oid (rv_Oid v) (rv_Repo v)) [] = (db2, err)" by fastforce
  note 2 = cql_steady_projects [OF laws on_projects_statements(2) x]
  have pe: "perror err \<noteq> Err e" for e by (cases err) simp_all
  show ?thesis
    using put' 1 2 x pe by (cases created) (auto simp: cass_addOidToProject_def)
qed

text \<open>The course of a \<^verbatim>\<open>Put\<close> that finds no entry.\<close>

lemma cass_Put_new_cases:
  assumes laws: "cql_steady (ce_Cql env)" and auth: "cass_authenticate env db (rv_Authorization v) = Ok True"
    and new: "cass_objs env db (rv_Oid v) = None" and put: "cass_Put env db v = (db', r)"
  obtains (stored) "r = Ok (cass_new_object v) \<or> (\<exists>e. r = Panic e)" "rv_Oid v \<noteq> []"
      "cass_objs env db' = (cass_objs env db)(rv_Oid v \<mapsto> cass_new_object v)"
      "user_table (ce_Cql env) db' = user_table (ce_Cql env) db"
    | (failed) e where "r = Panic e" "cass_objs env db' = cass_objs env db"
      "user_table (ce_Cql env) db' = user_table (ce_Cql env) db"
proof -
  let ?Q = "ce_Cql env"
  have get: "cass_Get env db v = Err ErrObjectNotFound"
    using auth new by (cases rule: cass_findOid_cases [of env db "rv_Oid v"]) (simp_all add: cass_Get_def)
  obtain db1 err where x: "cq_Exec ?Q db cql_insert_oid [Text (rv_Oid v), Bigint (rv_Size v)] = (db1, err)"
    by fastforce
  obtain db2 res where p: "cass_put_project ?Q db1 v = (db2, res)" by fastforce
  note frame = cass_put_project_frame [OF laws p]
  have res: "(db', r) = (case perror err of Ok _ \<Rightarrow> (db2, bind_outcome res (\<lambda>_. Ok (cass_new_object v)))
      | Err e \<Rightarrow> (db1, Err e) | Panic e \<Rightarrow> (db1, Panic e))"
    using put auth get x p by (cases err) (simp_all add: cass_Put_def cass_createOid_def Let_def)
  have users: "user_table ?Q db1 = user_table ?Q db"
    by (cases rule: cql_steady_oid [OF laws x]) simp_all
  show thesis
  proof (cases err)
    case None
    then have ok: "db' = db2" "r = Ok (cass_new_object v) \<or> (\<exists>e. r = Panic e)"
      using res frame by (cases res; simp)+
    show thesis
    proof (cases rule: cql_steady_oid [OF laws x])
      case 1
      have "cass_objs env db' = cass_objs env db1" by (rule cass_objs_frame) (use frame ok in simp)
      then show thesis using stored ok 1 cass_objs_stored [OF 1(3) 1(1)] frame users by simp
    qed (use None in simp)
  next
    case (Some e)
    then have r: "db' = db1" "r = Panic e" using res by simp_all
    show thesis
    proof (cases rule: cql_steady_oid [OF laws x])
      case 1
      then show thesis using stored r cass_objs_stored [OF 1(3) 1(1)] by simp
    next
      case (2 e')
      then show thesis using failed r cass_objs_frame [OF 2(3)] by simp
    qed
  qed
qed

lemma cass_Put_found:
  assumes "cass_authenticate env db (rv_Authorization v) = Ok True" and "cass_objs env db (rv_Oid v) = Some m"
  shows "cass_Put env db v = (db, Ok (m\<lparr>mo_Existing := True\<rparr>))"
  using assms by (cases rule: cass_findOid_cases [of env db "rv_Oid v"]) (simp_all add: cass_Put_def cass_Get_def)

text \<open>What any \<^verbatim>\<open>Put\<close> does to the tables.\<close>

lemma cass_Put_frame:
  assumes laws: "cql_steady (ce_Cql env)" and put: "cass_Put env db v = (db', r)"
  shows "(cass_objs env db' = cass_objs env db \<or>
      cass_objs env db (rv_Oid v) = None \<and> cass_objs env db' = (cass_objs env db)(rv_Oid v \<mapsto> cass_new_object v)) \<and>
    cass_authenticate env db' = cass_authenticate env db"
proof (cases "cass_authenticate env db (rv_Authorization v) = Ok True \<and> cass_objs env db (rv_Oid v) = None")
  case True
  then show ?thesis
    by (cases rule: cass_Put_new_cases [OF laws conjunct1 [OF True] conjunct2 [OF True] put])
      (auto intro: cass_authenticate_frame)
next
  case False
  then have "db' = db"
  proof (cases "cass_authenticate env db (rv_Authorization v)")
    case (Ok b)
    with False put cass_Put_found [of env db v] show ?thesis
      by (cases b; cases "cass_objs env db (rv_Oid v)") (simp_all add: cass_Put_def)
  qed (use put in \<open>simp_all add: cass_Put_def\<close>)
  then show ?thesis by simp
qed

lemma exec_users_frame:
  assumes "cql_steady Q" and "q \<in> {cql_insert_user, cql_delete_user}" and "exec_outcome (cq_Exec Q db q vs) = (db', r)"
  shows "oid_table Q db' = oid_table Q db"
proof (cases "cq_Exec Q db q vs")
  case (Pair db1 err)
  then show ?thesis using cql_steady_users [OF assms(1,2) Pair] assms(3) by (simp add: exec_outcome_def)
qed

lemma cass_AddUser_objs:
  assumes "cql_steady (ce_Cql env)" and "cass_AddUser env db user pass = (db', r)"
  shows "cass_objs env db' = cass_objs env db"
proof (cases "db' = db")
  case False
  then obtain vs where "exec_outcome (cq_Exec (ce_Cql env) db cql_insert_user vs) = (db', r)"
    using assms(2) by (auto simp: cass_AddUser_def split: if_splits sum.splits)
  then show ?thesis using exec_users_frame [OF assms(1)] by (intro cass_objs_frame) blast
qed simp

lemma cass_DeleteUser_objs:
  assumes "cql_steady (ce_Cql env)" and "cass_DeleteUser env db user = (db', r)"
  shows "cass_objs env db' = cass_objs env db"
proof (cases "db' = db")
  case False
  then have "exec_outcome (cq_Exec (ce_Cql env) db cql_delete_user [Text user]) = (db', r)"
    using assms(2) by (auto simp: cass_DeleteUser_def split: if_splits)
  then show ?thesis using exec_users_frame [OF assms(1)] by (intro cass_objs_frame) blast
qed simp

lemma cass_Put_denied:
  assumes "cass_Put env db v = (db', r)" and "cass_objs env db' \<noteq> cass_objs env db"
  shows "cass_authenticate env db (rv_Authorization v) = Ok True"
  using assms by (auto simp: cass_Put_def split: outcome.splits bool.splits)

lemma entry_for_new: "entry_for v (cass_new_object v)"
  by (simp add: entry_for_def cass_new_object_def)

lemma cass_objs_key:
  "cql_steady (ce_Cql env) \<Longrightarrow> cass_objs env db oid = Some m \<Longrightarrow> mo_Oid m = oid \<and> \<not> mo_Existing m"
  using cql_steady_key [of "ce_Cql env" db oid] by (auto simp: cass_objs_def cass_findOid_alt Let_def split: if_splits)

lemma cass_Get_entry:
  assumes "cql_steady (ce_Cql env)" and get: "cass_Get env db v = Ok m"
  shows "cass_authenticate env db (rv_Authorization v) = Ok True \<and> cass_objs env db (rv_Oid v) = Some m"
proof
  show auth: "cass_authenticate env db (rv_Authorization v) = Ok True"
    using get by (auto simp: cass_Get_def split: outcome.splits bool.splits)
  show "cass_objs env db (rv_Oid v) = Some m"
    using get auth by (cases rule: cass_findOid_cases [of env db "rv_Oid v"]) (simp_all add: cass_Get_def)
qed

interpretation cassandra: managed_meta_store "cassandra_store env" "\<lambda>db. cql_steady (ce_Cql env)"
  "cass_authenticate env" "cass_objs env" for env
proof (unfold_locales, goal_cases)
  case (1 s v m)
  then have "cass_Get env s v = Ok m" by simp
  from cass_Get_entry [OF 1(1) this] cass_objs_key [OF 1(1)] show ?case by auto
next
  case (2 s v s' r)
  then have "cass_Put env s v = (s', r)" by simp
  from cass_Put_frame [OF 2(1) this] cass_Put_denied [OF this] 2(3) entry_for_new show ?case by blast
next
  case (4 s v s' r)
  then show ?case using cass_Put_frame [OF 4(1), of s v s' r] by simp
next
  case (5 s oid m)
  then show ?case by (rule cass_objs_key)
next
  case (7 s a e)
  show ?case by (rule cass_authenticate_no_err)
next
  case (10 s v m)
  then show ?case by (cases rule: cass_findOid_cases [of env s "rv_Oid v"]) (simp_all add: cass_Get_def)
next
  case (11 s v)
  then show ?case by (cases rule: cass_findOid_cases [of env s "rv_Oid v"]) (simp_all add: cass_Get_def)
next
  case (14 s v m)
  then show ?case using cass_Put_found by simp
next
  case (15 s v s' m)
  then have put: "cass_Put env s v = (s', Ok m)" by simp
  show ?case
    using entry_for_new [of v] by (cases rule: cass_Put_new_cases [OF 15(1-3) put]) auto
next
  case (16 s v s' e)
  then have put: "cass_Put env s v = (s', Err e)" by simp
  show ?case
  proof (cases "cass_objs env s (rv_Oid v)")
    case None
    show ?thesis by (cases rule: cass_Put_new_cases [OF 16(1,2) None put]) auto
  next
    case (Some m)
    then show ?thesis using cass_Put_found [OF 16(2) Some] put by simp
  qed
next
  case (17 s u p s' r)
  then show ?case using cass_AddUser_objs [OF 17(1), of s u p s' r] by simp
next
  case (18 s u s' r)
  then show ?case using cass_DeleteUser_objs [OF 18(1), of s u s' r] by simp
next
  case (19 s n s' r)
  then show ?case by (simp add: cass_AddProject_def)
qed (simp_all add: cass_Get_def cass_Put_def)

section \<open>A session in memory\<close>

text \<open>
  For the witnesses: the three tables as finite maps.  The statements that update a project
  are taken apart at their quotes; \<open>mc_down\<close> makes them fail, as a timeout would.
\<close>

record mem_cass =
  mc_oids :: "(bytes, int64) fmap"
  mc_users :: "(bytes, bytes) fmap"
  mc_projects :: "(bytes, bytes list) fmap"
  mc_down :: bool

definition mem_cql :: "mem_cass cql_api" where
  "mem_cql =
     \<lparr>cq_Exec = (\<lambda>db q vs.
        if q = cql_insert_oid then
          (case vs of [Text oid, Bigint n] \<Rightarrow>
             if oid = [] then (db, Some (ErrExt ''Key may not be empty''))
             else (db\<lparr>mc_oids := fmupd oid n (mc_oids db)\<rparr>, None)
           | _ \<Rightarrow> (db, Some (ErrExt ''type'')))
        else if q = cql_insert_user then
          (case vs of [Text u, Text p] \<Rightarrow> (db\<lparr>mc_users := fmupd u p (mc_users db)\<rparr>, None)
           | _ \<Rightarrow> (db, Some (ErrExt ''type'')))
        else if q = cql_delete_user then
          (case vs of [Text u] \<Rightarrow> (db\<lparr>mc_users := fmdrop u (mc_users db)\<rparr>, None)
           | _ \<Rightarrow> (db, Some (ErrExt ''type'')))
        else if q = cql_insert_project then
          (case vs of [Text p] \<Rightarrow> (db\<lparr>mc_projects := fmupd p [] (mc_projects db)\<rparr>, None)
           | _ \<Rightarrow> (db, Some (ErrExt ''type'')))
        else if mc_down db then (db, Some (ErrExt ''timeout''))
        else (case SplitByte (hd quote) q of
            [_, oid, _, p, _] \<Rightarrow>
              (db\<lparr>mc_projects := fmupd p (oid # (case fmlookup (mc_projects db) p of Some os \<Rightarrow> os | None \<Rightarrow> []))
                 (mc_projects db)\<rparr>, None)
          | _ \<Rightarrow> (db, Some (ErrExt ''syntax'')))),
      cq_Iter = (\<lambda>db q vs.
        if q = cql_select_oid then
          (case vs of [Text oid] \<Rightarrow>
             Some (case fmlookup (mc_oids db) oid of None \<Rightarrow> []
                   | Some n \<Rightarrow> [[(''oid'', Text oid), (''size'', Bigint n)]])
           | _ \<Rightarrow> None)
        else if q = cql_select_user then
          (case vs of [Text u] \<Rightarrow>
             Some (case fmlookup (mc_users db) u of None \<Rightarrow> []
                   | Some p \<Rightarrow> [[(''username'', Text u), (''password'', Text p)]])
           | _ \<Rightarrow> None)
        else if q = cql_select_users then
          Some (map (\<lambda>u. [(''username'', Text u)]) (sorted_list_of_fset (fmdom (mc_users db))))
        else if q = cql_select_project then
          (case vs of [Text p] \<Rightarrow>
             Some (case fmlookup (mc_projects db) p of None \<Rightarrow> []
                   | Some os \<Rightarrow> [[(''name'', Text p), (''oids'', TextSet os)]])
           | _ \<Rightarrow> None)
        else if q = cql_count_project then
          (case vs of [Text p] \<Rightarrow>
             Some [[(''count'', Bigint (if fmlookup (mc_projects db) p = None then 0 else 1))]]
           | _ \<Rightarrow> None)
        else None)\<rparr>"

lemma cql_texts [simp]:
  "cql_insert_user \<noteq> cql_insert_oid" "cql_delete_user \<noteq> cql_insert_oid" "cql_delete_user \<noteq> cql_insert_user"
  "cql_insert_project \<noteq> cql_insert_oid" "cql_insert_project \<noteq> cql_insert_user"
  "cql_insert_project \<noteq> cql_delete_user" "cql_select_user \<noteq> cql_select_oid"
  "cql_select_users \<noteq> cql_select_oid" "cql_select_users \<noteq> cql_select_user"
  "cql_select_project \<noteq> cql_select_oid" "cql_select_project \<noteq> cql_select_user"
  "cql_select_project \<noteq> cql_select_users"
  "\<not> on_projects cql_insert_oid" "\<not> on_projects cql_insert_user" "\<not> on_projects cql_delete_user"
  by (simp_all add: cql_insert_user_def cql_insert_oid_def cql_delete_user_def cql_insert_project_def
      cql_select_user_def cql_select_oid_def cql_select_users_def cql_select_project_def on_projects_def HasPrefix_def)

lemma mem_cql_tables:
  "oid_table mem_cql db oid =
     (case fmlookup (mc_oids db) oid of None \<Rightarrow> [] | Some n \<Rightarrow> [(''oid'', Text oid), (''size'', Bigint n)])"
  "user_table mem_cql db u =
     (case fmlookup (mc_users db) u of None \<Rightarrow> [] | Some p \<Rightarrow> [(''username'', Text u), (''password'', Text p)])"
  by (auto simp: oid_table_def user_table_def first_row_def mem_cql_def split: option.splits)

lemma mem_cql_users:
  "all_rows mem_cql db cql_select_users [] =
     map (\<lambda>u. [(''username'', Text u)]) (sorted_list_of_fset (fmdom (mc_users db)))"
  by (simp add: all_rows_def mem_cql_def)

lemma mem_cql_update:
  assumes "on_projects q" and "cq_Exec mem_cql db q vs = (db', err)"
  shows "mc_oids db' = mc_oids db" and "mc_users db' = mc_users db"
proof -
  have "q \<noteq> cql_insert_oid" "q \<noteq> cql_insert_user" "q \<noteq> cql_delete_user" using assms(1) by auto
  then show "mc_oids db' = mc_oids db" "mc_users db' = mc_users db"
    using assms(2) by (auto simp: mem_cql_def split: if_splits list.splits cql_value.splits)
qed

definition mem_tables :: "mem_cass cql_tables" where
  "mem_tables = \<lparr>ct_oids = (\<lambda>db. fmlookup (mc_oids db)), ct_users = (\<lambda>db. fmlookup (mc_users db))\<rparr>"

lemma mem_cql_reads:
  "cq_Iter mem_cql db cql_select_oid [Text oid] = Some (oid_rows mem_tables db oid)"
  "cq_Iter mem_cql db cql_select_user [Text user] = Some (user_rows mem_tables db user)"
  by (simp_all add: mem_cql_def oid_rows_def user_rows_def mem_tables_def)

lemma mem_cql_answered: "cql_answered mem_cql"
  by (simp add: cql_answered_def mem_cql_reads)

lemma mem_cql_writes:
  assumes "cq_Exec mem_cql db q vs = (db', err)"
  shows "q = cql_insert_oid \<Longrightarrow> vs = [Text oid, Bigint sz] \<Longrightarrow>
      ct_users mem_tables db' = ct_users mem_tables db \<and>
      (oid \<noteq> [] \<and> ct_oids mem_tables db' = (ct_oids mem_tables db)(oid \<mapsto> sz) \<or>
       err \<noteq> None \<and> ct_oids mem_tables db' = ct_oids mem_tables db)"
    and "on_projects q \<Longrightarrow>
      ct_oids mem_tables db' = ct_oids mem_tables db \<and> ct_users mem_tables db' = ct_users mem_tables db"
    and "q \<in> {cql_insert_user, cql_delete_user} \<Longrightarrow> ct_oids mem_tables db' = ct_oids mem_tables db"
proof -
  show "ct_users mem_tables db' = ct_users mem_tables db \<and>
      (oid \<noteq> [] \<and> ct_oids mem_tables db' = (ct_oids mem_tables db)(oid \<mapsto> sz) \<or>
       err \<noteq> None \<and> ct_oids mem_tables db' = ct_oids mem_tables db)"
    if "q = cql_insert_oid" "vs = [Text oid, Bigint sz]"
    using that assms by (auto simp: mem_cql_def mem_tables_def split: if_splits)
  show "ct_oids mem_tables db' = ct_oids mem_tables db \<and> ct_users mem_tables db' = ct_users mem_tables db"
    if "on_projects q"
    using mem_cql_update [OF that assms] by (simp add: mem_tables_def)
  show "ct_oids mem_tables db' = ct_oids mem_tables db" if "q \<in> {cql_insert_user, cql_delete_user}"
    using that assms by (auto simp: mem_cql_def mem_tables_def split: list.splits cql_value.splits)
qed

lemma mem_cql_laws: "cql_laws mem_cql mem_tables"
  unfolding cql_laws_def using mem_cql_reads mem_cql_writes by blast

lemma mem_cql_steady: "cql_steady mem_cql"
  by (rule cql_steady_if_answered [OF mem_cql_laws mem_cql_answered])

text \<open>The same cluster with queries for an OID that time out while it is down.\<close>

definition flaky_cql :: "mem_cass cql_api" where
  "flaky_cql = mem_cql\<lparr>cq_Iter := (\<lambda>db q vs.
     if mc_down db \<and> q = cql_select_oid then None else cq_Iter mem_cql db q vs)\<rparr>"

lemma flaky_cql_laws: "cql_laws flaky_cql mem_tables"
  unfolding cql_laws_def using mem_cql_reads mem_cql_writes by (simp add: flaky_cql_def)

definition mem_cass_env :: "bool \<Rightarrow> (mem_cass, unit) cass_env" where
  "mem_cass_env public =
     \<lparr>ce_Config = (default_configuration 1)\<lparr>Public := public\<rparr>, ce_Cql = mem_cql, ce_Bcrypt = mem_bcrypt,
      ce_Ldap = test_ldap\<rparr>"

lemma mem_cass_env_simps [simp]:
  "ce_Cql (mem_cass_env public) = mem_cql" "ce_Bcrypt (mem_cass_env public) = mem_bcrypt"
  "IsPublic (ce_Config (mem_cass_env public)) = public" "\<not> Ldap_Enabled (Ldap (ce_Config (mem_cass_env public)))"
  by (simp_all add: mem_cass_env_def IsPublic_def default_configuration_def default_ldap_def)

definition mem_cass_start :: mem_cass where
  "mem_cass_start =
     \<lparr>mc_oids = fmempty, mc_users = fmempty, mc_projects = fmap_of_list [(''repo'', [])], mc_down = True\<rparr>"

end
