(* ===== verification/MySQL_Store.thy ===== *)
theory MySQL_Store
  imports Server Bolt_Store
begin

text \<open>
  \<^verbatim>\<open>mysql_meta_store.go\<close> and \<^verbatim>\<open>mysql_service.go\<close>: the metadata store on MySQL.  The database
  is reached through \<^verbatim>\<open>database/sql\<close>: a statement, given by its text and the bound values,
  is executed or queried, and the rows of a query are scanned by position, each value by the
  declared type of its column.  The driver is a third-party package and its two calls are
  parameters.  A failed query leaves the nil rows
  that several functions go on to use.
\<close>

section \<open>The database\<close>

datatype sql_value = SText bytes | SInt int64 | SNull

type_synonym sql_row = "sql_value list"

record 'db sql_api =
  sq_Exec :: "'db \<Rightarrow> bytes \<Rightarrow> sql_value list \<Rightarrow> 'db \<times> GoError option"
  sq_Query :: "'db \<Rightarrow> bytes \<Rightarrow> sql_value list \<Rightarrow> GoError + sql_row list"

record ('db, 'c) mysql_env =
  my_Config :: Configuration
  my_Sql :: "'db sql_api"
  my_Ldap :: "'c ldap_api"

text \<open>
  \<^verbatim>\<open>rows.Scan\<close>: the columns are converted in order into the destinations, which keep their old
  values from the first error on; a wrong number of columns converts nothing.
\<close>

definition scan_error :: GoError where "scan_error = ErrExt ''sql: Scan error''"

fun scan_text_int :: "sql_row \<Rightarrow> bytes \<times> int64 \<Rightarrow> (bytes \<times> int64) \<times> GoError option" where
  "scan_text_int [SText t, SInt n] old = ((t, n), None)"
| "scan_text_int [SText t, _] old = ((t, snd old), Some scan_error)"
| "scan_text_int _ old = (old, Some scan_error)"

fun scan_int_text :: "sql_row \<Rightarrow> int64 \<times> bytes \<Rightarrow> (int64 \<times> bytes) \<times> GoError option" where
  "scan_int_text [SInt n, SText t] old = ((n, t), None)"
| "scan_int_text [SInt n, _] old = ((n, snd old), Some scan_error)"
| "scan_int_text _ old = (old, Some scan_error)"

fun scan_text :: "sql_row \<Rightarrow> bytes \<Rightarrow> bytes \<times> GoError option" where
  "scan_text [SText t] old = (t, None)"
| "scan_text _ old = (old, Some scan_error)"

fun scan_int :: "sql_row \<Rightarrow> int64 \<Rightarrow> int64 \<times> GoError option" where
  "scan_int [SInt n] old = (n, None)"
| "scan_int _ old = (old, Some scan_error)"

definition ErrNoRows :: GoError where "ErrNoRows = ErrExt ''sql: no rows in result set''"

text \<open>\<^verbatim>\<open>QueryRow\<close>, up to its scan: the first row.\<close>

definition query_row :: "'db sql_api \<Rightarrow> 'db \<Rightarrow> bytes \<Rightarrow> sql_value list \<Rightarrow> GoError + sql_row" where
  "query_row M db q vs =
     (case sq_Query M db q vs of
        Inl e \<Rightarrow> Inl e
      | Inr [] \<Rightarrow> Inl ErrNoRows
      | Inr (r # _) \<Rightarrow> Inr r)"

section \<open>Statements\<close>

definition sql_select_oids :: bytes where "sql_select_oids = ''select oid, size from oids;''"
definition sql_select_map :: bytes where "sql_select_map = ''select oid from oid_maps where projectID = ?''"
definition sql_count_projects :: bytes where "sql_count_projects = ''select count(*) as count from projects''"
definition sql_select_projects :: bytes where "sql_select_projects = ''select id, name from projects''"
definition sql_insert_project :: bytes where "sql_insert_project = ''insert into projects (name) values (?)''"
definition sql_insert_oid :: bytes where "sql_insert_oid = ''insert into oids (oid, size) values (?, ?)''"
definition sql_select_project :: bytes where "sql_select_project = ''select * from projects where name = ?''"
definition sql_insert_map :: bytes where "sql_insert_map = ''insert into oid_maps (oid, projectID) values (?, ?)''"
definition sql_select_oid :: bytes where "sql_select_oid = ''select * from oids where oid = ?''"

section \<open>Operations\<close>

fun list_oids :: "sql_row list \<Rightarrow> bytes \<times> int64 \<Rightarrow> MetaObject list" where
  "list_oids [] old = []"
| "list_oids (r # rs) old =
     (let (now, err) = scan_text_int r old
      in \<lparr>mo_Oid = fst now, mo_Size = snd now, mo_ProjectNames = [], mo_Existing = False\<rparr> # list_oids rs now)"

definition my_findAllOids :: "'db sql_api \<Rightarrow> 'db \<Rightarrow> MetaObject list outcome" where
  "my_findAllOids M db =
     (case sq_Query M db sql_select_oids [] of
        Inl e \<Rightarrow> Panic nil_dereference
      | Inr rows \<Rightarrow> Ok (list_oids rows ([], 0)))"

fun collect_oids :: "sql_row list \<Rightarrow> bytes list outcome" where
  "collect_oids [] = Ok []"
| "collect_oids (r # rs) =
     (case scan_text r [] of
        (_, Some e) \<Rightarrow> Err e
      | (oid, None) \<Rightarrow> bind_outcome (collect_oids rs) (\<lambda>oids. Ok (oid # oids)))"

definition my_mapOid :: "'db sql_api \<Rightarrow> 'db \<Rightarrow> int64 \<Rightarrow> bytes list outcome" where
  "my_mapOid M db pid =
     (case sq_Query M db sql_select_map [SInt pid] of Inl e \<Rightarrow> Err e | Inr rows \<Rightarrow> collect_oids rows)"

text \<open>The error of \<^verbatim>\<open>mapOid\<close> is dropped, and with it the list.\<close>

fun list_projects :: "'db sql_api \<Rightarrow> 'db \<Rightarrow> sql_row list \<Rightarrow> int64 \<times> bytes \<Rightarrow> MetaProject list" where
  "list_projects M db [] old = []"
| "list_projects M db (r # rs) old =
     (let (now, err) = scan_int_text r old;
          oids = (case my_mapOid M db (fst now) of Ok os \<Rightarrow> os | _ \<Rightarrow> [])
      in \<lparr>mp_Name = snd now, mp_Oids = oids\<rparr> # list_projects M db rs now)"

text \<open>The loop over the count: true if it returns early, with no projects and no error.\<close>

fun none_counted :: "sql_row list \<Rightarrow> int64 \<Rightarrow> bool" where
  "none_counted [] c = False"
| "none_counted (r # rs) c =
     (let (c', err) = scan_int r c in if err \<noteq> None \<or> c' = 0 then True else none_counted rs c')"

definition my_findAllProjects :: "'db sql_api \<Rightarrow> 'db \<Rightarrow> MetaProject list outcome" where
  "my_findAllProjects M db =
     (case sq_Query M db sql_count_projects [] of
        Inl e \<Rightarrow> Panic nil_dereference
      | Inr count \<Rightarrow>
          if none_counted count 0 then Ok []
          else (case sq_Query M db sql_select_projects [] of
              Inl e \<Rightarrow> Panic nil_dereference
            | Inr rows \<Rightarrow>
                let projectList = list_projects M db rows (0, [])
                in if projectList = [] then Err ErrProjectNotFound else Ok projectList))"

definition my_createProject :: "'db sql_api \<Rightarrow> 'db \<Rightarrow> bytes \<Rightarrow> 'db \<times> GoError option" where
  "my_createProject M db nm = sq_Exec M db sql_insert_project [SText nm]"

text \<open>\<^verbatim>\<open>createOid\<close> logs the error of its insert and returns nil.\<close>

definition my_createOid :: "'db sql_api \<Rightarrow> 'db \<Rightarrow> bytes \<Rightarrow> int64 \<Rightarrow> 'db \<times> GoError option" where
  "my_createOid M db oid sz =
     (case sq_Exec M db sql_insert_oid [SText oid, SInt sz] of
        (db', Some e) \<Rightarrow> (db', None)
      | (db', None) \<Rightarrow> (db', None))"

fun project_oids :: "sql_row list \<Rightarrow> bytes \<Rightarrow> bytes list" where
  "project_oids [] old = []"
| "project_oids (r # rs) old = (let (oid, err) = scan_text r old in oid # project_oids rs oid)"

definition my_findProject :: "'db sql_api \<Rightarrow> 'db \<Rightarrow> bytes \<Rightarrow> MetaProject outcome" where
  "my_findProject M db projectName =
     (if projectName = [] then Err ErrProjectNotFound
      else case query_row M db sql_select_project [SText projectName] of
          Inl e \<Rightarrow> Err e
        | Inr r \<Rightarrow>
            (case scan_int_text r (0, []) of
               (_, Some e) \<Rightarrow> Err e
             | ((pid, nm), None) \<Rightarrow>
                 (case sq_Query M db sql_select_map [SInt pid] of
                    Inl e \<Rightarrow> Panic nil_dereference
                  | Inr rows \<Rightarrow>
                      if nm = [] then Err ErrProjectNotFound
                      else Ok \<lparr>mp_Name = nm, mp_Oids = project_oids rows []\<rparr>)))"

text \<open>The error of looking the project up is overwritten: an unknown project has the id 0.\<close>

definition my_addOidToProject :: "'db sql_api \<Rightarrow> 'db \<Rightarrow> bytes \<Rightarrow> bytes \<Rightarrow> 'db \<times> GoError option" where
  "my_addOidToProject M db oid project =
     (let pid = (case query_row M db sql_select_project [SText project] of
                   Inl e \<Rightarrow> 0
                 | Inr r \<Rightarrow> fst (fst (scan_int_text r (0, []))))
      in sq_Exec M db sql_insert_map [SText oid, SInt pid])"

definition my_findOid :: "'db sql_api \<Rightarrow> 'db \<Rightarrow> bytes \<Rightarrow> MetaObject outcome" where
  "my_findOid M db oid =
     (case query_row M db sql_select_oid [SText oid] of
        Inl e \<Rightarrow> Err e
      | Inr r \<Rightarrow>
          (case scan_text_int r ([], 0) of
             (_, Some e) \<Rightarrow> Err e
           | ((o', n), None) \<Rightarrow>
               if o' = [] then Err ErrObjectNotFound
               else Ok \<lparr>mo_Oid = o', mo_Size = n, mo_ProjectNames = [], mo_Existing = False\<rparr>))"

text \<open>Without LDAP nobody can log in to a server that is not public.\<close>

definition my_authenticate :: "('db, 'c) mysql_env \<Rightarrow> bytes \<Rightarrow> bool outcome" where
  "my_authenticate env authorization =
     (if IsPublic (my_Config env) then Ok True
      else case basic_credentials authorization of
          None \<Rightarrow> Ok False
        | Some (user, password) \<Rightarrow>
            if Ldap_Enabled (Ldap (my_Config env)) then
              authenticateLdap (my_Ldap env) (Ldap (my_Config env)) user password
            else Ok False)"

definition my_Get :: "('db, 'c) mysql_env \<Rightarrow> 'db \<Rightarrow> RequestVars \<Rightarrow> MetaObject outcome" where
  "my_Get env db v =
     (case my_authenticate env (rv_Authorization v) of
        Panic e \<Rightarrow> Panic e
      | Err e \<Rightarrow> Err e
      | Ok False \<Rightarrow> Err AuthError
      | Ok True \<Rightarrow> my_findOid (my_Sql env) db (rv_Oid v))"

definition my_new_object :: "RequestVars \<Rightarrow> MetaObject" where
  "my_new_object v =
     \<lparr>mo_Oid = rv_Oid v, mo_Size = rv_Size v, mo_ProjectNames = [], mo_Existing = False\<rparr>"

text \<open>
  \<^verbatim>\<open>Put\<close>: the OID is stored before the project is looked up, and an unknown project is an
  error that leaves it there.
\<close>

definition my_Put :: "('db, 'c) mysql_env \<Rightarrow> 'db \<Rightarrow> RequestVars \<Rightarrow> 'db \<times> MetaObject outcome" where
  "my_Put env db v =
     (case my_authenticate env (rv_Authorization v) of
        Panic e \<Rightarrow> (db, Panic e)
      | Err e \<Rightarrow> (db, Err e)
      | Ok False \<Rightarrow> (db, Err AuthError)
      | Ok True \<Rightarrow>
          (case my_Get env db v of
             Panic e \<Rightarrow> (db, Panic e)
           | Ok meta \<Rightarrow> (db, Ok (meta\<lparr>mo_Existing := True\<rparr>))
           | Err _ \<Rightarrow>
               let M = my_Sql env; (db1, err) = my_createOid M db (rv_Oid v) (rv_Size v)
               in case perror err of
                    Panic e \<Rightarrow> (db1, Panic e)
                  | Err e \<Rightarrow> (db1, Err e)
                  | Ok _ \<Rightarrow>
                      if rv_Repo v = [] then (db1, Ok (my_new_object v))
                      else (case my_findProject M db1 (rv_Repo v) of
                          Panic e \<Rightarrow> (db1, Panic e)
                        | Err e \<Rightarrow> (db1, Err ErrProjectNotFound)
                        | Ok _ \<Rightarrow>
                            (let (db2, err2) = my_addOidToProject M db1 (rv_Oid v) (rv_Repo v)
                             in (db2, bind_outcome (perror err2) (\<lambda>_. Ok (my_new_object v)))))))"

definition my_AddUser :: "'db \<Rightarrow> bytes \<Rightarrow> bytes \<Rightarrow> 'db \<times> unit outcome" where
  "my_AddUser db user pass = (db, Err ErrNotImplemented)"

definition my_DeleteUser :: "'db \<Rightarrow> bytes \<Rightarrow> 'db \<times> unit outcome" where
  "my_DeleteUser db user = (db, Err ErrNotImplemented)"

definition my_Users :: "'db \<Rightarrow> MetaUser list outcome" where
  "my_Users db = Err ErrNotImplemented"

definition my_AddProject :: "('db, 'c) mysql_env \<Rightarrow> 'db \<Rightarrow> bytes \<Rightarrow> 'db \<times> unit outcome" where
  "my_AddProject env db nm =
     (case my_createProject (my_Sql env) db nm of (db', None) \<Rightarrow> (db', Ok ()) | (db', Some e) \<Rightarrow> (db', Err e))"

definition my_Objects :: "('db, 'c) mysql_env \<Rightarrow> 'db \<Rightarrow> MetaObject list outcome" where
  "my_Objects env db = my_findAllOids (my_Sql env) db"

definition my_Projects :: "('db, 'c) mysql_env \<Rightarrow> 'db \<Rightarrow> MetaProject list outcome" where
  "my_Projects env db = my_findAllProjects (my_Sql env) db"

definition mysql_store :: "('db, 'c) mysql_env \<Rightarrow> 'db GenericMetaStore" where
  "mysql_store env =
     \<lparr>ms_Put = my_Put env, ms_Get = my_Get env, ms_DeleteUser = my_DeleteUser, ms_AddUser = my_AddUser,
      ms_AddProject = my_AddProject env, ms_Users = my_Users, ms_Objects = my_Objects env,
      ms_Projects = my_Projects env\<rparr>"

section \<open>The service\<close>

text \<open>
  \<open>blank s\<close>: nothing is left of \<open>s\<close> after \<^verbatim>\<open>strings.TrimSpace\<close>.  It consists of the white
  space of ASCII and, in UTF-8, of Unicode.
\<close>

fun blank :: "bytes \<Rightarrow> bool" where
  "blank [] = True"
| "blank (a # s) =
     (if a \<in> set [CHR '' '', CHR 0x09, CHR 0x0A, CHR 0x0B, CHR 0x0C, CHR 0x0D] then blank s
      else case s of
          b # s' \<Rightarrow>
            if a = CHR 0xC2 \<and> b \<in> set [CHR 0x85, CHR 0xA0] then blank s'
            else (case s' of
                c # s'' \<Rightarrow>
                  if [a, b, c] = [CHR 0xE1, CHR 0x9A, CHR 0x80] \<or> [a, b, c] = [CHR 0xE3, CHR 0x80, CHR 0x80] \<or>
                     [a, b, c] = [CHR 0xE2, CHR 0x81, CHR 0x9F] \<or>
                     a = CHR 0xE2 \<and> b = CHR 0x80 \<and>
                       (128 \<le> (of_char c :: nat) \<and> (of_char c :: nat) \<le> 138 \<or>
                        c \<in> set [CHR 0xA8, CHR 0xA9, CHR 0xAF])
                  then blank s'' else False
              | [] \<Rightarrow> False)
        | [] \<Rightarrow> False)"

definition validateConfig :: "MySQLConfig \<Rightarrow> bool" where
  "validateConfig cfg =
     (if blank (MySQL_Database cfg) \<and> blank (MySQL_Host cfg) then False
      else if blank (MySQL_Username cfg) \<and> blank (MySQL_Password cfg) then False
      else True)"

definition mysql_dsn :: "MySQLConfig \<Rightarrow> bytes" where
  "mysql_dsn cfg =
     MySQL_Username cfg @ '':'' @ MySQL_Password cfg @ ''@tcp('' @ MySQL_Host cfg @ '')/'' @ MySQL_Database cfg"

text \<open>
  The tables that \<^verbatim>\<open>createTables\<close> asks the mapper to create: the columns of the three structs,
  the keys, whether the key is generated, and the columns set unique.
\<close>

datatype column_type = Int64Column | StringColumn

record table_map =
  tm_name :: bytes
  tm_columns :: "(bytes \<times> column_type) list"
  tm_autoincr :: bool
  tm_keys :: "bytes list"
  tm_unique :: "bytes list"

definition projects_table :: table_map where
  "projects_table =
     \<lparr>tm_name = ''projects'', tm_columns = [(''id'', Int64Column), (''name'', StringColumn)],
      tm_autoincr = True, tm_keys = [''id''], tm_unique = [''name'']\<rparr>"

definition oids_table :: table_map where
  "oids_table =
     \<lparr>tm_name = ''oids'', tm_columns = [(''oid'', StringColumn), (''size'', Int64Column)],
      tm_autoincr = False, tm_keys = [''oid''], tm_unique = []\<rparr>"

definition oid_maps_table :: table_map where
  "oid_maps_table =
     \<lparr>tm_name = ''oid_maps'', tm_columns = [(''oid'', StringColumn), (''projectID'', Int64Column)],
      tm_autoincr = False, tm_keys = [], tm_unique = []\<rparr>"

text \<open>\<open>create\<close> is \<^verbatim>\<open>CreateTablesIfNotExists\<close> on the tables registered before it.\<close>

definition createTables :: "('db option \<Rightarrow> table_map list \<Rightarrow> GoError option) \<Rightarrow> 'db option \<Rightarrow> GoError option" where
  "createTables create client = create client [projects_table, oids_table, oid_maps_table]"

text \<open>
  \<^verbatim>\<open>NewMySQLSession\<close>: \<open>Ok None\<close> is a service that is marked as failed.  \<open>opened\<close> is the result
  of \<^verbatim>\<open>sql.Open\<close> on a data source.
\<close>

definition NewMySQLSession ::
  "(bytes \<Rightarrow> GoError + 'db) \<Rightarrow> ('db option \<Rightarrow> table_map list \<Rightarrow> GoError option) \<Rightarrow> MySQLConfig \<Rightarrow>
   'db option outcome" where
  "NewMySQLSession opened create cfg =
     (if validateConfig cfg then
        (let conn = opened (mysql_dsn cfg)
         in bind_outcome (perror (createTables create (case conn of Inl _ \<Rightarrow> None | Inr db \<Rightarrow> Some db))) (\<lambda>_.
              (case conn of Inl e \<Rightarrow> bind_outcome (perror (Some e)) (\<lambda>_. Ok None) | Inr db \<Rightarrow> Ok (Some db))))
      else Ok None)"

definition NewMySQLMetaStore :: "'db option outcome \<Rightarrow> 'db outcome" where
  "NewMySQLMetaStore session =
     bind_outcome session (\<lambda>s. case s of None \<Rightarrow> Err ErrMissingParams | Some db \<Rightarrow> Ok db)"

section \<open>Lemmas\<close>

lemma mysql_simps [simp, store_simps]:
  "ms_Put (mysql_store env) = my_Put env" "ms_Get (mysql_store env) = my_Get env"
  "ms_Objects (mysql_store env) = my_Objects env" "ms_Projects (mysql_store env) = my_Projects env"
  "ms_AddProject (mysql_store env) = my_AddProject env" "ms_Users (mysql_store env) = my_Users"
  by (simp_all add: mysql_store_def)

lemma my_createOid_nil: "snd (my_createOid M db oid sz) = None"
  by (simp add: my_createOid_def split: prod.splits option.splits)

lemma my_Put_found:
  "my_authenticate env (rv_Authorization v) = Ok True \<Longrightarrow> my_findOid (my_Sql env) db (rv_Oid v) = Ok m \<Longrightarrow>
   my_Put env db v = (db, Ok (m\<lparr>mo_Existing := True\<rparr>))"
  by (simp add: my_Put_def my_Get_def)

lemma my_Put_new:
  assumes "my_authenticate env (rv_Authorization v) = Ok True"
    and "my_findOid (my_Sql env) db (rv_Oid v) = Err e"
    and "fst (sq_Exec (my_Sql env) db sql_insert_oid [SText (rv_Oid v), SInt (rv_Size v)]) = db1"
  shows "my_Put env db v =
    (if rv_Repo v = [] then (db1, Ok (my_new_object v))
     else (case my_findProject (my_Sql env) db1 (rv_Repo v) of
         Panic e \<Rightarrow> (db1, Panic e)
       | Err e \<Rightarrow> (db1, Err ErrProjectNotFound)
       | Ok _ \<Rightarrow>
           (let (db2, err2) = my_addOidToProject (my_Sql env) db1 (rv_Oid v) (rv_Repo v)
            in (db2, bind_outcome (perror err2) (\<lambda>_. Ok (my_new_object v))))))"
proof -
  have "my_createOid (my_Sql env) db (rv_Oid v) (rv_Size v) = (db1, None)"
    using assms(3) by (auto simp: my_createOid_def split: prod.splits option.splits)
  then show ?thesis using assms(1,2) by (simp add: my_Put_def my_Get_def Let_def)
qed

section \<open>Properties\<close>

text \<open>
  An insert that the database refuses is reported as a success.  \<^verbatim>\<open>createOid\<close> drops the
  error, \<^verbatim>\<open>Put\<close> returns the new object, and the object is not there.
\<close>

theorem mysql_put_reports_refused_insert:
  assumes auth: "my_authenticate env (rv_Authorization v) = Ok True"
    and new: "my_findOid (my_Sql env) db (rv_Oid v) = Err e"
    and refused: "sq_Exec (my_Sql env) db sql_insert_oid [SText (rv_Oid v), SInt (rv_Size v)] = (db, Some e')"
    and repo: "rv_Repo v = []"
  shows "my_Put env db v = (db, Ok (my_new_object v)) \<and> my_Get env db v = Err e"
  using my_Put_new [OF auth new, of db] refused repo auth new by (simp add: my_Get_def)

text \<open>Databases for the witnesses: one that refuses every statement, one with the table of OIDs alone.\<close>

definition closed_sql :: "unit sql_api" where
  "closed_sql = \<lparr>sq_Exec = (\<lambda>db q vs. (db, Some (ErrExt ''read-only''))), sq_Query = (\<lambda>db q vs. Inr [])\<rparr>"

definition oids_sql :: "(bytes \<rightharpoonup> int64) sql_api" where
  "oids_sql =
     \<lparr>sq_Exec = (\<lambda>db q vs. case vs of [SText oid, SInt n] \<Rightarrow> (db(oid \<mapsto> n), None) | _ \<Rightarrow> (db, Some (ErrExt ''syntax''))),
      sq_Query = (\<lambda>db q vs. if q \<noteq> sql_select_oid then Inr []
        else case vs of [SText oid] \<Rightarrow> Inr (case db oid of None \<Rightarrow> [] | Some n \<Rightarrow> [[SText oid, SInt n]])
          | _ \<Rightarrow> Inl (ErrExt ''syntax''))\<rparr>"

definition mem_mysql :: "bool \<Rightarrow> 'db sql_api \<Rightarrow> ('db, unit) mysql_env" where
  "mem_mysql public M =
     \<lparr>my_Config = (default_configuration 1)\<lparr>Public := public\<rparr>, my_Sql = M, my_Ldap = test_ldap\<rparr>"

lemma mem_mysql_public: "my_Sql (mem_mysql True M) = M" "my_authenticate (mem_mysql True M) a = Ok True"
  by (simp_all add: mem_mysql_def my_authenticate_def IsPublic_def)

lemma mysql_put_reports_refused_insert_witness:
  "my_Put (mem_mysql True closed_sql) () (zero_vars\<lparr>rv_Oid := ''a''\<rparr>) = ((), Ok (my_new_object (zero_vars\<lparr>rv_Oid := ''a''\<rparr>))) \<and>
   my_Get (mem_mysql True closed_sql) () (zero_vars\<lparr>rv_Oid := ''a''\<rparr>) = Err ErrNoRows"
  by (rule mysql_put_reports_refused_insert [where e' = "ErrExt ''read-only''"])
    (simp_all add: mem_mysql_public my_findOid_def query_row_def closed_sql_def zero_vars_def)

text \<open>
  An announcement in a project that the database does not know is answered 404, and the
  object is registered all the same: the same announcement, repeated, is answered 200 or 202
  and represents the object as one that exists.
\<close>

theorem mysql_unknown_project_registers_object:
  assumes store: "app_metaStore a = mysql_store env" and rv: "v = unpack a vars r"
    and auth: "my_authenticate env (header_Get r ''Authorization'') = Ok True"
    and new: "my_findOid (my_Sql env) db (rv_Oid v) = Err e"
    and insert: "sq_Exec (my_Sql env) db sql_insert_oid [SText (rv_Oid v), SInt (rv_Size v)] = (db1, None)"
      "my_findOid (my_Sql env) db1 (rv_Oid v) = Ok m"
    and project: "rv_Repo v \<noteq> []" "my_findProject (my_Sql env) db1 (rv_Repo v) = Err e'"
  shows "\<exists>w1 w2. PostHandler a (db, c) vars r = ((db1, c), Reply w1) \<and> final_status w1 = 404 \<and>
    PostHandler a (db1, c) vars r = ((db1, c), Reply w2) \<and> final_status w2 \<in> {200, 202} \<and>
    w_Body w2 = [Json (encode_representation (Represent (app_Config a) v (m\<lparr>mo_Existing := True\<rparr>) True True))]"
proof -
  have au: "my_authenticate env (rv_Authorization v) = Ok True" using auth rv by simp
  have "my_Put env db v = (db1, Err ErrProjectNotFound)"
    using my_Put_new [OF au new, of db1] insert(1) project by simp
  moreover have "my_Put env db1 v = (db1, Ok (m\<lparr>mo_Existing := True\<rparr>))"
    by (rule my_Put_found [OF au insert(2)])
  ultimately show ?thesis
    using store rv by (simp add: PostHandler_def meta_error_def http_simps Let_def)
qed

definition oids_app :: "(bytes \<rightharpoonup> int64, unit) App" where
  "oids_app =
     \<lparr>app_Config = my_Config (mem_mysql True oids_sql),
      app_contentStore = \<lparr>cs_Get = (\<lambda>c m. Err ErrObjectNotFound), cs_Put = (\<lambda>c m r. (c, Ok ())), cs_Exists = (\<lambda>c m. False)\<rparr>,
      app_metaStore = mysql_store (mem_mysql True oids_sql), app_json = (\<lambda>_. None)\<rparr>"

definition oids_post :: request where
  "oids_post = \<lparr>rq_Method = ''POST'', rq_Path = [], rq_Header = (\<lambda>k. []), rq_Body = ([], None)\<rparr>"

definition oids_vars :: route_vars where
  "oids_vars = [''repo'' \<mapsto> ''repo'', ''oid'' \<mapsto> ''a'']"

lemma mysql_unknown_project_registers_object_witness:
  "\<exists>w1 w2 db. PostHandler oids_app (Map.empty, ()) oids_vars oids_post = ((db, ()), Reply w1) \<and>
     final_status w1 = 404 \<and> PostHandler oids_app (db, ()) oids_vars oids_post = ((db, ()), Reply w2) \<and>
     final_status w2 \<in> {200, 202}"
proof -
  let ?v = "unpack oids_app oids_vars oids_post"
  have v: "rv_Oid ?v = ''a''" "rv_Repo ?v = ''repo''" "rv_Size ?v = 0"
    by (simp_all add: unpack_def var_def zero_vars_def oids_app_def oids_vars_def oids_post_def)
  have q: "sql_select_project \<noteq> sql_select_oid" by (simp add: sql_select_project_def sql_select_oid_def)
  have "\<exists>w1 w2. PostHandler oids_app (Map.empty, ()) oids_vars oids_post = (([''a'' \<mapsto> 0], ()), Reply w1) \<and>
      final_status w1 = 404 \<and>
      PostHandler oids_app ([''a'' \<mapsto> 0], ()) oids_vars oids_post = (([''a'' \<mapsto> 0], ()), Reply w2) \<and>
      final_status w2 \<in> {200, 202} \<and>
      w_Body w2 = [Json (encode_representation (Represent (app_Config oids_app) ?v
        (\<lparr>mo_Oid = ''a'', mo_Size = 0, mo_ProjectNames = [], mo_Existing = False\<rparr>\<lparr>mo_Existing := True\<rparr>) True True))]"
  proof (rule mysql_unknown_project_registers_object [OF _ refl, where env = "mem_mysql True oids_sql"
        and e = ErrNoRows and e' = ErrNoRows])
    show "app_metaStore oids_app = mysql_store (mem_mysql True oids_sql)" by (simp add: oids_app_def)
  qed (simp_all only: v mem_mysql_public, simp_all add: oids_sql_def my_findOid_def my_findProject_def query_row_def q)
  then show ?thesis by blast
qed

text \<open>
  Who can log in.  On a public server or with LDAP the MySQL store judges every header
  as the Bolt store does; otherwise it accepts none.
\<close>

theorem mysql_logins:
  assumes "be_Config benv = my_Config env" and "be_Ldap benv = my_Ldap env"
  shows "(IsPublic (my_Config env) \<or> Ldap_Enabled (Ldap (my_Config env)) \<longrightarrow>
       my_authenticate env a = authenticate benv db a) \<and>
    (\<not> IsPublic (my_Config env) \<longrightarrow> \<not> Ldap_Enabled (Ldap (my_Config env)) \<longrightarrow> my_authenticate env a = Ok False)"
  using assms by (simp add: my_authenticate_def authenticate_def split: option.splits prod.splits)

lemma mysql_logins_witness:
  "my_authenticate (mem_mysql False closed_sql) ''Basic'' = Ok False \<and>
   my_authenticate (mem_mysql True closed_sql) ''Basic'' = authenticate (mem_env True) mem_fresh ''Basic''"
  using mysql_logins [of "mem_env False" "mem_mysql False closed_sql" "''Basic''" mem_fresh]
    mysql_logins [of "mem_env True" "mem_mysql True closed_sql" "''Basic''" mem_fresh]
  by (simp add: mem_mysql_def mem_env_def IsPublic_def default_configuration_def default_ldap_def)

text \<open>
  The validation of the configuration does not ask for a host: a user name is enough to
  open a session on a data source without one.
\<close>

theorem mysql_session_without_host:
  "validateConfig (default_mysql\<lparr>MySQL_Username := ''root''\<rparr>) \<and>
   mysql_dsn (default_mysql\<lparr>MySQL_Username := ''root''\<rparr>) = ''root:@tcp()/lfs_server_go''"
  by (simp add: validateConfig_def mysql_dsn_def default_mysql_def)

end
