(* ===== verification/Aws_Store.thy ===== *)
theory Aws_Store
  imports Content_Store
begin

text \<open>
  \<^verbatim>\<open>aws_content_store.go\<close>: the content store on Amazon S3.  The S3 client is a third-party
  package; its calls on the configured bucket are parameters, collected in a record, and
  what the code relies on is stated as \<open>s3_laws\<close>.
\<close>

section \<open>The client\<close>

text \<open>The access lists of the package \<^verbatim>\<open>s3\<close>, and the conversion of any string into one.\<close>

datatype acl =
    Private | PublicRead | PublicReadWrite | AuthenticatedRead | BucketOwnerRead | BucketOwnerFull
  | ACL bytes

text \<open>
  \<open>s3_GetKey\<close> yields the size of a key; \<open>s3_PutReader\<close> takes the path, the bytes, the
  announced length, the content type and the access list.  A failing write may or may not
  have taken effect.
\<close>

record 'b s3_api =
  s3_Name :: bytes
  s3_ListBuckets :: "'b \<Rightarrow> GoError + bytes list"
  s3_PutBucket :: "'b \<Rightarrow> acl \<Rightarrow> 'b \<times> GoError option"
  s3_GetReader :: "'b \<Rightarrow> bytes \<Rightarrow> GoError + reader"
  s3_GetKey :: "'b \<Rightarrow> bytes \<Rightarrow> GoError + int64"
  s3_PutReader :: "'b \<Rightarrow> bytes \<Rightarrow> bytes \<Rightarrow> int64 \<Rightarrow> bytes \<Rightarrow> acl \<Rightarrow> 'b \<times> GoError option"

text \<open>
  The documented behaviour of a bucket that can be reached: a key that is there is read to
  its end and has the size of its content; one that is not gives an error both ways; a write
  concerns its own key, is there when it is acknowledged, and is visible to the next read.
\<close>

definition s3_laws :: "'b s3_api \<Rightarrow> bool" where
  "s3_laws S \<longleftrightarrow>
     (\<forall>b p c err. s3_GetReader S b p = Inr (c, err) \<longrightarrow> err = None \<and> s3_GetKey S b p = Inr (int64_len c)) \<and>
     (\<forall>b p e. s3_GetReader S b p = Inl e \<longrightarrow> (\<exists>e'. s3_GetKey S b p = Inl e')) \<and>
     (\<forall>b p c ct l b' r. s3_PutReader S b p c (int64_len c) ct l = (b', r) \<longrightarrow>
        s3_GetReader S b' = (s3_GetReader S b)(p := Inr (c, None)) \<or>
        r \<noteq> None \<and> s3_GetReader S b' = s3_GetReader S b)"

section \<open>Operations\<close>

definition ContentType :: bytes where "ContentType = ''binary/octet-stream''"

definition setAcl :: "AwsConfig \<Rightarrow> acl" where
  "setAcl cfg =
     (let l = Aws_BucketAcl cfg in
      if l = ''private'' then Private
      else if l = ''public-read'' then PublicRead
      else if l = ''public-read-write'' then PublicReadWrite
      else if l = ''authenticated-read'' then AuthenticatedRead
      else if l = ''bucket-owner-read'' then BucketOwnerRead
      else if l = ''bucket-owner-full-control'' then BucketOwnerFull
      else Private)"

definition makeBucket :: "'b s3_api \<Rightarrow> AwsConfig \<Rightarrow> 'b \<Rightarrow> 'b \<times> GoError option" where
  "makeBucket S cfg b =
     (case s3_ListBuckets S b of
        Inl e \<Rightarrow> (b, Some e)
      | Inr buckets \<Rightarrow>
          if \<not> list_ex (\<lambda>nm. nm = s3_Name S) buckets then s3_PutBucket S b (ACL (Aws_BucketAcl cfg))
          else (b, None))"

text \<open>
  \<^verbatim>\<open>NewAwsContentStore\<close>; \<open>auth\<close> is the error of \<^verbatim>\<open>aws.EnvAuth\<close>.  The result of \<^verbatim>\<open>makeBucket\<close>
  is dropped; the store is its access list, beside the bucket.
\<close>

definition NewAwsContentStore :: "'b s3_api \<Rightarrow> AwsConfig \<Rightarrow> GoError option \<Rightarrow> 'b \<Rightarrow> 'b \<times> acl outcome" where
  "NewAwsContentStore S cfg auth b =
     (case auth of
        Some e \<Rightarrow> (b, Err e)
      | None \<Rightarrow> (fst (makeBucket S cfg b), Ok (setAcl cfg)))"

definition Aws_Get :: "'b s3_api \<Rightarrow> 'b \<Rightarrow> MetaObject \<Rightarrow> reader outcome" where
  "Aws_Get S b m =
     (case s3_GetReader S b (transformKey (mo_Oid m)) of Inl e \<Rightarrow> Err e | Inr rd \<Rightarrow> Ok rd)"

definition getMetaData :: "'b s3_api \<Rightarrow> 'b \<Rightarrow> MetaObject \<Rightarrow> GoError + int64" where
  "getMetaData S b m = s3_GetKey S b (transformKey (mo_Oid m))"

text \<open>\<^verbatim>\<open>Put\<close> drops the error of reading the upload; copying the buffer to the hash cannot fail.\<close>

definition Aws_Put :: "'b s3_api \<Rightarrow> acl \<Rightarrow> 'b \<Rightarrow> MetaObject \<Rightarrow> reader \<Rightarrow> 'b \<times> unit outcome" where
  "Aws_Put S l b m rd =
     (let path = transformKey (mo_Oid m); buf = fst rd in
      if int64_len buf \<noteq> mo_Size m then (b, Err ErrSizeMismatch)
      else if oid_of buf \<noteq> mo_Oid m then (b, Err ErrHashMismatch)
      else (let (b', retStat) = s3_PutReader S b path buf (mo_Size m) ContentType l in
        (b', (case getMetaData S b' m of
                Inl e \<Rightarrow> Err ErrWriteS3
              | Inr ksize \<Rightarrow>
                  if ksize \<noteq> mo_Size m then Err ErrSizeMismatch
                  else (case retStat of None \<Rightarrow> Ok () | Some e \<Rightarrow> Err e)))))"

definition Aws_Exists :: "'b s3_api \<Rightarrow> 'b \<Rightarrow> MetaObject \<Rightarrow> bool" where
  "Aws_Exists S b m =
     (case s3_GetKey S b (transformKey (mo_Oid m)) of
        Inl e \<Rightarrow> if Contains (Error e) ''404'' then False else False
      | Inr _ \<Rightarrow> True)"

definition Aws_AddProject :: "bytes \<Rightarrow> unit outcome" where
  "Aws_AddProject nm = Err ErrMySQLNotImplemented"

definition aws_store :: "'b s3_api \<Rightarrow> acl \<Rightarrow> 'b GenericContentStore" where
  "aws_store S l = \<lparr>cs_Get = Aws_Get S, cs_Put = Aws_Put S l, cs_Exists = Aws_Exists S\<rparr>"

lemma aws_store_simps [simp, store_simps]:
  "cs_Get (aws_store S l) = Aws_Get S" "cs_Put (aws_store S l) = Aws_Put S l"
  "cs_Exists (aws_store S l) = Aws_Exists S"
  by (simp_all add: aws_store_def)

section \<open>The contract of the interface\<close>

lemma transformKey_inj:
  assumes "valid_oid a" and "valid_oid b" and "transformKey a = transformKey b"
  shows "a = b"
proof -
  have split: "SplitByte slash (JoinByte slash (pieces oid)) = pieces oid" if "valid_oid oid" for oid
    using valid_pieces [OF that] by (intro SplitByte_JoinByte) (simp_all add: pieces_def good_name_def)
  have "JoinByte slash (pieces a) = JoinByte slash (pieces b)"
    using assms(3) unfolding transformKey_valid [OF assms(1)] transformKey_valid [OF assms(2)] .
  from arg_cong [OF this, of "SplitByte slash"] have "pieces a = pieces b"
    unfolding split [OF assms(1)] split [OF assms(2)] .
  from arg_cong [OF this, of concat] show ?thesis unfolding concat_pieces .
qed

definition aws_held :: "'b s3_api \<Rightarrow> 'b \<Rightarrow> bytes \<Rightarrow> bytes option" where
  "aws_held S b oid =
     (if valid_oid oid then
        (case s3_GetReader S b (transformKey oid) of Inl e \<Rightarrow> None | Inr rd \<Rightarrow> Some (fst rd))
      else None)"

lemma s3_read:
  assumes "s3_laws S"
  shows "s3_GetReader S b p = Inr rd \<Longrightarrow> rd = (fst rd, None) \<and> s3_GetKey S b p = Inr (int64_len (fst rd))"
    and "s3_GetReader S b p = Inl e \<Longrightarrow> \<exists>e'. s3_GetKey S b p = Inl e'"
  using assms unfolding s3_laws_def by (metis prod.collapse, metis)

lemma aws_held_cases:
  assumes "s3_laws S" and "valid_oid oid"
  obtains (held) c where "aws_held S b oid = Some c" "s3_GetReader S b (transformKey oid) = Inr (c, None)"
      "s3_GetKey S b (transformKey oid) = Inr (int64_len c)"
    | (absent) e e' where "aws_held S b oid = None" "s3_GetReader S b (transformKey oid) = Inl e"
      "s3_GetKey S b (transformKey oid) = Inl e'"
proof (cases "s3_GetReader S b (transformKey oid)")
  case (Inl e)
  then show thesis using s3_read(2) [OF assms(1) Inl] absent assms(2) by (auto simp: aws_held_def)
next
  case (Inr rd)
  then show thesis using s3_read(1) [OF assms(1) Inr] held [of "fst rd"] assms(2) by (simp add: aws_held_def)
qed

text \<open>A write under a valid OID, seen through \<open>aws_held\<close>.\<close>

lemma aws_held_write:
  assumes "valid_oid oid" and "s3_GetReader S b' = (s3_GetReader S b)(transformKey oid := Inr (c, None))"
  shows "aws_held S b' = (aws_held S b)(oid \<mapsto> c)"
  using assms transformKey_inj by (intro ext) (auto simp: aws_held_def)

lemma Aws_Put_cases:
  assumes laws: "s3_laws S" and put: "Aws_Put S l b m rd = (b', r)"
  obtains (short) "b' = b" "r = Err ErrSizeMismatch" "int64_len (fst rd) \<noteq> mo_Size m"
    | (mixed) "b' = b" "r = Err ErrHashMismatch" "int64_len (fst rd) = mo_Size m" "oid_of (fst rd) \<noteq> mo_Oid m"
    | (stored) "matches_meta m (fst rd)" "aws_held S b' = (aws_held S b)(mo_Oid m \<mapsto> fst rd)"
      "r = Ok () \<or> (\<exists>e. r = Err e)"
    | (failed) e where "matches_meta m (fst rd)" "aws_held S b' = aws_held S b" "r = Err e"
proof (cases "matches_meta m (fst rd)")
  case True
  then have mm: "int64_len (fst rd) = mo_Size m" "oid_of (fst rd) = mo_Oid m" by (simp_all add: matches_meta_def)
  then have v: "valid_oid (mo_Oid m)" using valid_oid_of [of "fst rd"] by simp
  obtain b1 ret where w: "s3_PutReader S b (transformKey (mo_Oid m)) (fst rd) (mo_Size m) ContentType l = (b1, ret)"
    by fastforce
  have res: "b' = b1" "r = (case getMetaData S b1 m of Inl e \<Rightarrow> Err ErrWriteS3
      | Inr ksize \<Rightarrow> if ksize \<noteq> mo_Size m then Err ErrSizeMismatch else (case ret of None \<Rightarrow> Ok () | Some e \<Rightarrow> Err e))"
    using put mm w by (auto simp: Aws_Put_def Let_def)
  have "s3_GetReader S b1 = (s3_GetReader S b)(transformKey (mo_Oid m) := Inr (fst rd, None)) \<or>
      ret \<noteq> None \<and> s3_GetReader S b1 = s3_GetReader S b"
    using laws w mm(1) unfolding s3_laws_def by metis
  then show thesis
  proof
    assume "s3_GetReader S b1 = (s3_GetReader S b)(transformKey (mo_Oid m) := Inr (fst rd, None))"
    from aws_held_write [OF v this] show thesis
      using res True by (intro stored) (auto split: sum.splits option.splits)
  next
    assume "ret \<noteq> None \<and> s3_GetReader S b1 = s3_GetReader S b"
    then have "aws_held S b1 = aws_held S b" "\<exists>e. r = Err e"
      using res(2) by (auto simp: aws_held_def [abs_def] split: sum.splits option.splits)
    then show thesis using failed True res(1) by blast
  qed
next
  case False
  then show thesis
    using put short mixed by (cases "int64_len (fst rd) = mo_Size m") (auto simp: Aws_Put_def Let_def matches_meta_def)
qed

interpretation aws: content_store "aws_store S l" "\<lambda>b. s3_laws S" "aws_held S" for S l
proof (unfold_locales, goal_cases)
  case (1 c m b)
  then have v: "valid_oid (mo_Oid m)" by (auto simp: aws_held_def split: if_splits)
  show ?case by (cases rule: aws_held_cases [OF 1(1) v, of c]) (use 1 in \<open>simp_all add: Aws_Get_def\<close>)
next
  case (2 c m b)
  then have v: "valid_oid (mo_Oid m)" by simp
  show ?case by (cases rule: aws_held_cases [OF 2(1) v, of c]) (use 2 in \<open>simp_all add: Aws_Get_def\<close>)
next
  case (3 c m b)
  then have v: "valid_oid (mo_Oid m)" by simp
  show ?case by (cases rule: aws_held_cases [OF 3(1) v, of c]) (simp_all add: Aws_Exists_def)
next
  case (4 c m b err c')
  then have put: "Aws_Put S l c m (b, err) = (c', Ok ())" by simp
  show ?case by (cases rule: Aws_Put_cases [OF 4(1) put]) simp_all
next
  case (5 c m b err c' r)
  then have put: "Aws_Put S l c m (b, err) = (c', r)" by simp
  show ?case by (cases rule: Aws_Put_cases [OF 5(1) put]) simp_all
qed simp

section \<open>Properties\<close>

text \<open>A bucket in memory, for the witnesses: the contents by their paths.\<close>

definition mem_s3 :: "(bytes \<rightharpoonup> bytes) s3_api" where
  "mem_s3 =
     \<lparr>s3_Name = ''objects'', s3_ListBuckets = (\<lambda>b. Inr [''objects'']), s3_PutBucket = (\<lambda>b l. (b, None)),
      s3_GetReader = (\<lambda>b p. case b p of None \<Rightarrow> Inl (ErrExt ''404'') | Some c \<Rightarrow> Inr (c, None)),
      s3_GetKey = (\<lambda>b p. case b p of None \<Rightarrow> Inl (ErrExt ''404'') | Some c \<Rightarrow> Inr (int64_len c)),
      s3_PutReader = (\<lambda>b p c n ct l. (b(p \<mapsto> c), None))\<rparr>"

lemma mem_s3_laws: "s3_laws mem_s3"
  by (auto simp: s3_laws_def mem_s3_def fun_eq_iff split: option.splits)

lemma mem_s3_empty: "aws_held mem_s3 Map.empty = Map.empty"
  by (intro ext) (simp add: aws_held_def mem_s3_def)

text \<open>An acknowledged write of a matching upload is confirmed by the read that follows it.\<close>

lemma Aws_Put_matching:
  assumes laws: "s3_laws S" and mm: "matches_meta m buf"
    and ack: "s3_PutReader S b (transformKey (mo_Oid m)) buf (mo_Size m) ContentType l = (b', None)"
  shows "Aws_Put S l b m (buf, err) = (b', Ok ()) \<and> aws_held S b' = (aws_held S b)(mo_Oid m \<mapsto> buf)"
proof -
  have mm': "int64_len buf = mo_Size m" "oid_of buf = mo_Oid m" using mm by (simp_all add: matches_meta_def)
  have v: "valid_oid (mo_Oid m)" using mm'(2) valid_oid_of [of buf] by simp
  have w: "s3_GetReader S b' = (s3_GetReader S b)(transformKey (mo_Oid m) := Inr (buf, None))"
    using laws ack mm'(1) unfolding s3_laws_def by metis
  then have "s3_GetReader S b' (transformKey (mo_Oid m)) = Inr (buf, None)" by simp
  then have "getMetaData S b' m = Inr (mo_Size m)"
    using s3_read(1) [OF laws, of b' "transformKey (mo_Oid m)" "(buf, None)"] mm'(1) by (simp add: getMetaData_def)
  then show ?thesis using mm' ack aws_held_write [OF v w] by (simp add: Aws_Put_def Let_def)
qed

text \<open>
  The verdict of an upload to S3.  The size is tested first, then the hash, and nothing
  is written unless both match; then the upload succeeds exactly when S3 acknowledges the
  write, and the content is there.  An error of reading the upload is dropped: what arrived
  before it is judged as if it were everything.
\<close>

theorem aws_upload_verdict:
  assumes "s3_laws S" and "Aws_Put S l b m (buf, err) = (b', r)"
  shows "(int64_len buf \<noteq> mo_Size m \<longrightarrow> r = Err ErrSizeMismatch \<and> b' = b) \<and>
    (int64_len buf = mo_Size m \<longrightarrow> oid_of buf \<noteq> mo_Oid m \<longrightarrow> r = Err ErrHashMismatch \<and> b' = b) \<and>
    (matches_meta m buf \<longrightarrow>
       (r = Ok () \<longleftrightarrow>
          snd (s3_PutReader S b (transformKey (mo_Oid m)) buf (mo_Size m) ContentType l) = None) \<and>
       (r = Ok () \<longrightarrow> aws_held S b' = (aws_held S b)(mo_Oid m \<mapsto> buf))) \<and>
    Aws_Put S l b m (buf, None) = (b', r)"
proof -
  have "r = Ok () \<longleftrightarrow> snd (s3_PutReader S b (transformKey (mo_Oid m)) buf (mo_Size m) ContentType l) = None"
    "r = Ok () \<longrightarrow> aws_held S b' = (aws_held S b)(mo_Oid m \<mapsto> buf)" if mm: "matches_meta m buf"
  proof -
    obtain b1 ack where w: "s3_PutReader S b (transformKey (mo_Oid m)) buf (mo_Size m) ContentType l = (b1, ack)"
      by fastforce
    have "r \<noteq> Ok ()" if "ack = Some e" for e
      using assms(2) w that mm by (auto simp: Aws_Put_def Let_def matches_meta_def split: sum.splits if_splits)
    then show "r = Ok () \<longleftrightarrow> snd (s3_PutReader S b (transformKey (mo_Oid m)) buf (mo_Size m) ContentType l) = None"
      "r = Ok () \<longrightarrow> aws_held S b' = (aws_held S b)(mo_Oid m \<mapsto> buf)"
      using Aws_Put_matching [OF assms(1) mm, of b l b1 err] assms(2) w by (cases ack; simp)+
  qed
  moreover have "Aws_Put S l b m (buf, None) = Aws_Put S l b m (buf, err)" by (simp add: Aws_Put_def)
  ultimately show ?thesis using assms(2) by (auto simp: Aws_Put_def Let_def)
qed

lemma aws_upload_verdict_witness:
  "\<exists>b'. Aws_Put mem_s3 Private Map.empty test_meta (test_content, Some (ErrExt ''reset'')) = (b', Ok ()) \<and>
     aws_held mem_s3 b' = [test_oid \<mapsto> test_content]"
proof -
  obtain b' r where put: "Aws_Put mem_s3 Private Map.empty test_meta (test_content, Some (ErrExt ''reset'')) = (b', r)"
    by fastforce
  have "snd (s3_PutReader mem_s3 b p c n t l) = None" for b p c n t l by (simp add: mem_s3_def)
  then show ?thesis
    using aws_upload_verdict [OF mem_s3_laws put] put test_matches mem_s3_empty by (simp add: test_meta_def)
qed

text \<open>
  C22: the two content stores compared.  Let both hold the same contents, no temporary file be
  in the way on the disk, and S3 acknowledge the write, for a well-formed OID.  An upload that is
  read to its end gets the same verdict from both and leaves the same contents, and then both
  answer every download and every existence test of well-formed OIDs alike.  An upload whose
  reader breaks is where they differ: the files keep their contents and report the error, S3
  judges what arrived as if it were everything, and stores it if it matches.
\<close>

theorem aws_agrees_with_files:
  assumes ok: "store_ok base f" and laws: "s3_laws S"
    and same: "held_content base f = aws_held S b" and v: "valid_oid (mo_Oid m)"
    and free: "entry f (tmp_key base (mo_Oid m)) = None"
    and ack: "snd (s3_PutReader S b (transformKey (mo_Oid m)) buf (mo_Size m) ContentType l) = None"
    and puts: "ContentStore_Put base f m (buf, err) = (f', r)" "Aws_Put S l b m (buf, err) = (b', r')"
    and v': "valid_oid (mo_Oid m')"
  shows "(err = None \<longrightarrow> r = r' \<and> held_content base f' = aws_held S b' \<and>
      ContentStore_Exists base f' m' = Aws_Exists S b' m' \<and>
      (\<forall>rd. ContentStore_Get base f' m' = Ok rd \<longleftrightarrow> Aws_Get S b' m' = Ok rd)) \<and>
    (\<forall>e. err = Some e \<longrightarrow> r = Err e \<and> held_content base f' = held_content base f \<and>
      (r' = Ok () \<longleftrightarrow> matches_meta m buf) \<and>
      aws_held S b' = (if matches_meta m buf then (aws_held S b)(mo_Oid m \<mapsto> buf) else aws_held S b))"
proof (intro conjI allI impI)
  have written: "Aws_Put S l b m (buf, err) = (b', Ok ()) \<and> aws_held S b' = (aws_held S b)(mo_Oid m \<mapsto> buf)"
    if mm: "matches_meta m buf"
  proof -
    obtain b1 where w: "s3_PutReader S b (transformKey (mo_Oid m)) buf (mo_Size m) ContentType l = (b1, None)"
      using ack by (metis prod.collapse)
    show ?thesis using Aws_Put_matching [OF laws mm w, of err] puts(2) by simp
  qed
  have refused: "b' = b \<and> r' = (if int64_len buf \<noteq> mo_Size m then Err ErrSizeMismatch else Err ErrHashMismatch)"
    if "\<not> matches_meta m buf"
    using puts(2) that by (auto simp: Aws_Put_def Let_def matches_meta_def split: if_splits)
  note failed = files.put_failed [OF ok, where m = m and rd = "(buf, err)" and c' = f' and r = r]
  show "r = Err e" if "err = Some e" for e
    using Put_verdict [OF ok v free, of buf err] puts(1) that by simp
  then show "held_content base f' = held_content base f" if "err = Some e" for e
    using failed puts(1) that by simp
  show "r' = Ok () \<longleftrightarrow> matches_meta m buf"
    using written refused puts(2) by (cases "matches_meta m buf") auto
  show "aws_held S b' = (if matches_meta m buf then (aws_held S b)(mo_Oid m \<mapsto> buf) else aws_held S b)"
    using written refused by simp
  assume none: "err = None"
  have verdict: "r = (if int64_len buf \<noteq> mo_Size m then Err ErrSizeMismatch
      else if oid_of buf \<noteq> mo_Oid m then Err ErrHashMismatch else Ok ())"
    using Put_verdict [OF ok v free, of buf None] puts(1) none by simp
  show both: "r = r'" "held_content base f' = aws_held S b'"
  proof -
    have "r = r' \<and> held_content base f' = aws_held S b'"
    proof (cases "matches_meta m buf")
      case True
      have r: "r = Ok ()" using verdict True by (simp add: matches_meta_def)
      then have "held_content base f' = (held_content base f)(mo_Oid m \<mapsto> buf)"
        using Put_ok(3) [OF store_ok_wf [OF ok], where m = m and rd = "(buf, err)" and f' = f'] puts(1) by simp
      then show ?thesis using written [OF True] puts(2) same r by simp
    next
      case False
      then have "r = r'" "\<not> is_ok r" using verdict refused [OF False] by (auto simp: matches_meta_def)
      then show ?thesis using failed puts(1) same refused [OF False] by simp
    qed
    then show "r = r'" "held_content base f' = aws_held S b'" by blast+
  qed
  have ok': "store_ok base f'" by (rule Put_store_ok [OF ok puts(1) valid_routable [OF v]])
  have "ContentStore_Exists base f' m' = Aws_Exists S b' m' \<and>
    (\<forall>rd. ContentStore_Get base f' m' = Ok rd \<longleftrightarrow> Aws_Get S b' m' = Ok rd)"
  proof (cases rule: aws_held_cases [OF laws v', of b'])
    case (1 c)
    then show ?thesis
      using both Exists_held [OF ok' v'] Get_held [OF ok', of m' c] by (auto simp: Aws_Exists_def Aws_Get_def)
  next
    case (2 e e')
    then have none: "held_content base f' (mo_Oid m') = None" using both by simp
    have "\<exists>e. ContentStore_Get base f' m' = Err e" using Get_absent [OF ok' v' none] .
    then show ?thesis
      using both 2 Exists_held [OF ok' v'] by (auto simp: Aws_Exists_def Aws_Get_def)
  qed
  then show "ContentStore_Exists base f' m' = Aws_Exists S b' m'"
    "\<And>rd. ContentStore_Get base f' m' = Ok rd \<longleftrightarrow> Aws_Get S b' m' = Ok rd" by blast+
qed

lemma aws_agrees_with_files_witness:
  "\<exists>f' b'. ContentStore_Put test_base test_fs test_meta (test_content, None) = (f', Ok ()) \<and>
     Aws_Put mem_s3 Private Map.empty test_meta (test_content, None) = (b', Ok ()) \<and>
     held_content test_base f' = aws_held mem_s3 b'"
proof -
  obtain f' where p: "ContentStore_Put test_base test_fs test_meta (test_content, None) = (f', Ok ())"
    using test_put_ok by blast
  obtain b' r' where q: "Aws_Put mem_s3 Private Map.empty test_meta (test_content, None) = (b', r')" by fastforce
  have same: "held_content test_base test_fs = aws_held mem_s3 Map.empty"
    using NewContentStore_ok(2) [OF test_fs_new] mem_s3_empty by simp
  have ack: "snd (s3_PutReader mem_s3 b p c n t l) = None" for b p c n t l by (simp add: mem_s3_def)
  show ?thesis
    using aws_agrees_with_files [OF test_store_ok mem_s3_laws same test_valid test_tmp_free ack p q test_valid] p q
    by auto
qed

end
