(* ===== verification/Tracking_Listener.thy ===== *)
theory Tracking_Listener
  imports Go_Strings
begin

text \<open>
  \<^verbatim>\<open>tracking_listener.go\<close> and the way \<^verbatim>\<open>main.go\<close> uses it: a listener that counts the calls of
  \<^verbatim>\<open>Accept\<close> and the connections in a wait group, so that the shutdown can wait for them.  The
  constructor is a function of the network calls; the listener in use is a step relation
  over the accept loop of \<^verbatim>\<open>http.Serve\<close>, the connections, and the close on \<^verbatim>\<open>SIGHUP\<close>.
\<close>

section \<open>The constructor\<close>

text \<open>
  \<open>na_Parse\<close> is \<^verbatim>\<open>url.Parse\<close> with the scheme and the host of the URL; the other fields are
  \<^verbatim>\<open>net.FileListener\<close> on a file descriptor, \<^verbatim>\<open>net.ResolveTCPAddr\<close> and \<^verbatim>\<open>net.ListenTCP\<close>.
\<close>

record ('a, 'l) net_api =
  na_Parse :: "bytes \<Rightarrow> GoError + bytes \<times> bytes"
  na_FileListener :: "64 word \<Rightarrow> GoError + 'l"
  na_ResolveTCPAddr :: "bytes \<Rightarrow> bytes \<Rightarrow> GoError + 'a"
  na_ListenTCP :: "bytes \<Rightarrow> 'a \<Rightarrow> GoError + 'l"

definition NewTrackingListener :: "('a, 'l) net_api \<Rightarrow> bytes \<Rightarrow> 'l outcome" where
  "NewTrackingListener api addr =
     (case na_Parse api addr of
        Inl e \<Rightarrow> Err e
      | Inr (scheme, host) \<Rightarrow>
          if scheme = ''fd'' then
            (case Atoi host of
               None \<Rightarrow> Err (ErrExt ''strconv.Atoi'')
             | Some fd \<Rightarrow> (case na_FileListener api (word_of_int fd) of Inl e \<Rightarrow> Err e | Inr l \<Rightarrow> Ok l))
          else if scheme = ''tcp'' \<or> scheme = ''tcp4'' \<or> scheme = ''tcp6'' then
            (case na_ResolveTCPAddr api scheme host of
               Inl e \<Rightarrow> Err e
             | Inr laddr \<Rightarrow> (case na_ListenTCP api scheme laddr of Inl e \<Rightarrow> Err e | Inr l \<Rightarrow> Ok l))
          else Err (ErrExt (''Unsupported listener protocol: '' @ scheme)))"

section \<open>The listener in use\<close>

text \<open>
  The accept loop of \<^verbatim>\<open>http.Serve\<close>: about to call \<^verbatim>\<open>Accept\<close>, inside it, or returned after an
  error that is not temporary.  A connection is tracked if it came through the tracking
  listener; its \<^verbatim>\<open>sync.Once\<close> has fired once it was closed.
\<close>

datatype serve_phase = Calling | Blocked | Returned

record conn =
  cn_tracked :: bool
  cn_closed :: bool

record tl_state =
  tl_wg :: int
  tl_phase :: serve_phase
  tl_conns :: "conn list"
  tl_listening :: bool

definition tl_start :: tl_state where
  "tl_start = \<lparr>tl_wg = 0, tl_phase = Calling, tl_conns = [], tl_listening = True\<rparr>"

text \<open>\<^verbatim>\<open>wg.Done\<close> panics when the counter would go below zero.\<close>

definition wg_Add :: "tl_state \<Rightarrow> tl_state" where
  "wg_Add s = s\<lparr>tl_wg := tl_wg s + 1\<rparr>"

definition wg_Done :: "tl_state \<Rightarrow> tl_state outcome" where
  "wg_Done s =
     (if tl_wg s - 1 < 0 then Panic (ErrExt ''sync: negative WaitGroup counter'')
      else Ok (s\<lparr>tl_wg := tl_wg s - 1\<rparr>))"

text \<open>
  \<^verbatim>\<open>Accept\<close> in its two halves, before and after the call of the underlying listener, whose
  result is an error (\<open>False\<close>) or a connection.
\<close>

definition Accept_enter :: "tl_state \<Rightarrow> tl_state" where
  "Accept_enter s = wg_Add s"

definition Accept_leave :: "bool \<Rightarrow> tl_state \<Rightarrow> tl_state outcome" where
  "Accept_leave accepted s =
     (if \<not> accepted then wg_Done s
      else Ok (s\<lparr>tl_conns := tl_conns s @ [\<lparr>cn_tracked = True, cn_closed = False\<rparr>]\<rparr>))"

text \<open>\<^verbatim>\<open>trackedConn.Close\<close>; an untracked connection has the \<^verbatim>\<open>Close\<close> of its own type.\<close>

definition Conn_Close :: "nat \<Rightarrow> tl_state \<Rightarrow> tl_state outcome" where
  "Conn_Close i s =
     (let c = tl_conns s ! i; s' = s\<lparr>tl_conns := (tl_conns s)[i := c\<lparr>cn_closed := True\<rparr>]\<rparr>
      in if cn_tracked c \<and> \<not> cn_closed c then wg_Done s' else Ok s')"

text \<open>\<^verbatim>\<open>WaitForChildren\<close> returns when the counter is zero.\<close>

definition WaitForChildren_returns :: "tl_state \<Rightarrow> bool" where
  "WaitForChildren_returns s \<longleftrightarrow> tl_wg s = 0"

text \<open>
  With TLS the accept loop runs on a \<^verbatim>\<open>tcpKeepAliveListener\<close>, whose \<^verbatim>\<open>Accept\<close> sets the two options
  of the connection it got, drops the errors of that, and counts nothing.  (\<^verbatim>\<open>time.Duration\<close> is in
  nanoseconds.)
\<close>

definition time_Minute :: int64 where "time_Minute = 60 * 1000000000"

definition KeepAlive_Accept ::
  "(GoError + 'c) \<Rightarrow> ('c \<Rightarrow> bool \<Rightarrow> 'c \<times> GoError option) \<Rightarrow> ('c \<Rightarrow> int64 \<Rightarrow> 'c \<times> GoError option) \<Rightarrow> 'c outcome" where
  "KeepAlive_Accept AcceptTCP SetKeepAlive SetKeepAlivePeriod =
     (case AcceptTCP of
        Inl err \<Rightarrow> Err err
      | Inr tc \<Rightarrow>
          let (tc1, _) = SetKeepAlive tc True;
              (tc2, _) = SetKeepAlivePeriod tc1 (3 * time_Minute)
          in Ok tc2)"

text \<open>Dropped errors: a connection that was accepted is returned, whatever setting its options said.\<close>

lemma KeepAlive_Accept_ok: "is_ok (KeepAlive_Accept a k p) \<longleftrightarrow> (\<exists>tc. a = Inr tc)"
  by (cases a) (simp_all add: KeepAlive_Accept_def split: prod.split)

text \<open>
  One step.  With TLS, \<^verbatim>\<open>wrapHttps\<close> takes the listener out of the tracking listener and the
  accept loop calls that one directly.  A closed listener accepts nothing and its error is
  not temporary.
\<close>

inductive tl_step :: "bool \<Rightarrow> tl_state \<Rightarrow> tl_state outcome \<Rightarrow> bool" for tls where
  call: "tl_phase s = Calling \<Longrightarrow>
    tl_step tls s (Ok ((if tls then s else Accept_enter s)\<lparr>tl_phase := Blocked\<rparr>))"
| accepted: "tl_phase s = Blocked \<Longrightarrow> tl_listening s \<Longrightarrow>
    tl_step tls s
      (if tls then Ok (s\<lparr>tl_phase := Calling, tl_conns := tl_conns s @ [\<lparr>cn_tracked = False, cn_closed = False\<rparr>]\<rparr>)
       else Accept_leave True (s\<lparr>tl_phase := Calling\<rparr>))"
| temporary: "tl_phase s = Blocked \<Longrightarrow> tl_listening s \<Longrightarrow>
    tl_step tls s (if tls then Ok (s\<lparr>tl_phase := Calling\<rparr>) else Accept_leave False (s\<lparr>tl_phase := Calling\<rparr>))"
| failed: "tl_phase s = Blocked \<Longrightarrow>
    tl_step tls s (if tls then Ok (s\<lparr>tl_phase := Returned\<rparr>) else Accept_leave False (s\<lparr>tl_phase := Returned\<rparr>))"
| close: "i < length (tl_conns s) \<Longrightarrow> tl_step tls s (Conn_Close i s)"
| hangup: "tl_step tls s (Ok (s\<lparr>tl_listening := False\<rparr>))"

inductive tl_reachable :: "bool \<Rightarrow> tl_state \<Rightarrow> bool" for tls where
  start: "tl_reachable tls tl_start"
| step: "tl_reachable tls s \<Longrightarrow> tl_step tls s (Ok s') \<Longrightarrow> tl_reachable tls s'"

section \<open>The invariant\<close>

definition open_conns :: "conn list \<Rightarrow> nat" where
  "open_conns cs = length (filter (\<lambda>c. \<not> cn_closed c) cs)"

definition tl_inv :: "bool \<Rightarrow> tl_state \<Rightarrow> bool" where
  "tl_inv tls s \<longleftrightarrow>
     (\<forall>c \<in> set (tl_conns s). cn_tracked c \<longleftrightarrow> \<not> tls) \<and>
     tl_wg s = (if tls then 0 else int (open_conns (tl_conns s)) + (if tl_phase s = Blocked then 1 else 0))"

lemma open_conns_append [simp]: "open_conns (cs @ ds) = open_conns cs + open_conns ds"
  by (simp add: open_conns_def)

lemma open_conns_one [simp]: "open_conns [c] = (if cn_closed c then 0 else 1)"
  by (simp add: open_conns_def)

lemma open_conns_update:
  "i < length cs \<Longrightarrow>
   open_conns cs = open_conns (cs[i := (cs ! i)\<lparr>cn_closed := True\<rparr>]) + (if cn_closed (cs ! i) then 0 else 1)"
proof (induction cs arbitrary: i)
  case (Cons c cs)
  then show ?case by (cases i) (auto simp: open_conns_def)
qed simp

lemma open_conns_zero: "open_conns cs = 0 \<longleftrightarrow> (\<forall>c \<in> set cs. cn_closed c)"
  by (simp add: open_conns_def filter_empty_conv)

lemma tl_inv_start: "tl_inv tls tl_start"
  by (simp add: tl_inv_def tl_start_def open_conns_def)

lemma tl_close_inv:
  assumes iv: "tl_inv tls s" and i: "i < length (tl_conns s)"
  obtains s' where "Conn_Close i s = Ok s'" "tl_inv tls s'" "tl_phase s' = tl_phase s" "tl_listening s' = tl_listening s"
    "tl_conns s' = (tl_conns s)[i := (tl_conns s ! i)\<lparr>cn_closed := True\<rparr>]"
proof -
  let ?c = "tl_conns s ! i" and ?cs = "(tl_conns s)[i := (tl_conns s ! i)\<lparr>cn_closed := True\<rparr>]"
  have mem: "?c \<in> set (tl_conns s)" using i by simp
  then have tr: "cn_tracked ?c \<longleftrightarrow> \<not> tls" using iv by (simp add: tl_inv_def)
  have all: "\<forall>c \<in> set ?cs. cn_tracked c \<longleftrightarrow> \<not> tls"
    using iv tr by (auto simp: tl_inv_def dest!: set_update_subset_insert [THEN subsetD])
  note op = open_conns_update [OF i]
  show thesis
  proof (cases "cn_tracked ?c \<and> \<not> cn_closed ?c")
    case True
    then have "0 < tl_wg s" using iv tr op by (simp add: tl_inv_def)
    then show thesis
      using True iv tr op all
      by (intro that [of "s\<lparr>tl_conns := ?cs, tl_wg := tl_wg s - 1\<rparr>"])
        (auto simp: Conn_Close_def Let_def wg_Done_def tl_inv_def)
  next
    case False
    then show thesis
      using iv tr op all
      by (intro that [of "s\<lparr>tl_conns := ?cs\<rparr>"]) (auto simp: Conn_Close_def Let_def tl_inv_def)
  qed
qed

lemma tl_step_inv:
  assumes "tl_step tls s r" and iv: "tl_inv tls s"
  shows "\<exists>s'. r = Ok s' \<and> tl_inv tls s'"
  using assms(1)
proof cases
  case (close i)
  then show ?thesis using tl_close_inv [OF iv, of i] by metis
qed (use iv in \<open>auto simp: tl_inv_def Accept_enter_def wg_Add_def Accept_leave_def wg_Done_def\<close>)

lemma tl_reachable_inv: "tl_reachable tls s \<Longrightarrow> tl_inv tls s"
proof (induction rule: tl_reachable.induct)
  case start
  then show ?case by (rule tl_inv_start)
next
  case (step s s')
  then show ?case using tl_step_inv by fastforce
qed

section \<open>Properties\<close>

text \<open>
  C27: without TLS the wait group never goes below zero, so no \<^verbatim>\<open>Close\<close>, repeated or not,
  panics; and once the accept loop has returned, \<^verbatim>\<open>WaitForChildren\<close> returns exactly when
  every connection ever accepted has been closed.
\<close>

theorem shutdown_waits_for_connections:
  assumes "tl_reachable False s"
  shows "(\<nexists>e. tl_step False s (Panic e)) \<and>
    (tl_phase s = Returned \<longrightarrow>
       (WaitForChildren_returns s \<longleftrightarrow> (\<forall>c \<in> set (tl_conns s). cn_closed c)))"
proof -
  have iv: "tl_inv False s" by (rule tl_reachable_inv [OF assms])
  have "\<nexists>e. tl_step False s (Panic e)" using tl_step_inv [OF _ iv] by blast
  then show ?thesis
    using iv by (auto simp: tl_inv_def WaitForChildren_returns_def open_conns_zero)
qed

text \<open>The run of the witnesses: one connection is accepted, then the listener fails.\<close>

definition tl_after :: "bool \<Rightarrow> tl_state" where
  "tl_after tls =
     \<lparr>tl_wg = (if tls then 0 else 1), tl_phase = Returned,
      tl_conns = [\<lparr>cn_tracked = \<not> tls, cn_closed = False\<rparr>], tl_listening = True\<rparr>"

lemma tl_after_reachable: "tl_reachable tls (tl_after tls)"
proof -
  note defs = tl_start_def tl_after_def Accept_enter_def Accept_leave_def wg_Add_def wg_Done_def
  let ?one = "\<lparr>cn_tracked = \<not> tls, cn_closed = False\<rparr>" and ?n = "if tls then 0 else 1 :: int"
  let ?s1 = "tl_start\<lparr>tl_wg := ?n, tl_phase := Blocked\<rparr>"
  let ?s2 = "tl_start\<lparr>tl_wg := ?n, tl_conns := [?one]\<rparr>"
  let ?s3 = "tl_start\<lparr>tl_wg := 2 * ?n, tl_phase := Blocked, tl_conns := [?one]\<rparr>"
  have 1: "tl_reachable tls ?s1"
    using tl_step.call [of tl_start tls] by (intro tl_reachable.step [OF tl_reachable.start]) (simp add: defs split: if_splits)
  have 2: "tl_reachable tls ?s2"
    using tl_step.accepted [of ?s1 tls] by (intro tl_reachable.step [OF 1]) (simp add: defs split: if_splits)
  have 3: "tl_reachable tls ?s3"
    using tl_step.call [of ?s2 tls] by (intro tl_reachable.step [OF 2]) (simp add: defs split: if_splits)
  show ?thesis
    using tl_step.failed [of ?s3 tls] by (intro tl_reachable.step [OF 3]) (simp add: defs split: if_splits)
qed

lemma shutdown_waits_for_connections_witness: "\<not> WaitForChildren_returns (tl_after False)"
  using shutdown_waits_for_connections [OF tl_after_reachable] by (simp add: tl_after_def)

text \<open>The steps left to the end of the shutdown: the accept loop's, and one per open connection.\<close>

definition tl_left :: "tl_state \<Rightarrow> nat" where
  "tl_left s =
     (case tl_phase s of Calling \<Rightarrow> 2 | Blocked \<Rightarrow> 1 | Returned \<Rightarrow> 0) + open_conns (tl_conns s)"

lemma tl_close_left:
  assumes "tl_inv tls s" and "i < length (tl_conns s)" and "Conn_Close i s = Ok s'"
  shows "tl_listening s' = tl_listening s"
    and "if cn_closed (tl_conns s ! i) then s' = s else tl_left s' < tl_left s"
proof -
  obtain s1 where s1: "Conn_Close i s = Ok s1" "tl_phase s1 = tl_phase s" "tl_listening s1 = tl_listening s"
    "tl_conns s1 = (tl_conns s)[i := (tl_conns s ! i)\<lparr>cn_closed := True\<rparr>]"
    by (rule tl_close_inv [OF assms(1,2)])
  then have eq: "s1 = s'" using assms(3) by simp
  show "tl_listening s' = tl_listening s" using s1 eq by simp
  have "s\<lparr>tl_conns := (tl_conns s)[i := (tl_conns s ! i)\<lparr>cn_closed := True\<rparr>]\<rparr> = s" if "cn_closed (tl_conns s ! i)"
  proof -
    have "(tl_conns s ! i)\<lparr>cn_closed := True\<rparr> = tl_conns s ! i" using that by (cases "tl_conns s ! i") simp
    then show ?thesis by simp
  qed
  then show "if cn_closed (tl_conns s ! i) then s' = s else tl_left s' < tl_left s"
    using s1 eq assms(3) open_conns_update [OF assms(2)] by (auto simp: tl_left_def Conn_Close_def Let_def)
qed

text \<open>
  C28: the shutdown completes.  Once the listener is closed every step keeps it closed and
  either changes nothing or reduces the number of steps left: the accept loop's way to its
  return and the connections still open.  While any is left, one that reduces it is
  possible, and when none is left the wait is over.
\<close>

theorem shutdown_completes:
  assumes reach: "tl_reachable tls s" and closed: "\<not> tl_listening s"
  shows "(\<forall>s'. tl_step tls s (Ok s') \<longrightarrow> \<not> tl_listening s' \<and> (s' = s \<or> tl_left s' < tl_left s)) \<and>
    (tl_left s \<noteq> 0 \<longrightarrow> (\<exists>s'. tl_step tls s (Ok s') \<and> tl_left s' < tl_left s)) \<and>
    (tl_left s = 0 \<longrightarrow> tl_phase s = Returned \<and> WaitForChildren_returns s)"
proof (intro conjI allI impI)
  have iv: "tl_inv tls s" by (rule tl_reachable_inv [OF reach])
  note defs = tl_left_def Accept_enter_def Accept_leave_def wg_Add_def wg_Done_def
  show "\<not> tl_listening s'" "s' = s \<or> tl_left s' < tl_left s" if step: "tl_step tls s (Ok s')" for s'
  proof -
    have "\<not> tl_listening s' \<and> (s' = s \<or> tl_left s' < tl_left s)"
      using step
    proof cases
      case (close i)
      then show ?thesis using tl_close_left [OF iv, of i s'] closed by (auto split: if_splits)
    qed (use closed in \<open>auto simp: defs split: if_splits\<close>)
    then show "\<not> tl_listening s'" "s' = s \<or> tl_left s' < tl_left s" by simp_all
  qed
  show "\<exists>s'. tl_step tls s (Ok s') \<and> tl_left s' < tl_left s" if left: "tl_left s \<noteq> 0"
  proof (cases "tl_phase s")
    case Calling
    then show ?thesis using tl_step.call [of s tls] by (intro exI conjI) (assumption | simp add: defs)+
  next
    case Blocked
    obtain s' where s': "tl_step tls s (Ok s')" "tl_phase s' = Returned" "tl_conns s' = tl_conns s"
      using tl_step.failed [OF Blocked, of tls] iv Blocked
      by (auto simp: Accept_leave_def wg_Done_def tl_inv_def split: if_splits)
    then show ?thesis using Blocked by (auto simp: tl_left_def)
  next
    case Returned
    then obtain i where i: "i < length (tl_conns s)" "\<not> cn_closed (tl_conns s ! i)"
      using left by (auto simp: tl_left_def open_conns_zero in_set_conv_nth)
    obtain s' where c: "Conn_Close i s = Ok s'" by (rule tl_close_inv [OF iv i(1)])
    then show ?thesis using tl_step.close [OF i(1), of tls] tl_close_left(2) [OF iv i(1) c] i(2) by auto
  qed
  show "tl_phase s = Returned" if "tl_left s = 0"
    using that by (simp add: tl_left_def split: serve_phase.splits)
  show "WaitForChildren_returns s" if "tl_left s = 0"
    using that iv by (simp add: tl_left_def tl_inv_def WaitForChildren_returns_def split: serve_phase.splits)
qed

lemma shutdown_completes_witness:
  "\<exists>s'. tl_step False ((tl_after False)\<lparr>tl_listening := False\<rparr>) (Ok s') \<and>
     tl_left s' < tl_left ((tl_after False)\<lparr>tl_listening := False\<rparr>)"
proof -
  have "tl_reachable False ((tl_after False)\<lparr>tl_listening := False\<rparr>)"
    by (rule tl_reachable.step [OF tl_after_reachable tl_step.hangup])
  from shutdown_completes [OF this] show ?thesis by (simp add: tl_left_def tl_after_def open_conns_def)
qed

text \<open>
  With TLS nothing is waited for.  The accept loop runs on the listener inside, so the
  counter stays zero, and \<^verbatim>\<open>WaitForChildren\<close> returns while a connection is open.
\<close>

theorem tls_shutdown_does_not_wait:
  "\<exists>s c. tl_reachable True s \<and> tl_phase s = Returned \<and> c \<in> set (tl_conns s) \<and> \<not> cn_closed c \<and>
     WaitForChildren_returns s"
  using tl_after_reachable [of True]
  by (intro exI [of _ "tl_after True"] exI [of _ "\<lparr>cn_tracked = False, cn_closed = False\<rparr>"])
    (simp add: tl_after_def WaitForChildren_returns_def)

end
