(* ===== verification/Startup.thy ===== *)
theory Startup
  imports Mgmt Bolt_Store Cassandra_Store MySQL_Store Content_Store Aws_Store Tracking_Listener
begin

text \<open>
  \<^verbatim>\<open>main.go\<close>: from a configuration to a running server.  The stores that are opened, the files
  and the network calls are those of the component theories; loading a key pair and the
  type of a network listener are parameters.  At the end, how a server that has started stops.
\<close>

section \<open>The environment\<close>

text \<open>
  What the process finds: the result of opening a Bolt file, a Cassandra cluster with the
  error of opening a session in a keyspace, the results of opening a MySQL database and of
  creating its tables, the bucket with the error of \<^verbatim>\<open>aws.EnvAuth\<close>, the file system, the
  network, whether a listener is a \<^verbatim>\<open>net.TCPListener\<close>, and the error of loading a key pair.
\<close>

record ('b, 'q, 'm, 'v, 'a, 'l) start_env =
  se_Bolt :: "'b bolt_api"
  se_OpenBolt :: "bytes \<Rightarrow> GoError + 'b"
  se_Cql :: "'q cql_api"
  se_Connect :: "'q \<Rightarrow> bytes \<Rightarrow> GoError option"
  se_Cluster :: 'q
  se_GoEnv :: bytes
  se_OpenMySQL :: "bytes \<Rightarrow> GoError + 'm"
  se_Tables :: "'m option \<Rightarrow> table_map list \<Rightarrow> GoError option"
  se_S3 :: "'v s3_api"
  se_EnvAuth :: "GoError option"
  se_Bucket :: 'v
  se_Fs :: fs
  se_Net :: "('a, 'l) net_api"
  se_IsTCP :: "'l \<Rightarrow> bool"
  se_KeyPair :: "bytes \<Rightarrow> bytes \<Rightarrow> GoError option"

text \<open>An opened store: which kind, and its state.  A store on S3 keeps its access list.\<close>

datatype ('b, 'q, 'm) opened_meta = BoltMeta 'b | CassandraMeta 'q | MySQLMeta 'm

datatype 'v opened_content = FileContent fs | AwsContent 'v acl

text \<open>The listener that serves: the tracking listener itself, or TLS over what it wraps.\<close>

datatype 'l listener = Tracked 'l | OverTLS 'l bytes bytes

section \<open>The choices\<close>

fun map_outcome :: "('a \<Rightarrow> 'b) \<Rightarrow> 'a outcome \<Rightarrow> 'b outcome" where
  "map_outcome f (Ok a) = Ok (f a)"
| "map_outcome f (Err e) = Err e"
| "map_outcome f (Panic e) = Panic e"

definition wrapHttps ::
  "('b, 'q, 'm, 'v, 'a, 'l) start_env \<Rightarrow> 'l \<Rightarrow> bytes \<Rightarrow> bytes \<Rightarrow> 'l listener outcome" where
  "wrapHttps env l cert key =
     (case se_KeyPair env cert key of
        Some e \<Rightarrow> Err e
      | None \<Rightarrow>
          if se_IsTCP env l then Ok (OverTLS l cert key)
          else Panic (ErrExt ''interface conversion''))"

text \<open>\<^verbatim>\<open>NewCassandraMetaStore\<close> keeps the session it is given; it cannot fail.\<close>

definition NewCassandraMetaStore :: "'q \<times> unit outcome \<Rightarrow> 'q outcome" where
  "NewCassandraMetaStore session = map_outcome (\<lambda>_. fst session) (snd session)"

definition FindMetaStore ::
  "('b, 'q, 'm, 'v, 'a, 'l) start_env \<Rightarrow> Configuration \<Rightarrow> ('b, 'q, 'm) opened_meta outcome" where
  "FindMetaStore env cfg =
     (if BackingStore cfg = ''bolt'' then
        map_outcome BoltMeta (NewMetaStore (se_Bolt env) (se_OpenBolt env (MetaDB cfg)))
      else if BackingStore cfg = ''cassandra'' then
        map_outcome CassandraMeta (NewCassandraMetaStore
          (NewCassandraSession (se_Cql env) (se_Connect env) (Cassandra cfg) (se_GoEnv env) (se_Cluster env)))
      else if BackingStore cfg = ''mysql'' then
        map_outcome MySQLMeta
          (NewMySQLMetaStore (NewMySQLSession (se_OpenMySQL env) (se_Tables env) (MySQL cfg)))
      else map_outcome BoltMeta (NewMetaStore (se_Bolt env) (se_OpenBolt env (MetaDB cfg))))"

definition file_content :: "fs \<times> unit outcome \<Rightarrow> 'v opened_content outcome" where
  "file_content r = map_outcome (\<lambda>_. FileContent (fst r)) (snd r)"

definition findContentStore ::
  "('b, 'q, 'm, 'v, 'a, 'l) start_env \<Rightarrow> Configuration \<Rightarrow> 'v opened_content outcome" where
  "findContentStore env cfg =
     (if ContentStoreKind cfg = ''filestore'' then file_content (NewContentStore (se_Fs env) (ContentPath cfg))
      else if ContentStoreKind cfg = ''aws'' then
        (let (b, r) = NewAwsContentStore (se_S3 env) (Aws cfg) (se_EnvAuth env) (se_Bucket env)
         in map_outcome (AwsContent b) r)
      else file_content (NewContentStore (se_Fs env) (ContentPath cfg)))"

section \<open>The process\<close>

text \<open>
  How the process goes on: it prints and exits, ends with status 1 and a logged error
  (\<^verbatim>\<open>logger.Fatal\<close>), panics, or serves.
\<close>

datatype ('b, 'q, 'm, 'v, 'l) started =
    Exits bytes
  | Fatal bytes
  | Crashes GoError
  | Serves "'l listener" "('b, 'q, 'm) opened_meta" "'v opened_content"

definition version :: bytes where "version = ''0.1.0''"

text \<open>A step of \<^verbatim>\<open>main\<close>: the message put before the error of a call that failed.\<close>

fun or_fatal ::
  "bytes \<Rightarrow> 'x outcome \<Rightarrow> ('x \<Rightarrow> ('b, 'q, 'm, 'v, 'l) started) \<Rightarrow> ('b, 'q, 'm, 'v, 'l) started" where
  "or_fatal msg (Ok x) k = k x"
| "or_fatal msg (Err e) k = Fatal (msg @ Error e)"
| "or_fatal msg (Panic e) k = Crashes e"

definition choose_listener ::
  "('b, 'q, 'm, 'v, 'a, 'l) start_env \<Rightarrow> Configuration \<Rightarrow> 'l \<Rightarrow> 'l listener outcome" where
  "choose_listener env cfg l =
     (if IsHTTPS cfg then
        (if UseTLS cfg then wrapHttps env l (Cert cfg) (Key cfg) else Ok (Tracked l))
      else Ok (Tracked l))"

definition Main ::
  "('b, 'q, 'm, 'v, 'a, 'l) start_env \<Rightarrow> Configuration \<Rightarrow> bytes list \<Rightarrow> ('b, 'q, 'm, 'v, 'l) started" where
  "Main env cfg args =
     (if length args = 2 \<and> args ! 1 = ''-v'' then Exits (version @ [CHR 0x0A])
      else or_fatal ''Could not create listener: '' (NewTrackingListener (se_Net env) (Listen cfg)) (\<lambda>l.
           or_fatal ''Could not create https listener: '' (choose_listener env cfg l) (\<lambda>ln.
           or_fatal ''Could not open the meta store: '' (FindMetaStore env cfg) (\<lambda>ms.
           or_fatal ''Could not open the content store: '' (findContentStore env cfg) (\<lambda>cs.
           Serves ln ms cs)))))"

section \<open>Properties\<close>

lemma map_outcome_Ok: "map_outcome f r = Ok y \<longleftrightarrow> (\<exists>x. r = Ok x \<and> y = f x)"
  by (cases r) auto

lemma map_outcome_Err: "map_outcome f r = Err e \<longleftrightarrow> r = Err e"
  by (cases r) auto

lemma or_fatal_Serves:
  "or_fatal msg r k = Serves ln ms cs \<longleftrightarrow> (\<exists>x. r = Ok x \<and> k x = Serves ln ms cs)"
  by (cases r) auto

lemma Main_Serves:
  assumes "Main env cfg args = Serves ln ms cs"
  obtains l where "NewTrackingListener (se_Net env) (Listen cfg) = Ok l" "choose_listener env cfg l = Ok ln"
    "FindMetaStore env cfg = Ok ms" "findContentStore env cfg = Ok cs"
  using assms by (auto simp: Main_def or_fatal_Serves split: if_splits)

lemma choose_listener_Ok:
  "choose_listener env cfg l = Ok ln \<Longrightarrow>
     ln = (if IsHTTPS cfg \<and> UseTLS cfg then OverTLS l (Cert cfg) (Key cfg) else Tracked l)"
  by (auto simp: choose_listener_def wrapHttps_def split: if_splits option.splits)

text \<open>The world of the witnesses: an empty Bolt file, an empty disk, no other service.\<close>

definition blank_db :: mem_db where
  "blank_db = \<lparr>mem_buckets = (\<lambda>_. False), mem_values = (\<lambda>_. fmempty)\<rparr>"

definition test_start :: "(mem_db, mem_cass, unit, bytes \<rightharpoonup> bytes, unit, nat) start_env" where
  "test_start =
     \<lparr>se_Bolt = mem_bolt, se_OpenBolt = (\<lambda>p. Inr blank_db), se_Cql = mem_cql,
      se_Connect = (\<lambda>db k. Some (ErrExt ''no hosts'')), se_Cluster = mem_cass_start, se_GoEnv = ''production'',
      se_OpenMySQL = (\<lambda>dsn. Inl (ErrExt ''refused'')), se_Tables = (\<lambda>db ts. None), se_S3 = mem_s3,
      se_EnvAuth = None, se_Bucket = Map.empty, se_Fs = empty_fs,
      se_Net = \<lparr>na_Parse = (\<lambda>a. Inr (''tcp'', '':8080'')), na_FileListener = (\<lambda>fd. Inr 3),
        na_ResolveTCPAddr = (\<lambda>n h. Inr ()), na_ListenTCP = (\<lambda>n a. Inr 7)\<rparr>,
      se_IsTCP = (\<lambda>l. True), se_KeyPair = (\<lambda>c k. None)\<rparr>"

definition test_config :: Configuration where
  "test_config = (default_configuration 1)\<lparr>ContentPath := test_base\<rparr>"

lemma test_listens: "NewTrackingListener (se_Net test_start) addr = Ok 7"
  by (simp add: NewTrackingListener_def test_start_def)

lemma test_plain: "\<not> IsHTTPS cfg \<Longrightarrow> choose_listener env cfg l = Ok (Tracked l)"
  by (simp add: choose_listener_def)

lemma default_plain: "Scheme cfg = ''http'' \<Longrightarrow> \<not> IsHTTPS cfg"
  by (simp add: IsHTTPS_def HasPrefix_def)

lemma test_main:
  "Main test_start test_config [] = Serves (Tracked 7) (BoltMeta mem_fresh) (FileContent test_fs)"
proof -
  have "\<not> IsHTTPS test_config" by (intro default_plain) (simp add: test_config_def default_configuration_def)
  moreover have "FindMetaStore test_start test_config = Ok (BoltMeta mem_fresh)"
    by (simp add: FindMetaStore_def NewMetaStore_def test_start_def test_config_def default_configuration_def
        mem_fresh_def blank_db_def)
  moreover have "findContentStore test_start test_config = Ok (FileContent test_fs)"
    using test_fs_new by (simp add: findContentStore_def file_content_def test_start_def test_config_def
        default_configuration_def)
  ultimately show ?thesis by (simp add: Main_def test_listens test_plain)
qed

text \<open>
  What a server that starts is made of.  It serves over TLS exactly if the scheme
  contains \<^verbatim>\<open>https\<close> and both a certificate and a key are named; its metadata are in Cassandra or
  MySQL exactly if the configuration says so, and else in Bolt; its contents are on S3
  exactly if the configuration says so, and else in files.  A MySQL store has passed the
  validation of its configuration.
\<close>

theorem startup_choices:
  assumes "Main env cfg args = Serves ln ms cs"
  shows "((\<exists>l. ln = OverTLS l (Cert cfg) (Key cfg)) \<longleftrightarrow> IsHTTPS cfg \<and> Cert cfg \<noteq> [] \<and> Key cfg \<noteq> []) \<and>
    ((\<exists>q. ms = CassandraMeta q) \<longleftrightarrow> BackingStore cfg = ''cassandra'') \<and>
    ((\<exists>m. ms = MySQLMeta m) \<longleftrightarrow> BackingStore cfg = ''mysql'') \<and>
    (BackingStore cfg = ''mysql'' \<longrightarrow> validateConfig (MySQL cfg)) \<and>
    ((\<exists>b l. cs = AwsContent b l) \<longleftrightarrow> ContentStoreKind cfg = ''aws'')"
proof -
  obtain l where ln: "choose_listener env cfg l = Ok ln" and ms: "FindMetaStore env cfg = Ok ms"
    and cs: "findContentStore env cfg = Ok cs"
    using Main_Serves [OF assms] by blast
  have "BackingStore cfg = ''mysql'' \<longrightarrow> validateConfig (MySQL cfg)"
    using ms by (auto simp: FindMetaStore_def map_outcome_Ok NewMySQLMetaStore_def NewMySQLSession_def
        bind_outcome_ok_iff split: if_splits option.splits)
  then show ?thesis
    using ms cs choose_listener_Ok [OF ln]
    by (auto simp: FindMetaStore_def findContentStore_def file_content_def map_outcome_Ok UseTLS_def
        split: if_splits prod.splits)
qed

lemma startup_choices_witness:
  "\<not> (IsHTTPS test_config \<and> Cert test_config \<noteq> [] \<and> Key test_config \<noteq> [])"
  using startup_choices [OF test_main] by blast

text \<open>
  How some starts over plain HTTP fail.  The error of the step that fails is reported behind a
  message that names the step; an unreachable Cassandra ends in a panic instead.
\<close>

theorem startup_failures:
  assumes "length args \<noteq> 2" and "\<not> IsHTTPS cfg"
  shows "(NewTrackingListener (se_Net env) (Listen cfg) = Err e \<longrightarrow>
       Main env cfg args = Fatal (''Could not create listener: '' @ Error e)) \<and>
    (NewTrackingListener (se_Net env) (Listen cfg) = Ok l \<longrightarrow>
       (BackingStore cfg = ''mysql'' \<longrightarrow> \<not> validateConfig (MySQL cfg) \<longrightarrow>
          Main env cfg args = Fatal ''Could not open the meta store: Missing params'') \<and>
       (BackingStore cfg = ''cassandra'' \<longrightarrow> se_Connect env (se_Cluster env) [] = Some e \<longrightarrow>
          Main env cfg args = Crashes nil_dereference) \<and>
       (BackingStore cfg \<notin> {''mysql'', ''cassandra''} \<longrightarrow> se_OpenBolt env (MetaDB cfg) = Inl e \<longrightarrow>
          Main env cfg args = Fatal (''Could not open the meta store: '' @ Error e)) \<and>
       (FindMetaStore env cfg = Ok ms \<longrightarrow> ContentStoreKind cfg = ''aws'' \<longrightarrow> se_EnvAuth env = Some e \<longrightarrow>
          Main env cfg args = Fatal (''Could not open the content store: '' @ Error e)))"
  using assms(1) test_plain [OF assms(2), of env]
  by (auto simp: Main_def FindMetaStore_def findContentStore_def NewMySQLMetaStore_def NewMySQLSession_def
      NewMetaStore_def NewCassandraMetaStore_def NewCassandraSession_def NewAwsContentStore_def)

lemma startup_failures_witness:
  "Main test_start (test_config\<lparr>BackingStore := ''cassandra''\<rparr>) [] = Crashes nil_dereference"
proof -
  let ?c = "test_config\<lparr>BackingStore := ''cassandra''\<rparr>"
  have plain: "\<not> IsHTTPS ?c" by (intro default_plain) (simp add: test_config_def default_configuration_def)
  have refused: "se_Connect test_start (se_Cluster test_start) [] = Some (ErrExt ''no hosts'')"
    by (simp add: test_start_def)
  show ?thesis
    using startup_failures [where args = "[]" and cfg = ?c and env = test_start and l = 7 and e = "ErrExt ''no hosts''"]
      plain refused by (simp add: test_listens)
qed

text \<open>
  What \<^verbatim>\<open>main\<close> goes on with: the accept loop runs on the listener chosen, and when it has
  returned \<^verbatim>\<open>main\<close> waits for the children of the tracking listener and ends.
\<close>

fun over_tls :: "'l listener \<Rightarrow> bool" where
  "over_tls (Tracked l) = False"
| "over_tls (OverTLS l cert key) = True"

text \<open>
  C35: how a server that \<^verbatim>\<open>main\<close> has started ends.  Once its accept loop has returned, the process
  ends at once if it serves over TLS, which it does exactly if the scheme contains \<^verbatim>\<open>https\<close>
  and both a certificate and a key are named: the connections that are still open, of which
  there can be some, are cut off.  Any other server ends exactly when every connection it has
  ever accepted is closed.
\<close>

theorem shutdown_of_started_server:
  assumes "Main env cfg args = Serves ln ms cs"
  shows "(over_tls ln \<longleftrightarrow> IsHTTPS cfg \<and> Cert cfg \<noteq> [] \<and> Key cfg \<noteq> []) \<and>
    (\<forall>s. tl_reachable (over_tls ln) s \<longrightarrow> tl_phase s = Returned \<longrightarrow>
       (WaitForChildren_returns s \<longleftrightarrow> over_tls ln \<or> (\<forall>c \<in> set (tl_conns s). cn_closed c))) \<and>
    (\<exists>s. tl_reachable (over_tls ln) s \<and> tl_phase s = Returned \<and> (\<exists>c \<in> set (tl_conns s). \<not> cn_closed c) \<and>
       (WaitForChildren_returns s \<longleftrightarrow> over_tls ln))"
proof (intro conjI allI impI)
  obtain l where "choose_listener env cfg l = Ok ln" using Main_Serves [OF assms] by blast
  from choose_listener_Ok [OF this]
  show "over_tls ln \<longleftrightarrow> IsHTTPS cfg \<and> Cert cfg \<noteq> [] \<and> Key cfg \<noteq> []" by (simp add: UseTLS_def)
  show wait: "WaitForChildren_returns s \<longleftrightarrow> over_tls ln \<or> (\<forall>c \<in> set (tl_conns s). cn_closed c)"
    if "tl_reachable (over_tls ln) s" "tl_phase s = Returned" for s
    using tl_reachable_inv [OF that(1)] that(2) by (auto simp: tl_inv_def WaitForChildren_returns_def open_conns_zero)
  show "\<exists>s. tl_reachable (over_tls ln) s \<and> tl_phase s = Returned \<and> (\<exists>c \<in> set (tl_conns s). \<not> cn_closed c) \<and>
      (WaitForChildren_returns s \<longleftrightarrow> over_tls ln)"
    using tl_after_reachable [of "over_tls ln"]
    by (intro exI [of _ "tl_after (over_tls ln)"]) (simp add: tl_after_def WaitForChildren_returns_def)
qed

lemma shutdown_of_started_server_witness:
  "\<exists>s ms cs. Main test_start (test_config\<lparr>Scheme := ''https'', Cert := ''c'', Key := ''k''\<rparr>) [] =
       Serves (OverTLS 7 ''c'' ''k'') ms cs \<and>
     tl_reachable True s \<and> (\<exists>c \<in> set (tl_conns s). \<not> cn_closed c) \<and> WaitForChildren_returns s"
proof -
  let ?c = "test_config\<lparr>Scheme := ''https'', Cert := ''c'', Key := ''k''\<rparr>"
  have "IsHTTPS ?c" by (simp add: IsHTTPS_def HasPrefix_def)
  moreover have "UseTLS ?c" by (simp add: UseTLS_def)
  ultimately have ln: "choose_listener test_start ?c 7 = Ok (OverTLS 7 ''c'' ''k'')"
    by (simp add: choose_listener_def wrapHttps_def test_start_def)
  have "FindMetaStore test_start ?c = Ok (BoltMeta mem_fresh)"
    by (simp add: FindMetaStore_def NewMetaStore_def test_start_def test_config_def default_configuration_def
        mem_fresh_def blank_db_def)
  moreover have "findContentStore test_start ?c = Ok (FileContent test_fs)"
    using test_fs_new by (simp add: findContentStore_def file_content_def test_start_def test_config_def
        default_configuration_def)
  ultimately have start: "Main test_start ?c [] = Serves (OverTLS 7 ''c'' ''k'') (BoltMeta mem_fresh) (FileContent test_fs)"
    using ln by (simp add: Main_def test_listens)
  from shutdown_of_started_server [OF start] start show ?thesis by auto
qed

end
