(* ===== verification/Lfs_Deployments.thy ===== *)
theory Lfs_Deployments
  imports Lfs_Server Startup
begin

text \<open>
  The server from its start, in two deployments: a Bolt file with contents on disk, started on
  an empty world, with where its contents come from; and Cassandra with contents on S3, whose
  handlers obey the same laws while the queries by key are answered, with what they do when one
  of them fails.
\<close>

section \<open>A Bolt file and a disk\<close>

text \<open>A Bolt file that the server can start on: a new one, or one that a server has left.\<close>

definition bolt_file_ok :: "'db bolt_api \<Rightarrow> 'db \<Rightarrow> bool" where
  "bolt_file_ok B db \<longleftrightarrow>
     (\<forall>k v. b_Get B db objectsBucket k = Some v \<longrightarrow> (\<exists>m. v = Gob_MetaObject m \<and> mo_Oid m = k \<and> \<not> mo_Existing m)) \<and>
     (b_Bucket B db objectsBucket \<or> (\<exists>db1. create_buckets B db = Inr db1 \<and> b_Commit B db1 = None))"

lemma bolt_inv_file: "bolt_inv env db \<Longrightarrow> bolt_file_ok (be_Bolt env) db"
  by (simp add: bolt_inv_def bolt_file_ok_def)

lemma create_buckets_effect:
  assumes "bolt_laws B" and "create_buckets B db = Inr db'"
  shows "b_Bucket B db' = (b_Bucket B db)(usersBucket := True, objectsBucket := True, projectsBucket := True)"
    and "b_Get B db' = b_Get B db"
proof -
  have made: "b_Bucket B db2 = (b_Bucket B d)(bk := True) \<and> b_Get B db2 = b_Get B d"
    if "b_CreateBucketIfNotExists B d bk = Inr db2" for d bk db2
    using assms(1) that unfolding bolt_laws_def by blast
  from assms(2) show "b_Bucket B db' = (b_Bucket B db)(usersBucket := True, objectsBucket := True, projectsBucket := True)"
    "b_Get B db' = b_Get B db"
    by (auto simp: create_buckets_def dest!: made split: sum.splits)
qed

lemma NewMetaStore_kept:
  assumes laws: "bolt_laws (be_Bolt env)" and usable: "bolt_file_ok (be_Bolt env) db0"
    and new: "NewMetaStore (be_Bolt env) (Inr db0) = Ok db"
  shows "bolt_inv env db" and "bolt_objs env db = bolt_objs env db0"
proof -
  let ?B = "be_Bolt env"
  have db: "db = db0 \<and> (\<nexists>db1. create_buckets ?B db0 = Inr db1 \<and> b_Commit ?B db1 = None) \<or> create_buckets ?B db0 = Inr db"
    using new by (auto simp: NewMetaStore_def db_Update_def split: sum.splits option.splits)
  then have get: "b_Get ?B db = b_Get ?B db0" using create_buckets_effect(2) [OF laws] by auto
  have "b_Bucket ?B db objectsBucket"
    using db usable create_buckets_effect(1) [OF laws, of db0 db] by (auto simp: bolt_file_ok_def)
  with get laws usable show "bolt_inv env db" by (simp add: bolt_inv_def bolt_file_ok_def)
  from get show "bolt_objs env db = bolt_objs env db0" by (intro bolt_objs_frame) simp
qed

lemma NewMetaStore_inv:
  assumes "bolt_laws (be_Bolt env)" and "create_buckets (be_Bolt env) db0 = Inr db1"
    and "b_Commit (be_Bolt env) db1 = None" and "b_Get (be_Bolt env) db0 objectsBucket = Map.empty"
    and "NewMetaStore (be_Bolt env) (Inr db0) = Ok db"
  shows "bolt_inv env db" and "bolt_objs env db = Map.empty"
proof -
  have usable: "bolt_file_ok (be_Bolt env) db0" using assms(2-4) by (simp add: bolt_file_ok_def)
  show "bolt_inv env db" by (rule NewMetaStore_kept(1) [OF assms(1) usable assms(5)])
  show "bolt_objs env db = Map.empty"
    using NewMetaStore_kept(2) [OF assms(1) usable assms(5)] assms(4) by (intro ext) (simp add: bolt_objs_def)
qed

text \<open>
  C1: a server from its first start.  \<^verbatim>\<open>main\<close> opens a Bolt file without objects and creates the
  content directory on an empty disk; then it serves any requests, in any order.  At every
  moment each content on the disk hashes to its OID, and the database has the object it
  belongs to, announced with just this OID and this length.
\<close>

theorem fresh_server_sound:
  assumes "Main env cfg args = Serves ln (BoltMeta s) (FileContent c)"
    and "bolt_laws (se_Bolt env)" and "be_Bolt benv = se_Bolt env"
    and "se_OpenBolt env (MetaDB cfg) = Inr db0" and "b_Get (se_Bolt env) db0 objectsBucket = Map.empty"
    and "create_buckets (se_Bolt env) db0 = Inr db1" and "b_Commit (se_Bolt env) db1 = None"
    and "se_Fs env = empty_fs"
    and "served (bolt_file_app benv (ContentPath cfg) js) mg mux (s, c) rs (s', c')" and "mux_law mux"
    and "held_content (ContentPath cfg) c' oid = Some b"
  shows "oid_of b = oid \<and> (\<exists>m. bolt_objs benv s' oid = Some m \<and> mo_Oid m = oid \<and> mo_Size m = int64_len b)"
proof -
  have ms: "FindMetaStore env cfg = Ok (BoltMeta s)" and cs: "findContentStore env cfg = Ok (FileContent c)"
    using Main_Serves [OF assms(1)] by blast+
  have "NewMetaStore (se_Bolt env) (Inr db0) = Ok s"
    using ms assms(4) by (auto simp: FindMetaStore_def map_outcome_Ok split: if_splits)
  then have s: "bolt_inv benv s"
    using NewMetaStore_inv(1) [of benv db0 db1 s] assms(2,3,5-7) by simp
  have "NewContentStore empty_fs (ContentPath cfg) = (c, Ok ())"
    using cs assms(8) by (auto simp: findContentStore_def file_content_def map_outcome_Ok prod_eq_iff
        split: if_splits prod.splits)
  note c = NewContentStore_ok [OF this]
  have start: "announced (bolt_objs benv) (held_content (ContentPath cfg)) (s, c)"
    using c(2) by (simp add: announced_def)
  have good: "good_step (bolt_inv benv) (bolt_objs benv) (store_ok (ContentPath cfg)) (held_content (ContentPath cfg)) (s, c) (s', c')"
    using lfs.served_good [OF assms(9,10)] s c(1) by simp
  from good_stepD(4) [OF good start] assms(11) obtain m where
    "bolt_objs benv s' oid = Some m" "matches_meta m b" by (auto simp: announced_def)
  moreover from this have "mo_Oid m = oid"
    using good_stepD(1) [OF good] bolt.entry_oid [of benv s' oid m] by simp
  ultimately show ?thesis by (simp add: matches_meta_def)
qed

lemma test_find_routes:
  "find_route test_mux test_post = Some (Post, test_vars(''oid'' := None))"
  "find_route test_mux test_put = Some (PutContent, test_vars)"
proof -
  have "SplitByte CHR '';'' contentMediaType = [contentMediaType]"
    "SplitByte CHR '';'' metaMediaType = [metaMediaType]"
    by (simp_all add: contentMediaType_def metaMediaType_def)
  then have acc: "accepted_type (test_request m p contentMediaType b) = contentMediaType"
    "accepted_type (test_request m p metaMediaType b) = metaMediaType" for m p b
    by (simp_all add: accepted_type_def test_request_def header_Get_def)
  have rq: "rq_Method (test_request m p a b) = m" "rq_Path (test_request m p a b) = p" for m p a b
    by (simp_all add: test_request_def)
  note defs = find_route_def route_matches_def api_routes_def object_route_def test_mux_def
    MetaMatcher_def ContentMatcher_def acc rq
  show "find_route test_mux test_post = Some (Post, test_vars(''oid'' := None))"
    by (simp add: test_post_def defs)
  show "find_route test_mux test_put = Some (PutContent, test_vars)"
    by (simp add: test_put_def defs)
qed

text \<open>An interleaving, on any stores: the test upload arrives while its announcement is under way.\<close>

lemma test_interleaving:
  obtains s where "(busy_step a test_mux)\<^sup>*\<^sup>* (idle st) s"
    "bs_Calls s 2 = Some (new_request PutContent test_vars test_put)"
proof -
  let ?s0 = "idle st"
  let ?post = "new_request Post (test_vars(''oid'' := None)) test_post" and ?put = "new_request PutContent test_vars test_put"
  define s1 where "s1 = ?s0\<lparr>bs_Calls := (bs_Calls ?s0)(1 \<mapsto> ?post)\<rparr>"
  obtain st' p where call: "handler_call a (rc_Vars ?post) (rc_Request ?post) (rc_Phase ?post) (bs_State s1) = (st', p)"
    by fastforce
  define s2 where "s2 = \<lparr>bs_State = st', bs_Calls = (bs_Calls s1)(1 \<mapsto> ?post\<lparr>rc_Phase := p\<rparr>)\<rparr>"
  define s3 where "s3 = s2\<lparr>bs_Calls := (bs_Calls s2)(2 \<mapsto> ?put)\<rparr>"
  have "busy_step a test_mux ?s0 s1"
    unfolding s1_def by (rule busy_step.arrive) (simp_all add: idle_def test_find_routes)
  moreover have "busy_step a test_mux s1 s2"
    unfolding s2_def by (rule busy_step.proceed [OF _ call]) (simp add: s1_def)
  moreover have "busy_step a test_mux s2 s3"
    unfolding s3_def by (rule busy_step.arrive) (simp_all add: s2_def s1_def idle_def test_find_routes)
  ultimately have "(busy_step a test_mux)\<^sup>*\<^sup>* ?s0 s3"
    by (rule converse_rtranclp_into_rtranclp [OF _ converse_rtranclp_into_rtranclp [OF _ r_into_rtranclp]])
  then show thesis by (rule that) (simp add: s3_def)
qed

text \<open>A run on Bolt and files: the test object is announced and uploaded.\<close>

lemma test_upload_run:
  obtains s1 c2 where "served (bolt_file_app (mem_env True) test_base test_json) test_mgmt test_mux
      (mem_fresh, test_fs) [test_post, test_put] (s1, c2)"
    "held_content test_base c2 test_oid = Some test_content"
proof -
  let ?a = "bolt_file_app (mem_env True) test_base test_json"
  obtain s1 w1 c2 where post: "PostHandler ?a (mem_fresh, test_fs) (test_vars(''oid'' := None)) test_post =
      ((s1, test_fs), Reply w1)" "final_status w1 = 202"
    and put: "PutHandler ?a (s1, test_fs) test_vars test_put = ((s1, c2), Reply fresh_writer)"
    and held: "held_content test_base c2 = (held_content test_base test_fs)(oid_of test_content \<mapsto> test_content)"
    by (rule announced_upload [OF mem_fresh_inv test_store_ok mem_authenticate mem_authenticate
          test_requests(1) _ test_decode _ _ _ test_can_put test_requests(2) test_content_facts(1) test_requests(4)
          test_tmp_free])
      (simp_all add: test_json_def oid_of_test test_content_facts test_new)
  have "serve ?a test_mgmt test_mux (mem_fresh, test_fs) test_post = ((s1, test_fs), Reply w1)"
    "serve ?a test_mgmt test_mux (s1, test_fs) test_put = ((s1, c2), Reply fresh_writer)"
    by (simp_all add: serve_def ServeHTTP_def test_find_routes post(1) put)
  from served.request [OF served.request [OF served.start this(1)] this(2)]
  have "served ?a test_mgmt test_mux (mem_fresh, test_fs) [test_post, test_put] (s1, c2)" by simp
  moreover have "held_content test_base c2 test_oid = Some test_content" unfolding held oid_of_test by simp
  ultimately show thesis by (rule that)
qed

lemma fresh_server_sound_witness:
  "\<exists>s' c' m. served (test_app True) test_mgmt test_mux (mem_fresh, test_fs) [test_post, test_put] (s', c') \<and>
     bolt_objs (mem_env True) s' test_oid = Some m \<and> mo_Size m = 18"
proof -
  obtain s1 c2 where run: "served (bolt_file_app (mem_env True) test_base test_json) test_mgmt test_mux
      (mem_fresh, test_fs) [test_post, test_put] (s1, c2)"
    and held: "held_content test_base c2 test_oid = Some test_content" by (rule test_upload_run)
  have start: "Main test_start test_config [] = Serves (Tracked 7) (BoltMeta mem_fresh) (FileContent test_fs)"
    by (rule test_main)
  have base: "ContentPath test_config = test_base" by (simp add: test_config_def)
  have env: "se_Bolt test_start = mem_bolt" "be_Bolt (mem_env True) = se_Bolt test_start"
    "se_OpenBolt test_start (MetaDB test_config) = Inr blank_db" "se_Fs test_start = empty_fs"
    by (simp_all add: test_start_def)
  have laws: "bolt_laws (se_Bolt test_start)" using mem_bolt_laws env(1) by simp
  have none: "b_Get (se_Bolt test_start) blank_db objectsBucket = Map.empty"
    by (simp add: env(1) mem_bolt_def blank_db_def fun_eq_iff)
  obtain db1 where made: "create_buckets (se_Bolt test_start) blank_db = Inr db1"
    and commit: "b_Commit (se_Bolt test_start) db1 = None"
    by (simp add: env(1) mem_bolt_def create_buckets_def)
  have "held_content (ContentPath test_config) c2 test_oid = Some test_content" using held base by simp
  from fresh_server_sound [OF start laws env(2,3) none made commit env(4) run [folded base] test_mux_law this]
  obtain m where "bolt_objs (mem_env True) s1 test_oid = Some m" "mo_Size m = 18"
    by (auto simp: test_content_facts)
  with run show ?thesis unfolding test_app_def by blast
qed

text \<open>
  C9: nothing appears out of nowhere.  Whatever requests a server on Bolt and files serves, every
  content then on disk was there at the start, or it is the body of one of the \<^verbatim>\<open>PUT\<close>s that
  were served and lies under its hash; and every object that is then known was known at the
  start, or a \<^verbatim>\<open>POST\<close> was served.
\<close>

theorem contents_come_from_uploads:
  assumes "served (bolt_file_app env base js) mg mux st rs st'" and "mux_law mux"
    and "bolt_inv env (fst st)" and "store_ok base (snd st)"
  shows "(\<forall>oid b. held_content base (snd st') oid = Some b \<longrightarrow>
      held_content base (snd st) oid = Some b \<or>
      (\<exists>r \<in> set rs. rq_Method r = ''PUT'' \<and> fst (rq_Body r) = b \<and> oid_of b = oid)) \<and>
    (\<forall>oid. bolt_objs env (fst st') oid \<noteq> None \<longrightarrow>
      bolt_objs env (fst st) oid \<noteq> None \<or> (\<exists>r \<in> set rs. rq_Method r = ''POST''))"
proof -
  let ?abs = "lfs_abs (authenticate env) (bolt_objs env) (held_content base)"
  obtain ess where run: "lfs_run (concat ess) (?abs st) = Some (?abs st')"
    and by_request: "list_all2 (\<lambda>r. list_all (caused (be_Config env) r)) rs ess"
    using lfs.served_spec [OF assms] by auto
  note origin = lfs_run_origin [OF run]
  have from_request: "\<exists>r \<in> set rs. caused (be_Config env) r e" if "e \<in> set (concat ess)" for e
    using that by_request by (fastforce simp: list_all2_conv_all_nth in_set_conv_nth list_all_iff)
  show ?thesis
  proof (intro conjI allI impI)
    show "held_content base (snd st) oid = Some b \<or>
        (\<exists>r \<in> set rs. rq_Method r = ''PUT'' \<and> fst (rq_Body r) = b \<and> oid_of b = oid)"
      if "held_content base (snd st') oid = Some b" for oid b
      using origin(1) [of oid b] from_request that by (fastforce simp: lfs_abs_def)
    show "bolt_objs env (fst st) oid \<noteq> None \<or> (\<exists>r \<in> set rs. rq_Method r = ''POST'')"
      if "bolt_objs env (fst st') oid \<noteq> None" for oid
      using origin(2) [of oid] from_request that by (fastforce simp: lfs_abs_def)
  qed
qed

lemma contents_come_from_uploads_witness:
  "\<exists>s' c' r. served (test_app True) test_mgmt test_mux (mem_fresh, test_fs) [test_post, test_put] (s', c') \<and>
     held_content test_base c' test_oid = Some test_content \<and> r \<in> {test_post, test_put} \<and>
     rq_Method r = ''PUT'' \<and> fst (rq_Body r) = test_content"
proof -
  obtain s1 c2 where run: "served (bolt_file_app (mem_env True) test_base test_json) test_mgmt test_mux
      (mem_fresh, test_fs) [test_post, test_put] (s1, c2)"
    and held: "held_content test_base c2 test_oid = Some test_content" by (rule test_upload_run)
  have "held_content test_base test_fs test_oid \<noteq> Some test_content" by (simp add: test_empty)
  with contents_come_from_uploads [OF run test_mux_law] held
  obtain r where "r \<in> {test_post, test_put}" "rq_Method r = ''PUT''" "fst (rq_Body r) = test_content"
    using mem_fresh_inv test_store_ok by fastforce
  then show ?thesis using run held unfolding test_app_def by blast
qed

section \<open>Cassandra and S3\<close>

definition cassandra_s3_app ::
  "('db, 'c) cass_env \<Rightarrow> 'b s3_api \<Rightarrow> acl \<Rightarrow> (reader \<Rightarrow> json option) \<Rightarrow> ('db, 'b) App" where
  "cassandra_s3_app env S l js =
     \<lparr>app_Config = ce_Config env, app_contentStore = aws_store S l, app_metaStore = cassandra_store env,
      app_json = js\<rparr>"

lemma cassandra_s3_app_simps [simp]:
  "app_Config (cassandra_s3_app env S l js) = ce_Config env"
  "app_contentStore (cassandra_s3_app env S l js) = aws_store S l"
  "app_metaStore (cassandra_s3_app env S l js) = cassandra_store env"
  "app_json (cassandra_s3_app env S l js) = js"
  by (simp_all add: cassandra_s3_app_def)

interpretation cloud: mgmt_app "cassandra_s3_app env S l js" "\<lambda>db. cql_steady (ce_Cql env)" "cass_authenticate env"
  "cass_objs env" "\<lambda>b. s3_laws S" "aws_held S" for env S l js
  unfolding mgmt_app_def mgmt_core_def lfs_app_def lfs_core_def cassandra_s3_app_simps
  using cassandra.ledger_store_axioms cassandra.meta_store_axioms aws.content_store_axioms
    cassandra.managed_ledger_axioms by blast

text \<open>
  The other deployment refines the same specification as long as every query by key is answered,
  whatever else Cassandra and S3 do in between that their documented behaviour allows, failed
  inserts and partial writes included: what any requests, in any order, make of the credentials, of the table of OIDs and of
  the bucket is a run of the specification, each event caused by its request.
\<close>

theorem cloud_refines_spec:
  assumes "served (cassandra_s3_app env S l js) mg mux (s, b) rs (s', b')" and "mux_law mux"
    and "cql_laws (ce_Cql env) T" and "cql_answered (ce_Cql env)" and "s3_laws S"
  shows "\<exists>ess. lfs_run (concat ess) (lfs_abs (cass_authenticate env) (cass_objs env) (aws_held S) (s, b)) =
      Some (lfs_abs (cass_authenticate env) (cass_objs env) (aws_held S) (s', b')) \<and>
    list_all2 (\<lambda>r. list_all (caused (ce_Config env) r)) rs ess"
  using cloud.served_spec [OF assms(1,2)] cql_steady_if_answered [OF assms(3,4)] assms(5) by simp

lemma cloud_refines_spec_witness:
  "\<exists>mg s' b' es. served (cassandra_s3_app (mem_cass_env True) mem_s3 Private test_json) mg test_mux
       (mem_cass_start, Map.empty) [test_post] (s', b') \<and>
     lfs_run es (lfs_abs (cass_authenticate (mem_cass_env True)) (cass_objs (mem_cass_env True)) (aws_held mem_s3)
         (mem_cass_start, Map.empty)) =
       Some (lfs_abs (cass_authenticate (mem_cass_env True)) (cass_objs (mem_cass_env True)) (aws_held mem_s3) (s', b'))"
proof -
  let ?a = "cassandra_s3_app (mem_cass_env True) mem_s3 Private test_json"
  fix mg
  obtain s' b' rep where "serve ?a mg test_mux (mem_cass_start, Map.empty) test_post = ((s', b'), rep)"
    by (metis prod.exhaust)
  from served.request [OF served.start this]
  have run: "served ?a mg test_mux (mem_cass_start, Map.empty) [test_post] (s', b')" by simp
  have "cql_laws (ce_Cql (mem_cass_env True)) mem_tables" "cql_answered (ce_Cql (mem_cass_env True))"
    using mem_cql_laws mem_cql_answered by simp_all
  from cloud_refines_spec [OF run test_mux_law this mem_s3_laws] run show ?thesis by blast
qed

text \<open>
  As long as every query by key is answered the other deployment keeps the same promise, whatever
  else Cassandra and S3 do in between, failed inserts and partial writes included: no
  object is lost or altered, no content is lost, contents go on hashing to their OIDs and
  going back to an announcement, through any requests in any order.
\<close>

theorem cloud_served_sound:
  assumes "served (cassandra_s3_app env S l js) mg mux (s, b) rs (s', b')" and "mux_law mux"
    and "cql_laws (ce_Cql env) T" and "cql_answered (ce_Cql env)" and "s3_laws S"
  shows "(\<forall>oid m. cass_objs env s oid = Some m \<longrightarrow> cass_objs env s' oid = Some m) \<and>
    (\<forall>oid. aws_held S b oid \<noteq> None \<longrightarrow> aws_held S b' oid \<noteq> None) \<and>
    (aws_held S b = Map.empty \<longrightarrow>
       (\<forall>oid x. aws_held S b' oid = Some x \<longrightarrow> oid_of x = oid \<and>
          (\<exists>m. cass_objs env s' oid = Some m \<and> mo_Oid m = oid \<and> mo_Size m = int64_len x)))"
proof -
  have good: "good_step (\<lambda>db. cql_steady (ce_Cql env)) (cass_objs env) (\<lambda>b. s3_laws S) (aws_held S) (s, b) (s', b')"
    using cloud.served_good [OF assms(1,2)] cql_steady_if_answered [OF assms(3,4)] assms(5) by simp
  note d = good_stepD [OF good]
  have "oid_of x = oid \<and> (\<exists>m. cass_objs env s' oid = Some m \<and> mo_Oid m = oid \<and> mo_Size m = int64_len x)"
    if "aws_held S b = Map.empty" and x: "aws_held S b' oid = Some x" for oid x
  proof -
    have "announced (cass_objs env) (aws_held S) (s', b')"
      using d(4) that(1) by (simp add: announced_def)
    with x obtain m where m: "cass_objs env s' oid = Some m" "matches_meta m x" by (auto simp: announced_def)
    then have "mo_Oid m = oid" using cassandra.entry_oid [of env s' oid m] cql_steady_if_answered [OF assms(3,4)] by simp
    with m show ?thesis by (auto simp: matches_meta_def)
  qed
  then show ?thesis using d(5,6) by simp
qed

lemma cloud_served_sound_witness:
  "\<exists>mg s' b'. served (cassandra_s3_app (mem_cass_env True) mem_s3 Private test_json) mg test_mux
       (mem_cass_start, Map.empty) [test_post] (s', b') \<and>
     (\<forall>oid. cass_objs (mem_cass_env True) mem_cass_start oid = None \<or>
        cass_objs (mem_cass_env True) s' oid = cass_objs (mem_cass_env True) mem_cass_start oid)"
proof -
  let ?a = "cassandra_s3_app (mem_cass_env True) mem_s3 Private test_json"
  fix mg
  obtain s' b' rep where "serve ?a mg test_mux (mem_cass_start, Map.empty) test_post = ((s', b'), rep)"
    by (metis prod.exhaust)
  from served.request [OF served.start this]
  have run: "served ?a mg test_mux (mem_cass_start, Map.empty) [test_post] (s', b')" by simp
  have "cql_laws (ce_Cql (mem_cass_env True)) mem_tables" "cql_answered (ce_Cql (mem_cass_env True))"
    using mem_cql_laws mem_cql_answered by simp_all
  from cloud_served_sound [OF run test_mux_law this mem_s3_laws] run show ?thesis
    by (metis option.exhaust)
qed

text \<open>The table when a new OID has been stored and its project noted.\<close>

lemma cql_laws_insert:
  assumes "cql_laws Q T" and "cass_createOid Q db oid sz = (db', None)"
  shows "ct_oids T db' = (ct_oids T db)(oid \<mapsto> sz)"
  using assms unfolding cql_laws_def cass_createOid_def by blast

lemma cql_laws_project:
  "cql_laws Q T \<Longrightarrow> on_projects q \<Longrightarrow> cq_Exec Q db q vs = (db', err) \<Longrightarrow> ct_oids T db' = ct_oids T db"
  unfolding cql_laws_def by blast

lemma cass_put_project_oids:
  assumes laws: "cql_laws Q T" and put: "cass_put_project Q db v = (db', r)"
  shows "ct_oids T db' = ct_oids T db"
proof (cases "rv_Repo v = []")
  case False
  obtain db1 created where c: "(case cass_findProject Q db (rv_Repo v) of
      Err _ \<Rightarrow> (case cass_createProject Q db (rv_Repo v) of
          (db', Err e) \<Rightarrow> (db', perror (Some e))
        | r \<Rightarrow> r)
    | _ \<Rightarrow> (db, Ok ())) = (db1, created)" by fastforce
  have "ct_oids T d = ct_oids T db" if "cass_createProject Q db p = (d, x)" for p d x
    using that cql_laws_project [OF laws on_projects_statements(1), of db "[Text p]"]
    by (auto simp: cass_createProject_def split: option.splits cql_value.splits if_splits prod.splits)
  then have 1: "ct_oids T db1 = ct_oids T db" using c by (auto split: outcome.splits prod.splits)
  obtain db2 err where x: "cq_Exec Q db1 (cql_add_oid (rv_Oid v) (rv_Repo v)) [] = (db2, err)" by fastforce
  have "(case created of
      Ok _ \<Rightarrow> apsnd perror (cass_addOidToProject Q db1 (rv_Oid v) (rv_Repo v)) | r \<Rightarrow> (db1, r)) = (db', r)"
    using put False c by (simp add: cass_put_project_def)
  with 1 cql_laws_project [OF laws on_projects_statements(2) x] x show ?thesis
    by (cases created) (auto simp: cass_addOidToProject_def)
qed (use put in \<open>auto simp: cass_put_project_def\<close>)

text \<open>
  C13: on Cassandra a query that fails once makes the server forget a size for good.  The error
  of the query for an OID is dropped and a failed query taken for a missing row.  So while the
  row is there and the query for it fails, a download of the object is answered 404; and an
  announcement of the object, if the statements that follow succeed, is answered 202 as if the
  object were new, with the upload link alone, and its size in the table is overwritten by the
  announced one.  No content has changed, and no failure is reported to the client.
\<close>

theorem cassandra_failed_read_overwrites_size:
  assumes laws: "cql_laws (ce_Cql env) T"
    and auth: "cass_authenticate env db (header_Get r ''Authorization'') = Ok True"
    and rv: "rv = unpack (cassandra_s3_app env S l js) vars r"
    and known: "ct_oids T db (rv_Oid rv) = Some old"
    and failed: "cq_Iter (ce_Cql env) db cql_select_oid [Text (rv_Oid rv)] = None"
    and written: "cass_createOid (ce_Cql env) db (rv_Oid rv) (rv_Size rv) = (db1, None)"
      "cass_put_project (ce_Cql env) db1 rv = (db2, Ok ())"
  shows "(\<exists>w. PostHandler (cassandra_s3_app env S l js) (db, b) vars r = ((db2, b), Reply w) \<and>
      final_status w = 202 \<and>
      w_Body w = [Json (encode_representation (Represent (ce_Config env) rv (cass_new_object rv) False True))]) \<and>
    ct_oids T db2 = (ct_oids T db)(rv_Oid rv \<mapsto> rv_Size rv) \<and>
    (ct_oids T db2 = ct_oids T db \<longleftrightarrow> rv_Size rv = old) \<and>
    (\<forall>vars' r'. rv_Oid (unpack (cassandra_s3_app env S l js) vars' r') = rv_Oid rv \<longrightarrow>
       cass_authenticate env db (header_Get r' ''Authorization'') = Ok True \<longrightarrow>
       GetContentHandler (cassandra_s3_app env S l js) (db, b) vars' r' =
         ((db, b), Reply (writeStatus fresh_writer r' 404)))"
proof -
  let ?a = "cassandra_s3_app env S l js"
  have find: "cass_findOid (ce_Cql env) db (rv_Oid rv) = Err ErrObjectNotFound"
    using failed by (simp add: cass_findOid_def first_row_def text_of_def)
  have au: "cass_authenticate env db (rv_Authorization rv) = Ok True" using auth rv by simp
  have "cass_Put env db rv = (db2, Ok (cass_new_object rv))"
    using au find written by (simp add: cass_Put_def cass_Get_def)
  then have "\<exists>w. PostHandler ?a (db, b) vars r = ((db2, b), Reply w) \<and> final_status w = 202 \<and>
      w_Body w = [Json (encode_representation (Represent (ce_Config env) rv (cass_new_object rv) False True))]"
    using rv by (simp add: PostHandler_def Let_def cass_new_object_def http_simps)
  moreover have stored: "ct_oids T db2 = (ct_oids T db)(rv_Oid rv \<mapsto> rv_Size rv)"
    using cql_laws_insert [OF laws written(1)] cass_put_project_oids [OF laws written(2)] by simp
  moreover have "ct_oids T db2 = ct_oids T db \<longleftrightarrow> rv_Size rv = old"
    unfolding stored using known by (auto simp: fun_upd_idem dest: fun_cong [of _ _ "rv_Oid rv"])
  moreover have "GetContentHandler ?a (db, b) vars' r' = ((db, b), Reply (writeStatus fresh_writer r' 404))"
    if "rv_Oid (unpack ?a vars' r') = rv_Oid rv" "cass_authenticate env db (header_Get r' ''Authorization'') = Ok True"
    for vars' r'
    using that find by (simp add: GetContentHandler_def cass_Get_def meta_error_def)
  ultimately show ?thesis by blast
qed

text \<open>The test object is on record with another size, and the cluster does not answer for a moment.\<close>

lemma cassandra_failed_read_overwrites_size_witness:
  "\<exists>db w. ct_oids mem_tables (mem_cass_start\<lparr>mc_oids := fmupd test_oid 7 fmempty\<rparr>) test_oid = Some 7 \<and>
     PostHandler (cassandra_s3_app ((mem_cass_env True)\<lparr>ce_Cql := flaky_cql\<rparr>) mem_s3 Private test_json)
       (mem_cass_start\<lparr>mc_oids := fmupd test_oid 7 fmempty\<rparr>, Map.empty) Map.empty test_post =
       ((db, Map.empty), Reply w) \<and>
     final_status w = 202 \<and> ct_oids mem_tables db test_oid = Some 18"
proof -
  let ?env = "(mem_cass_env True)\<lparr>ce_Cql := flaky_cql\<rparr>" and ?db = "mem_cass_start\<lparr>mc_oids := fmupd test_oid 7 fmempty\<rparr>"
  let ?a = "cassandra_s3_app ?env mem_s3 Private test_json"
  let ?rv = "unpack ?a Map.empty test_post" and ?db1 = "mem_cass_start\<lparr>mc_oids := fmupd test_oid 18 fmempty\<rparr>"
  have rv: "rv_Oid ?rv = test_oid" "rv_Size ?rv = 18"
    using unpack_post [of test_post ?a _ _ Map.empty] test_decode by (simp_all add: test_json_def)
  have repo: "rv_Repo ?rv = []"
    by (simp add: unpack_def Let_def zero_vars_def var_def split: option.splits prod.splits)
  have oid: "test_oid \<noteq> []" using test_valid by (auto simp: valid_oid_def test_meta_def)
  have env: "ce_Cql ?env = flaky_cql" by simp
  have auth: "cass_authenticate ?env ?db (header_Get test_post ''Authorization'') = Ok True"
    by (simp add: cass_authenticate_def mem_cass_env_def default_configuration_def IsPublic_def)
  have known: "ct_oids mem_tables ?db test_oid = Some 7" by (simp add: mem_tables_def)
  have failed: "cq_Iter (ce_Cql ?env) ?db cql_select_oid [Text (rv_Oid ?rv)] = None"
    by (simp add: flaky_cql_def mem_cass_start_def)
  have "cass_createOid flaky_cql ?db test_oid 18 = (?db1, None)"
    using oid by (simp add: cass_createOid_def flaky_cql_def mem_cql_def mem_cass_start_def)
  then have c: "cass_createOid (ce_Cql ?env) ?db (rv_Oid ?rv) (rv_Size ?rv) = (?db1, None)" using rv by simp
  have p: "cass_put_project (ce_Cql ?env) ?db1 ?rv = (?db1, Ok ())" using repo by (simp add: cass_put_project_def)
  have laws: "cql_laws (ce_Cql ?env) mem_tables" using flaky_cql_laws by simp
  have known': "ct_oids mem_tables ?db (rv_Oid ?rv) = Some 7" using known rv by simp
  from cassandra_failed_read_overwrites_size [OF laws auth refl known' failed c p, of Map.empty]
  show ?thesis using known rv by auto
qed

end
