(* ===== verification/Lfs_Concurrent.thy ===== *)
theory Lfs_Concurrent
  imports Lfs_Deployments Put_Race
begin

text \<open>
  The server on Bolt and files while it handles many requests at once, call by call.
\<close>

text \<open>
  A handler made call by call does, alone, what the handler does: after at most two calls,
  or two for each object of a batch and two more, it has answered, with the same stores and
  the same reply.
\<close>

theorem handler_calls_refine_handlers:
  "handler_run a vars r (calls_left a vars r (Asking e) + n) (Asking e) st = apsnd Answered (handler_of e a st vars r)"
  by (simp add: handler_run_finishes del: calls_left.simps)

text \<open>
  On Bolt and files, where each OID has its own entry: an upload that was answered with 200 has
  just its OID in the content store from then on.
\<close>

theorem interleaved_requests_refine_spec:
  assumes "(busy_step (bolt_file_app env base js) mux)\<^sup>*\<^sup>* (idle st) s" and "mux_law mux"
    and "bolt_inv env (fst st)" and "store_ok base (snd st)"
  shows "(\<exists>es. lfs_run es (lfs_abs (authenticate env) (bolt_objs env) (held_content base) st) =
        Some (lfs_abs (authenticate env) (bolt_objs env) (held_content base) (bs_State s)) \<and>
      (\<forall>e \<in> set es. \<exists>k q. bs_Calls s k = Some q \<and> caused (be_Config env) (rc_Request q) e)) \<and>
    (\<forall>k q w. bs_Calls s k = Some q \<longrightarrow> rc_Phase q = Answered (Reply w) \<longrightarrow>
       rq_Method (rc_Request q) = ''PUT'' \<longrightarrow> final_status w = 200 \<longrightarrow>
       held_content base (snd (bs_State s)) (rv_Oid (unpack (bolt_file_app env base js) (rc_Vars q) (rc_Request q))) \<noteq> None)"
proof -
  note run = lfs.busy_run [OF assms]
  then have "reaches (\<lambda>e. \<exists>k q. bs_Calls s k = Some q \<and> caused (be_Config env) (rc_Request q) e)
      (lfs_abs (authenticate env) (bolt_objs env) (held_content base) st)
      (lfs_abs (authenticate env) (bolt_objs env) (held_content base) (bs_State s))"
    by (simp add: call_effect_def)
  moreover have "held_content base (snd (bs_State s)) (rv_Oid (unpack (bolt_file_app env base js) (rc_Vars q) (rc_Request q))) \<noteq> None"
    if "bs_Calls s k = Some q" "rc_Phase q = Answered (Reply w)" "rq_Method (rc_Request q) = ''PUT''"
      "final_status w = 200" for k q w
    using conjunct2 [OF run] that by fastforce
  ultimately show ?thesis unfolding reaches_def list_all_iff by blast
qed

text \<open>For the witnesses: an upload that arrives while its announcement is under way.\<close>

lemma interleaved_requests_refine_spec_witness:
  "\<exists>s es. (busy_step (test_app True) test_mux)\<^sup>*\<^sup>* (idle (mem_fresh, test_fs)) s \<and>
     bs_Calls s 2 = Some (new_request PutContent test_vars test_put) \<and>
     lfs_run es (lfs_abs (authenticate (mem_env True)) (bolt_objs (mem_env True)) (held_content test_base)
         (mem_fresh, test_fs)) =
       Some (lfs_abs (authenticate (mem_env True)) (bolt_objs (mem_env True)) (held_content test_base) (bs_State s))"
proof -
  obtain s where run: "(busy_step (test_app True) test_mux)\<^sup>*\<^sup>* (idle (mem_fresh, test_fs)) s"
    and put: "bs_Calls s 2 = Some (new_request PutContent test_vars test_put)"
    by (rule test_interleaving)
  from interleaved_requests_refine_spec [OF run [unfolded test_app_def] test_mux_law]
  obtain es where "lfs_run es (lfs_abs (authenticate (mem_env True)) (bolt_objs (mem_env True)) (held_content test_base)
      (mem_fresh, test_fs)) =
    Some (lfs_abs (authenticate (mem_env True)) (bolt_objs (mem_env True)) (held_content test_base) (bs_State s))"
    using mem_fresh_inv test_store_ok by auto
  with run put show ?thesis by blast
qed

text \<open>
  The accounts are another matter.  \<^verbatim>\<open>PutHandler\<close> asks for the credentials once, with the metadata;
  an upload that has got so far is stored and answered with 200 whatever the administrator
  does to the account meanwhile, here \<open>s'\<close>.
\<close>

lemma revoked_upload_lands:
  assumes "ms_Get (app_metaStore a) s (unpack a vars r) = Ok m"
    and "cs_Put (app_contentStore a) c m (rq_Body r) = (c', Ok ())"
  shows "handler_call a vars r (Asking PutContent) (s, c) = ((s, c), Uploading m)"
    and "handler_call a vars r (Uploading m) (s', c) = ((s', c'), Answered (Reply fresh_writer))"
  using assms by simp_all

text \<open>
  C15: announcements that race break what every run of whole requests keeps.  Two clients
  announce an unknown object at the same time, one with its length and one with another; the
  transactions of their \<^verbatim>\<open>Put\<close>s interleave, both are answered as the creator, and an upload that has
  fetched the metadata before the second insert is checked against the first size and stored.
  From then on the content on disk does not have the size that the database announces.
\<close>

theorem announcement_race_breaks_sizes:
  assumes iv: "bolt_inv env db" and oid: "rv_Oid rv1 = oid_of b" "rv_Oid rv2 = oid_of b"
    and size: "rv_Size rv1 = int64_len b" "rv_Size rv2 \<noteq> int64_len b"
    and new: "bolt_objs env db (oid_of b) = None" and repo: "rv_Repo rv1 = []" "rv_Repo rv2 = []"
    and auth: "authenticate env db (rv_Authorization rv1) = Ok True" "authenticate env db (rv_Authorization rv2) = Ok True"
    and store: "db_Update (be_Bolt env) db
        (store_value (be_Bolt env) objectsBucket (oid_of b) (Gob_MetaObject (new_object rv1))) = (db1, Ok ())"
      "db_Update (be_Bolt env) db1
        (store_value (be_Bolt env) objectsBucket (oid_of b) (Gob_MetaObject (new_object rv2))) = (db2, Ok ())"
    and files: "store_ok base c" "entry c (tmp_key base (oid_of b)) = None"
  shows "\<exists>s1 s2 c'. (race_step env)\<^sup>*\<^sup>* \<lparr>pr_db = db, pr_calls = Map.empty\<rparr> s1 \<and>
    bolt_objs env (pr_db s1) (oid_of b) = Some (new_object rv1) \<and> race_step env s1 s2 \<and>
    ContentStore_Put base c (new_object rv1) (b, None) = (c', Ok ()) \<and>
    held_content base c' (oid_of b) = Some b \<and>
    \<not> announced (bolt_objs env) (held_content base) (pr_db s2, c')"
proof -
  obtain s1 s2 where run: "(race_step env)\<^sup>*\<^sup>* \<lparr>pr_db = db, pr_calls = Map.empty\<rparr> s1" "race_step env s1 s2"
    and objs: "bolt_objs env (pr_db s1) (oid_of b) = Some (new_object rv1)"
      "bolt_objs env (pr_db s2) (oid_of b) = Some (new_object rv2)"
    using racing_puts_change_size [OF iv oid new auth repo store] by blast
  have meta: "mo_Oid (new_object rv1) = oid_of b" "matches_meta (new_object rv1) b"
    using oid(1) size(1) by (simp_all add: new_object_def matches_meta_def)
  have free: "entry c (tmp_key base (mo_Oid (new_object rv1))) = None" using files(2) meta(1) by simp
  obtain c' where put: "ContentStore_Put base c (new_object rv1) (b, None) = (c', Ok ())"
    by (rule Put_matching [OF files(1) meta(2) free])
  then have held: "held_content base c' (oid_of b) = Some b"
    using files.put_ok [OF files(1), of "new_object rv1" b None c'] meta(1) by simp
  have "\<not> matches_meta (new_object rv2) b" using size(2) by (simp add: new_object_def matches_meta_def)
  then have "\<not> announced (bolt_objs env) (held_content base) (pr_db s2, c')"
    using held objs(2) unfolding announced_def fst_conv snd_conv by (metis option.inject)
  with run objs(1) put held show ?thesis by blast
qed

lemma announcement_race_breaks_sizes_witness:
  "\<exists>s1 s2 c'. (race_step (mem_env True))\<^sup>*\<^sup>* \<lparr>pr_db = mem_fresh, pr_calls = Map.empty\<rparr> s1 \<and>
     race_step (mem_env True) s1 s2 \<and> held_content test_base c' test_oid = Some test_content \<and>
     \<not> announced (bolt_objs (mem_env True)) (held_content test_base) (pr_db s2, c')"
proof -
  let ?rv = "\<lambda>n. zero_vars\<lparr>rv_Oid := test_oid, rv_Size := n\<rparr>"
  have oid: "test_oid = oid_of test_content" "test_oid \<noteq> []"
    using oid_of_test test_valid by (auto simp: valid_oid_def test_meta_def)
  obtain d1 where d1: "db_Update mem_bolt mem_fresh (store_value mem_bolt objectsBucket test_oid (Gob_MetaObject (new_object (?rv 18)))) = (d1, Ok ())"
    "b_Bucket mem_bolt d1 objectsBucket"
    using mem_store_value [of mem_fresh objectsBucket test_oid "Gob_MetaObject (new_object (?rv 18))"] oid(2) by auto
  obtain d2 where d2: "db_Update mem_bolt d1 (store_value mem_bolt objectsBucket test_oid (Gob_MetaObject (new_object (?rv 9)))) = (d2, Ok ())"
    using mem_store_value [OF d1(2) oid(2), of "Gob_MetaObject (new_object (?rv 9))"] by auto
  have vars: "rv_Oid (?rv n) = test_oid" "rv_Size (?rv n) = n" "rv_Repo (?rv n) = []" for n
    by (simp_all add: zero_vars_def)
  have len: "int64_len test_content = 18" by (fact test_content_facts)
  show ?thesis
    using announcement_race_breaks_sizes [of "mem_env True" mem_fresh "?rv 18" test_content "?rv 9" d1 d2 test_base test_fs]
      mem_fresh_inv test_new [of True] mem_authenticate d1(1) d2 test_store_ok test_tmp_free
    unfolding vars len oid(1) [symmetric] mem_env_simps by auto
qed

end
