(* ===== verification/MySQL_Ledger.thy ===== *)
theory MySQL_Ledger
  imports MySQL_Store
begin

text \<open>
  What the MySQL store keeps in spite of everything.  It reports inserts that were refused, drops
  errors, and the database compares OIDs by a collation that may take two of them for one; yet
  the table of OIDs is a ledger: the contract \<open>ledger_store\<close> holds, whatever statements fail.
\<close>

section \<open>The statements\<close>

text \<open>
  The statements by what they say, under a strict SQL mode, where a value that does not fit is
  an error: \<open>tab db\<close> is the table \<open>oids\<close>, \<open>same k oid\<close> that the collation of its key
  takes \<open>k\<close> and \<open>oid\<close> for one.  A selected row is a row of the table whose key is taken for
  the one bound; an insert either fails, or adds its row, if no key is taken for its own, and the error
  may get lost, or come although the row was added; the other inserts are into other tables.
  Every statement may fail at any time.  A collation is an equivalence, and a separator is
  equal to nothing but itself.
\<close>

definition sql_laws ::
  "(bytes \<Rightarrow> bytes \<Rightarrow> bool) \<Rightarrow> ('db \<Rightarrow> bytes \<rightharpoonup> int64) \<Rightarrow> 'db sql_api \<Rightarrow> bool" where
  "sql_laws same tab M \<longleftrightarrow>
     equivp same \<and> (\<forall>k oid. same k oid \<longrightarrow> routable oid \<longrightarrow> routable k) \<and>
     (\<forall>db oid r rs. sq_Query M db sql_select_oid [SText oid] = Inr (r # rs) \<longrightarrow>
        (\<exists>k n. r = [SText k, SInt n] \<and> same k oid \<and> tab db k = Some n)) \<and>
     (\<forall>db oid n db' err. sq_Exec M db sql_insert_oid [SText oid, SInt n] = (db', err) \<longrightarrow>
        tab db' = tab db \<or> (\<forall>k. same k oid \<longrightarrow> tab db k = None) \<and> tab db' = (tab db)(oid \<mapsto> n)) \<and>
     (\<forall>db q vs db' err. sq_Exec M db q vs = (db', err) \<longrightarrow> q \<in> {sql_insert_map, sql_insert_project} \<longrightarrow>
        tab db' = tab db)"

lemma sql_laws_row:
  assumes "sql_laws same tab M" and "sq_Query M db sql_select_oid [SText oid] = Inr (r # rs)"
  obtains k n where "r = [SText k, SInt n]" "same k oid" "tab db k = Some n"
  using assms unfolding sql_laws_def by meson

lemma sql_laws_insert:
  assumes "sql_laws same tab M" and "sq_Exec M db sql_insert_oid [SText oid, SInt n] = (db', err)"
  shows "tab db' = tab db \<or> (\<forall>k. same k oid \<longrightarrow> tab db k = None) \<and> tab db' = (tab db)(oid \<mapsto> n)"
  using assms unfolding sql_laws_def by meson

lemma sql_laws_equiv: "sql_laws same tab M \<Longrightarrow> equivp same"
  by (simp add: sql_laws_def)

text \<open>
  The primary key: of the spellings that the collation takes for one, the table has a row for
  one at most.
\<close>

definition sql_key :: "(bytes \<Rightarrow> bytes \<Rightarrow> bool) \<Rightarrow> (bytes \<rightharpoonup> int64) \<Rightarrow> bool" where
  "sql_key same rows \<longleftrightarrow> (\<forall>k k'. same k k' \<longrightarrow> rows k \<noteq> None \<longrightarrow> rows k' \<noteq> None \<longrightarrow> k = k')"

lemma sql_key_insert:
  assumes "sql_key same rows" and "equivp same" and "\<forall>k. same k oid \<longrightarrow> rows k = None"
  shows "sql_key same (rows(oid \<mapsto> n))"
  using assms(1,3) equivp_symp [OF assms(2)] unfolding sql_key_def by (metis fun_upd_other)

definition sql_inv :: "(bytes \<Rightarrow> bytes \<Rightarrow> bool) \<Rightarrow> ('db \<Rightarrow> bytes \<rightharpoonup> int64) \<Rightarrow> 'db sql_api \<Rightarrow> 'db \<Rightarrow> bool" where
  "sql_inv same tab M db \<longleftrightarrow> sql_laws same tab M \<and> sql_key same (tab db)"

lemma sql_laws_other:
  assumes "sql_laws same tab M" and "sq_Exec M db q vs = (db', err)" and "q \<in> {sql_insert_map, sql_insert_project}"
  shows "tab db' = tab db"
  using assms unfolding sql_laws_def by meson

text \<open>The objects of the table.\<close>

definition sql_objs :: "('db \<Rightarrow> bytes \<rightharpoonup> int64) \<Rightarrow> 'db \<Rightarrow> bytes \<rightharpoonup> MetaObject" where
  "sql_objs tab db oid =
     map_option (\<lambda>n. \<lparr>mo_Oid = oid, mo_Size = n, mo_ProjectNames = [], mo_Existing = False\<rparr>) (tab db oid)"

lemma sql_objs_same: "tab db' = tab db \<Longrightarrow> sql_objs tab db' = sql_objs tab db"
  by (intro ext) (simp add: sql_objs_def)

section \<open>The operations\<close>

lemma my_findOid_row:
  assumes "sql_laws same tab M" and "my_findOid M db oid = Ok m"
  shows "sql_objs tab db (mo_Oid m) = Some m \<and> same (mo_Oid m) oid"
proof -
  from assms(2) obtain r rs where q: "sq_Query M db sql_select_oid [SText oid] = Inr (r # rs)"
    by (auto simp: my_findOid_def query_row_def split: sum.splits list.splits)
  then obtain k n where "r = [SText k, SInt n]" "same k oid" "tab db k = Some n"
    by (rule sql_laws_row [OF assms(1)])
  then show ?thesis using assms(2) q by (auto simp: my_findOid_def query_row_def sql_objs_def split: if_splits)
qed

lemma my_Get_row:
  assumes "sql_laws same tab (my_Sql env)" and "my_Get env db v = Ok m"
  shows "my_authenticate env (rv_Authorization v) = Ok True \<and> sql_objs tab db (mo_Oid m) = Some m \<and>
    same (mo_Oid m) (rv_Oid v)"
  using assms(2) my_findOid_row [OF assms(1)] by (auto simp: my_Get_def split: outcome.splits bool.splits)

lemma my_addOidToProject_frame:
  "sql_laws same tab M \<Longrightarrow> my_addOidToProject M db oid p = (db', err) \<Longrightarrow> tab db' = tab db"
  by (rule sql_laws_other [of same tab M db sql_insert_map]) (simp_all add: my_addOidToProject_def Let_def)

text \<open>After \<^verbatim>\<open>createOid\<close> nothing touches the table of OIDs, however \<^verbatim>\<open>Put\<close> ends.\<close>

lemma my_Put_frame:
  assumes laws: "sql_laws same tab (my_Sql env)" and put: "my_Put env db v = (db', r)"
  shows "tab db' = tab db \<or> my_authenticate env (rv_Authorization v) = Ok True \<and>
    (\<forall>k. same k (rv_Oid v) \<longrightarrow> tab db k = None) \<and> tab db' = (tab db)(rv_Oid v \<mapsto> rv_Size v)"
proof (cases "\<exists>e. my_authenticate env (rv_Authorization v) = Ok True \<and> my_findOid (my_Sql env) db (rv_Oid v) = Err e")
  case True
  then obtain e where new: "my_authenticate env (rv_Authorization v) = Ok True"
    "my_findOid (my_Sql env) db (rv_Oid v) = Err e" by blast
  obtain db1 err where ins: "sq_Exec (my_Sql env) db sql_insert_oid [SText (rv_Oid v), SInt (rv_Size v)] = (db1, err)"
    by fastforce
  then have "fst (sq_Exec (my_Sql env) db sql_insert_oid [SText (rv_Oid v), SInt (rv_Size v)]) = db1" by simp
  from my_Put_new [OF new this] put have "db' = db1 \<or>
      (\<exists>err'. my_addOidToProject (my_Sql env) db1 (rv_Oid v) (rv_Repo v) = (db', err'))"
    by (auto split: if_splits outcome.splits prod.splits)
  then have "tab db' = tab db1" using my_addOidToProject_frame [OF laws] by blast
  with sql_laws_insert [OF laws ins] new(1) show ?thesis by simp
next
  case False
  then have "db' = db"
    using put by (auto simp: my_Put_def my_Get_def split: outcome.splits bool.splits)
  then show ?thesis by simp
qed

text \<open>So the key stays one, and the store keeps the contract of a ledger.\<close>

lemma my_Put_inv:
  assumes "sql_inv same tab (my_Sql env) db" and put: "my_Put env db v = (db', r)"
  shows "sql_inv same tab (my_Sql env) db'"
proof -
  have laws: "sql_laws same tab (my_Sql env)" and key: "sql_key same (tab db)" using assms(1) by (simp_all add: sql_inv_def)
  from my_Put_frame [OF laws put] sql_key_insert [OF key sql_laws_equiv [OF laws]] key
  have "sql_key same (tab db')" by metis
  with laws show ?thesis by (simp add: sql_inv_def)
qed

interpretation mysql: managed_ledger "mysql_store env" "sql_inv same tab (my_Sql env)"
  "\<lambda>db. my_authenticate env" "sql_objs tab" same for env same tab
proof (unfold_locales, goal_cases)
  case (1 s v m)
  then show ?case by (intro my_Get_row) (simp_all add: sql_inv_def)
next
  case (2 s v s' r)
  have laws: "sql_laws same tab (my_Sql env)" and put: "my_Put env s v = (s', r)"
    using 2 by (simp_all add: sql_inv_def)
  from my_Put_frame [OF laws put] have frame: "my_authenticate env (rv_Authorization v) = Ok True"
    "\<forall>k. same k (rv_Oid v) \<longrightarrow> tab s k = None" "tab s' = (tab s)(rv_Oid v \<mapsto> rv_Size v)"
    using sql_objs_same [of tab s' s] 2(3) by blast+
  have "entry_for v (my_new_object v)" by (simp add: entry_for_def my_new_object_def)
  moreover have "sql_objs tab s' = (sql_objs tab s)(rv_Oid v \<mapsto> my_new_object v)"
    by (intro ext) (simp add: sql_objs_def frame(3) my_new_object_def)
  moreover have "tab s (rv_Oid v) = None" using frame(2) equivp_reflp [OF sql_laws_equiv [OF laws]] by blast
  ultimately show ?case using frame(1) by (auto simp: sql_objs_def)
next
  case (3 s v s' r)
  then show ?case by (intro my_Put_inv [OF 3(1)]) simp
next
  case (5 s oid m)
  then show ?case by (auto simp: sql_objs_def)
next
  case (6 s k oid)
  then show ?case unfolding sql_inv_def sql_laws_def by blast
next
  case (9 s n s' r)
  then have "my_AddProject env s n = (s', r)" by simp
  then have ins: "sq_Exec (my_Sql env) s sql_insert_project [SText n] =
      (s', snd (sq_Exec (my_Sql env) s sql_insert_project [SText n]))"
    by (cases "sq_Exec (my_Sql env) s sql_insert_project [SText n]")
      (simp add: my_AddProject_def my_createProject_def split: option.splits)
  have "sql_laws same tab (my_Sql env)" using 9(1) by (simp add: sql_inv_def)
  from sql_laws_other [OF this ins] have same: "tab s' = tab s" by simp
  then have "sql_inv same tab (my_Sql env) s'" using 9(1) by (simp add: sql_inv_def)
  then show ?case using sql_objs_same [OF same] by blast
qed (simp_all add: mysql_store_def my_AddUser_def my_DeleteUser_def)

section \<open>A table in memory\<close>

text \<open>
  For the witnesses: the rows of \<^verbatim>\<open>oids\<close>, the last inserted first, with a key that is compared
  without regard to the case of ASCII letters; there are no projects.
\<close>

definition upper_case :: "char \<Rightarrow> char" where
  "upper_case c =
     (if 97 \<le> (of_char c :: nat) \<and> (of_char c :: nat) \<le> 122 then char_of ((of_char c :: nat) - 32) else c)"

definition same_text :: "bytes \<Rightarrow> bytes \<Rightarrow> bool" where
  "same_text k oid \<longleftrightarrow> map upper_case k = map upper_case oid"

definition table_sql :: "(bytes \<times> int64) list sql_api" where
  "table_sql =
     \<lparr>sq_Exec = (\<lambda>db q vs.
        if q = sql_insert_oid then
          (case vs of [SText oid, SInt n] \<Rightarrow>
             if list_ex (\<lambda>row. same_text (fst row) oid) db then (db, Some (ErrExt ''Duplicate entry''))
             else ((oid, n) # db, None)
           | _ \<Rightarrow> (db, Some (ErrExt ''syntax'')))
        else (db, None)),
      sq_Query = (\<lambda>db q vs.
        if q = sql_select_oid then
          (case vs of [SText oid] \<Rightarrow>
             Inr (map (\<lambda>row. [SText (fst row), SInt (snd row)]) (filter (\<lambda>row. same_text (fst row) oid) db))
           | _ \<Rightarrow> Inl (ErrExt ''syntax''))
        else Inr [])\<rparr>"

lemma letter_range: "97 \<le> n \<Longrightarrow> n \<le> 122 \<Longrightarrow> (n - 32) mod 256 \<noteq> (47 :: nat)"
  by simp

lemma upper_case_separator: "upper_case c = CHR ''/'' \<Longrightarrow> c = CHR ''/''"
proof (rule ccontr)
  assume up: "upper_case c = CHR ''/''" and "c \<noteq> CHR ''/''"
  then have "97 \<le> (of_char c :: nat) \<and> (of_char c :: nat) \<le> 122" by (simp add: upper_case_def split: if_splits)
  moreover from this up have "(of_char (char_of ((of_char c :: nat) - 32)) :: nat) = of_char CHR ''/''"
    by (simp add: upper_case_def)
  then have "((of_char c :: nat) - 32) mod 256 = 47" by (simp add: of_char_of)
  ultimately show False using letter_range [of "of_char c"] by blast
qed

lemma upper_case_idem: "upper_case (upper_case c) = upper_case c"
proof -
  have "\<not> (97 \<le> (n - 32) mod 256 \<and> (n - 32) mod 256 \<le> 122)" if "n \<le> 122" for n :: nat
    using that by simp
  then show ?thesis by (auto simp: upper_case_def of_char_of)
qed

lemma same_text_routable:
  assumes "same_text k oid" and "routable oid"
  shows "routable k"
proof -
  have "upper_case CHR ''/'' = CHR ''/''" by (simp add: upper_case_def)
  moreover have "upper_case ` set k = upper_case ` set oid"
    using assms(1) unfolding same_text_def by (metis set_map)
  ultimately show ?thesis using assms(2) upper_case_separator unfolding routable_def by (metis imageE image_eqI)
qed

lemma filter_head_row:
  "filter (\<lambda>row. P (fst row)) db = (k, n) # rows \<Longrightarrow> map_of db k = Some n \<and> P k"
  by (induction db) (auto split: if_splits)

lemma table_sql_laws: "sql_laws same_text map_of table_sql"
  unfolding sql_laws_def
proof (intro conjI allI impI)
  fix db oid r rs
  assume "sq_Query table_sql db sql_select_oid [SText oid] = Inr (r # rs)"
  then obtain k n rows where "filter (\<lambda>row. same_text (fst row) oid) db = (k, n) # rows" "r = [SText k, SInt n]"
    by (auto simp: table_sql_def map_eq_Cons_conv)
  with filter_head_row [of "\<lambda>k. same_text k oid", OF this(1)]
  show "\<exists>k n. r = [SText k, SInt n] \<and> same_text k oid \<and> map_of db k = Some n" by blast
next
  fix db oid n db' err
  assume "sq_Exec table_sql db sql_insert_oid [SText oid, SInt n] = (db', err)"
  then show "map_of db' = map_of db \<or> (\<forall>k. same_text k oid \<longrightarrow> map_of db k = None) \<and> map_of db' = (map_of db)(oid \<mapsto> n)"
    by (auto simp: table_sql_def list_ex_iff map_of_eq_None_iff split: if_splits)
next
  show "equivp same_text" by (intro equivpI reflpI sympI transpI) (simp_all add: same_text_def)
next
  fix db q vs db' err
  assume "sq_Exec table_sql db q vs = (db', err)" "q \<in> {sql_insert_map, sql_insert_project}"
  then show "map_of db' = map_of db"
    by (auto simp: table_sql_def sql_insert_map_def sql_insert_project_def sql_insert_oid_def)
qed (rule same_text_routable)

end
