(* ===== verification/Lfs_MySQL.thy ===== *)
theory Lfs_MySQL
  imports Lfs_Deployments MySQL_Ledger
begin

text \<open>
  The server on MySQL and files.  Its metadata store does not keep the contract that the answers
  of the handlers are proved from; what any requests make of the tables and of the disk is a
  run of the specification all the same.
\<close>

definition mysql_file_app ::
  "('db, 'c) mysql_env \<Rightarrow> bytes \<Rightarrow> (reader \<Rightarrow> json option) \<Rightarrow> ('db, fs) App" where
  "mysql_file_app env base js =
     \<lparr>app_Config = my_Config env, app_contentStore = file_store base, app_metaStore = mysql_store env,
      app_json = js\<rparr>"

lemma mysql_file_app_simps [simp]:
  "app_Config (mysql_file_app env base js) = my_Config env"
  "app_contentStore (mysql_file_app env base js) = file_store base"
  "app_metaStore (mysql_file_app env base js) = mysql_store env"
  "app_json (mysql_file_app env base js) = js"
  by (simp_all add: mysql_file_app_def)

interpretation sql: mgmt_core "mysql_file_app env base js" "sql_inv same tab (my_Sql env)"
  "\<lambda>db. my_authenticate env" "sql_objs tab" same "store_ok base" "held_content base" for env base js same tab
  unfolding mgmt_core_def lfs_core_def mysql_file_app_simps
  using mysql.ledger_store_axioms files.content_store_axioms mysql.managed_ledger_axioms by blast

text \<open>
  C16: the server on MySQL refines the specification too, whatever the database refuses, whichever
  errors the store drops, and whichever OIDs the collation takes for one: what any requests,
  in any order, make of the table of OIDs and of the disk is a run of the specification, each
  event caused by its request.
\<close>

theorem mysql_refines_spec:
  assumes "served (mysql_file_app env base js) mg mux (db, c) rs (db', c')" and "mux_law mux"
    and "sql_laws same tab (my_Sql env)" and "sql_key same (tab db)" and "store_ok base c"
  shows "\<exists>ess. lfs_run (concat ess)
        (lfs_abs (\<lambda>db. my_authenticate env) (sql_objs tab) (held_content base) (db, c)) =
      Some (lfs_abs (\<lambda>db. my_authenticate env) (sql_objs tab) (held_content base) (db', c')) \<and>
    list_all2 (\<lambda>r. list_all (caused (my_Config env) r)) rs ess"
  using sql.served_spec [OF assms(1,2), of same tab] assms(3-5) by (simp add: sql_inv_def)

definition test_sql_app :: "((bytes \<times> int64) list, fs) App" where
  "test_sql_app = mysql_file_app (mem_mysql True table_sql) test_base test_json"

text \<open>An announcement in a project that is not there: answered 404, and an event of the specification.\<close>

lemma test_sql_post:
  "serve test_sql_app mg test_mux ([], test_fs) test_post =
     (([(test_oid, 18)], test_fs), Reply (writeStatus fresh_writer test_post 404))"
proof -
  let ?v = "test_vars(''oid'' := None)"
  let ?rv = "unpack test_sql_app ?v test_post"
  have body: "app_json test_sql_app (rq_Body test_post) = Some (JObj [(''oid'', JStr test_oid), (''size'', JInt 18)])"
    by (simp add: test_sql_app_def test_json_def)
  have rv: "rv_Oid ?rv = test_oid" "rv_Size ?rv = 18" "rv_Repo ?rv = ''repo''"
    using unpack_post [OF test_requests(1) body test_decode, of ?v] body test_decode
    by (simp_all add: unpack_def var_def test_vars_def zero_vars_def)
  let ?env = "mem_mysql True table_sql"
  have new: "my_findOid table_sql [] test_oid = Err ErrNoRows"
    by (simp add: my_findOid_def query_row_def table_sql_def)
  have ins: "fst (sq_Exec table_sql [] sql_insert_oid [SText test_oid, SInt 18]) = [(test_oid, 18)]"
    by (simp add: table_sql_def)
  have project: "my_findProject table_sql [(test_oid, 18)] ''repo'' = Err ErrNoRows"
    by (simp add: my_findProject_def query_row_def table_sql_def sql_select_project_def sql_select_oid_def)
  have "my_Put ?env [] ?rv = ([(test_oid, 18)], Err ErrProjectNotFound)"
    using my_Put_new [of ?env ?rv "[]" ErrNoRows "[(test_oid, 18)]"] new ins project
    by (simp add: mem_mysql_public rv)
  then have "PostHandler test_sql_app ([], test_fs) ?v test_post =
      (([(test_oid, 18)], test_fs), Reply (writeStatus fresh_writer test_post 404))"
    by (simp add: PostHandler_def meta_error_def test_sql_app_def)
  then show ?thesis by (simp add: serve_def ServeHTTP_def test_find_routes)
qed

lemma test_sql_key: "sql_key same_text (map_of [(k, n)])"
  by (simp add: sql_key_def)

lemma mysql_refines_spec_witness:
  "\<exists>mg es. served test_sql_app mg test_mux ([], test_fs) [test_post] ([(test_oid, 18)], test_fs) \<and>
     lfs_run es (lfs_abs (\<lambda>db. my_authenticate (mem_mysql True table_sql)) (sql_objs map_of) (held_content test_base) ([], test_fs)) =
       Some (lfs_abs (\<lambda>db. my_authenticate (mem_mysql True table_sql)) (sql_objs map_of) (held_content test_base)
         ([(test_oid, 18)], test_fs))"
proof -
  fix mg
  from served.request [OF served.start test_sql_post]
  have run: "served test_sql_app mg test_mux ([], test_fs) [test_post] ([(test_oid, 18)], test_fs)" by simp
  from mysql_refines_spec [OF run [unfolded test_sql_app_def] test_mux_law _ _ test_store_ok, of same_text map_of]
  show ?thesis using run table_sql_laws by (auto simp: mem_mysql_public sql_key_def)
qed

text \<open>
  C17: the schema gives the OIDs the collation of the database, which by default ignores
  case, and whoever announces an object in another spelling shuts it out: through any
  requests, whoever makes them, no content is ever stored under its OID.  The upload is checked
  against the spelling in the table, which is the hash of nothing.
\<close>

theorem mysql_spelling_blocks_object:
  assumes "served (mysql_file_app env base js) mg mux (db, c) rs (db', c')" and "mux_law mux"
    and laws: "sql_laws same tab (my_Sql env)" and key: "sql_key same (tab db)"
    and files: "store_ok base c" "held_content base c = Map.empty"
    and row: "tab db k = Some n" "same k oid" "k \<noteq> oid"
  shows "tab db' k = Some n \<and> held_content base c' oid = None"
proof -
  have good: "good_step (sql_inv same tab (my_Sql env)) (sql_objs tab) (store_ok base) (held_content base)
      (db, c) (db', c')"
    using sql.served_good [OF assms(1,2), of same tab] laws key files(1) by (simp add: sql_inv_def)
  from good_stepD(1) [OF this] have "sql_key same (tab db')" by (simp add: sql_inv_def)
  moreover have still: "tab db' k = Some n"
    using good_stepD(5) [OF good, of k] row(1) by (auto simp: sql_objs_def)
  ultimately have "tab db' oid = None" using row(2,3) unfolding sql_key_def by (metis option.distinct(1))
  then have "sql_objs tab db' oid = None" by (simp add: sql_objs_def)
  moreover have "announced (sql_objs tab) (held_content base) (db', c')"
    using good_stepD(4) [OF good] files(2) by (simp add: announced_def)
  ultimately have "held_content base c' oid = None"
    unfolding announced_def fst_conv snd_conv by (metis not_None_eq)
  with still show ?thesis by blast
qed

text \<open>Announced in capitals, the test object cannot be uploaded.\<close>

lemma mysql_spelling_blocks_object_witness:
  "\<exists>mg db' c'. served test_sql_app mg test_mux ([(map upper_case test_oid, 18)], test_fs) [test_put] (db', c') \<and>
     map_of db' (map upper_case test_oid) = Some 18 \<and> held_content test_base c' test_oid = None"
proof -
  let ?k = "map upper_case test_oid"
  fix mg
  obtain db' c' rep where "serve test_sql_app mg test_mux ([(?k, 18)], test_fs) test_put = ((db', c'), rep)"
    by (metis prod.exhaust)
  from served.request [OF served.start this]
  have run: "served test_sql_app mg test_mux ([(?k, 18)], test_fs) [test_put] (db', c')" by simp
  have "upper_case CHR ''f'' = CHR ''F''" by (simp add: upper_case_def char_of_def bit_Suc_0_iff)
  then have other: "?k \<noteq> test_oid" by (simp add: test_oid_def)
  have same: "same_text ?k test_oid"
    unfolding same_text_def by (simp add: upper_case_idem)
  have "held_content test_base test_fs = Map.empty" using NewContentStore_ok(2) [OF test_fs_new] .
  from mysql_spelling_blocks_object [where tab = map_of and n = 18, OF run [unfolded test_sql_app_def] test_mux_law _ test_sql_key
      test_store_ok this _ same other]
  show ?thesis using run table_sql_laws by (auto simp: mem_mysql_public)
qed

end
