(* ===== verification/Lfs_Main.thy ===== *)
theory Lfs_Main
  imports Lfs_MySQL
begin

text \<open>
  The server as \<^verbatim>\<open>main\<close> puts it together: interface values behind which any of the three metadata
  stores and either content store may be, and what holds of every server that \<^verbatim>\<open>main\<close> starts on
  Bolt or MySQL and on files or S3.  A server on Cassandra is left out: its store takes a
  failed query for a missing row, so it keeps the contract of the interface only as long as no
  query fails.
\<close>

section \<open>Interface values\<close>

text \<open>A call through the interface goes to the store that is behind it, and comes back with its state.\<close>

definition opened_store ::
  "'b GenericMetaStore \<Rightarrow> 'q GenericMetaStore \<Rightarrow> 'm GenericMetaStore \<Rightarrow> ('b, 'q, 'm) opened_meta GenericMetaStore" where
  "opened_store B Q M =
     \<lparr>ms_Put = (\<lambda>st v. case st of
        BoltMeta s \<Rightarrow> apfst BoltMeta (ms_Put B s v)
      | CassandraMeta s \<Rightarrow> apfst CassandraMeta (ms_Put Q s v)
      | MySQLMeta s \<Rightarrow> apfst MySQLMeta (ms_Put M s v)),
      ms_Get = (\<lambda>st v. case st of
        BoltMeta s \<Rightarrow> ms_Get B s v | CassandraMeta s \<Rightarrow> ms_Get Q s v | MySQLMeta s \<Rightarrow> ms_Get M s v),
      ms_DeleteUser = (\<lambda>st u. case st of
        BoltMeta s \<Rightarrow> apfst BoltMeta (ms_DeleteUser B s u)
      | CassandraMeta s \<Rightarrow> apfst CassandraMeta (ms_DeleteUser Q s u)
      | MySQLMeta s \<Rightarrow> apfst MySQLMeta (ms_DeleteUser M s u)),
      ms_AddUser = (\<lambda>st u p. case st of
        BoltMeta s \<Rightarrow> apfst BoltMeta (ms_AddUser B s u p)
      | CassandraMeta s \<Rightarrow> apfst CassandraMeta (ms_AddUser Q s u p)
      | MySQLMeta s \<Rightarrow> apfst MySQLMeta (ms_AddUser M s u p)),
      ms_AddProject = (\<lambda>st n. case st of
        BoltMeta s \<Rightarrow> apfst BoltMeta (ms_AddProject B s n)
      | CassandraMeta s \<Rightarrow> apfst CassandraMeta (ms_AddProject Q s n)
      | MySQLMeta s \<Rightarrow> apfst MySQLMeta (ms_AddProject M s n)),
      ms_Users = (\<lambda>st. case st of BoltMeta s \<Rightarrow> ms_Users B s | CassandraMeta s \<Rightarrow> ms_Users Q s | MySQLMeta s \<Rightarrow> ms_Users M s),
      ms_Objects = (\<lambda>st. case st of
        BoltMeta s \<Rightarrow> ms_Objects B s | CassandraMeta s \<Rightarrow> ms_Objects Q s | MySQLMeta s \<Rightarrow> ms_Objects M s),
      ms_Projects = (\<lambda>st. case st of
        BoltMeta s \<Rightarrow> ms_Projects B s | CassandraMeta s \<Rightarrow> ms_Projects Q s | MySQLMeta s \<Rightarrow> ms_Projects M s)\<rparr>"

definition opened_contents :: "fs GenericContentStore \<Rightarrow> (acl \<Rightarrow> 'v GenericContentStore) \<Rightarrow> 'v opened_content GenericContentStore" where
  "opened_contents F A =
     \<lparr>cs_Get = (\<lambda>st m. case st of FileContent f \<Rightarrow> cs_Get F f m | AwsContent b l \<Rightarrow> cs_Get (A l) b m),
      cs_Put = (\<lambda>st m rd. case st of
        FileContent f \<Rightarrow> apfst FileContent (cs_Put F f m rd)
      | AwsContent b l \<Rightarrow> apfst (\<lambda>b'. AwsContent b' l) (cs_Put (A l) b m rd)),
      cs_Exists = (\<lambda>st m. case st of FileContent f \<Rightarrow> cs_Exists F f m | AwsContent b l \<Rightarrow> cs_Exists (A l) b m)\<rparr>"

lemma opened_store_simps [simp]:
  "ms_Put (opened_store B Q M) (BoltMeta s) v = apfst BoltMeta (ms_Put B s v)"
  "ms_Put (opened_store B Q M) (CassandraMeta q) v = apfst CassandraMeta (ms_Put Q q v)"
  "ms_Put (opened_store B Q M) (MySQLMeta d) v = apfst MySQLMeta (ms_Put M d v)"
  "ms_Get (opened_store B Q M) (BoltMeta s) v = ms_Get B s v"
  "ms_Get (opened_store B Q M) (CassandraMeta q) v = ms_Get Q q v"
  "ms_Get (opened_store B Q M) (MySQLMeta d) v = ms_Get M d v"
  "ms_DeleteUser (opened_store B Q M) (BoltMeta s) u = apfst BoltMeta (ms_DeleteUser B s u)"
  "ms_DeleteUser (opened_store B Q M) (CassandraMeta q) u = apfst CassandraMeta (ms_DeleteUser Q q u)"
  "ms_DeleteUser (opened_store B Q M) (MySQLMeta d) u = apfst MySQLMeta (ms_DeleteUser M d u)"
  "ms_AddUser (opened_store B Q M) (BoltMeta s) u p = apfst BoltMeta (ms_AddUser B s u p)"
  "ms_AddUser (opened_store B Q M) (CassandraMeta q) u p = apfst CassandraMeta (ms_AddUser Q q u p)"
  "ms_AddUser (opened_store B Q M) (MySQLMeta d) u p = apfst MySQLMeta (ms_AddUser M d u p)"
  "ms_AddProject (opened_store B Q M) (BoltMeta s) n = apfst BoltMeta (ms_AddProject B s n)"
  "ms_AddProject (opened_store B Q M) (CassandraMeta q) n = apfst CassandraMeta (ms_AddProject Q q n)"
  "ms_AddProject (opened_store B Q M) (MySQLMeta d) n = apfst MySQLMeta (ms_AddProject M d n)"
  by (simp_all add: opened_store_def)

lemma opened_contents_simps [simp]:
  "cs_Get (opened_contents F A) (FileContent f) m = cs_Get F f m"
  "cs_Get (opened_contents F A) (AwsContent b l) m = cs_Get (A l) b m"
  "cs_Put (opened_contents F A) (FileContent f) m rd = apfst FileContent (cs_Put F f m rd)"
  "cs_Put (opened_contents F A) (AwsContent b l) m rd = apfst (\<lambda>b'. AwsContent b' l) (cs_Put (A l) b m rd)"
  "cs_Exists (opened_contents F A) (FileContent f) m = cs_Exists F f m"
  "cs_Exists (opened_contents F A) (AwsContent b l) m = cs_Exists (A l) b m"
  by (simp_all add: opened_contents_def)

lemma apfst_eq_Pair: "apfst f x = (y, r) \<longleftrightarrow> (\<exists>z. x = (z, r) \<and> y = f z)"
  by (cases x) auto

section \<open>The contracts, behind the interfaces\<close>

text \<open>
  What the contracts see of an interface value is what they see of the store behind it, if that
  keeps its contract without further assumptions.
\<close>

definition any_inv ::
  "(bytes \<Rightarrow> bytes \<Rightarrow> bool) \<Rightarrow> ('m \<Rightarrow> bytes \<rightharpoonup> int64) \<Rightarrow> ('b, 'h) bolt_env \<Rightarrow> ('m, 'h) mysql_env \<Rightarrow>
   ('b, 'q, 'm) opened_meta \<Rightarrow> bool" where
  "any_inv same tab be me st \<longleftrightarrow>
     sql_laws same tab (my_Sql me) \<and>
     (case st of BoltMeta s \<Rightarrow> bolt_inv be s | CassandraMeta q \<Rightarrow> False
      | MySQLMeta d \<Rightarrow> sql_inv same tab (my_Sql me) d)"

definition any_auth ::
  "('b, 'h) bolt_env \<Rightarrow> ('q, 'h) cass_env \<Rightarrow> ('m, 'h) mysql_env \<Rightarrow> ('b, 'q, 'm) opened_meta \<Rightarrow> bytes \<Rightarrow> bool outcome" where
  "any_auth be ce me st =
     (case st of BoltMeta s \<Rightarrow> authenticate be s | CassandraMeta q \<Rightarrow> cass_authenticate ce q
      | MySQLMeta d \<Rightarrow> my_authenticate me)"

definition any_objs ::
  "('m \<Rightarrow> bytes \<rightharpoonup> int64) \<Rightarrow> ('b, 'h) bolt_env \<Rightarrow> ('q, 'h) cass_env \<Rightarrow> ('b, 'q, 'm) opened_meta \<Rightarrow> bytes \<rightharpoonup> MetaObject" where
  "any_objs tab be ce st =
     (case st of BoltMeta s \<Rightarrow> bolt_objs be s | CassandraMeta q \<Rightarrow> cass_objs ce q | MySQLMeta d \<Rightarrow> sql_objs tab d)"

definition any_ok :: "bytes \<Rightarrow> 'v s3_api \<Rightarrow> 'v opened_content \<Rightarrow> bool" where
  "any_ok base S st = (case st of FileContent f \<Rightarrow> store_ok base f | AwsContent b l \<Rightarrow> s3_laws S)"

definition any_held :: "bytes \<Rightarrow> 'v s3_api \<Rightarrow> 'v opened_content \<Rightarrow> bytes \<rightharpoonup> bytes" where
  "any_held base S st = (case st of FileContent f \<Rightarrow> held_content base f | AwsContent b l \<Rightarrow> aws_held S b)"

lemma any_simps [simp]:
  "any_inv same tab be me (BoltMeta s) \<longleftrightarrow> sql_laws same tab (my_Sql me) \<and> bolt_inv be s"
  "\<not> any_inv same tab be me (CassandraMeta q)"
  "any_inv same tab be me (MySQLMeta d) \<longleftrightarrow> sql_inv same tab (my_Sql me) d"
  "any_auth be ce me (BoltMeta s) = authenticate be s" "any_auth be ce me (CassandraMeta q) = cass_authenticate ce q"
  "any_auth be ce me (MySQLMeta d) = my_authenticate me"
  "any_objs tab be ce (BoltMeta s) = bolt_objs be s" "any_objs tab be ce (CassandraMeta q) = cass_objs ce q"
  "any_objs tab be ce (MySQLMeta d) = sql_objs tab d"
  "any_ok base S (FileContent f) = store_ok base f" "any_ok base S (AwsContent b l) = s3_laws S"
  "any_held base S (FileContent f) = held_content base f" "any_held base S (AwsContent b l) = aws_held S b"
  by (auto simp: any_inv_def any_auth_def any_objs_def any_ok_def any_held_def sql_inv_def)

lemma any_inv_same:
  assumes "any_inv same tab be me st"
  shows "same k k" and "same k oid \<Longrightarrow> routable oid \<Longrightarrow> routable k"
  using assms unfolding any_inv_def sql_laws_def by (meson equivp_reflp)+

interpretation any: managed_ledger "opened_store (bolt_store be) (cassandra_store ce) (mysql_store me)"
  "any_inv same tab be me" "any_auth be ce me" "any_objs tab be ce" same for be ce me same tab
proof (unfold_locales, goal_cases)
  case (1 st v m)
  note refl = any_inv_same(1) [OF 1(1)]
  show ?case
  proof (cases st)
    case (BoltMeta s)
    with 1 bolt.get_entry [of be s v m] refl show ?thesis by auto
  next
    case (CassandraMeta q)
    with 1 show ?thesis by simp
  next
    case (MySQLMeta d)
    with 1 mysql.get_entry [of same tab me d v m] show ?thesis by auto
  qed
next
  case (2 st v st' r)
  then show ?case
    using bolt.put_entry [of be _ v _ r] mysql.put_entry [of same tab me _ v _ r]
    by (cases st) (auto simp: apfst_eq_Pair)
next
  case (3 st v st' r)
  then show ?case
    using bolt.put_inv [of be _ v _ r] mysql.put_inv [of same tab me _ v _ r]
    by (cases st) (auto simp: apfst_eq_Pair)
next
  case (4 st v st' r)
  then show ?case
    using bolt.put_auth [of be _ v _ r]
    by (cases st) (auto simp: apfst_eq_Pair)
next
  case (5 st oid m)
  then show ?case
    using bolt.entry_oid [of be _ oid m] mysql.entry_oid [of same tab me _ oid m]
    by (cases st) auto
next
  case (6 st k oid)
  then show ?case by (rule any_inv_same(2))
next
  case (7 st u p st' r)
  then show ?case
    using bolt_managed.add_user_frame [of be _ u p _ r]
      mysql.add_user_frame [of same tab me _ u p _ r]
    by (cases st) (auto simp: apfst_eq_Pair)
next
  case (8 st u st' r)
  then show ?case
    using bolt_managed.delete_user_frame [of be _ u _ r]
      mysql.delete_user_frame [of same tab me _ u _ r]
    by (cases st) (auto simp: apfst_eq_Pair)
next
  case (9 st n st' r)
  then show ?case
    using bolt_managed.add_project_frame [of be _ n _ r]
      mysql.add_project_frame [of same tab me _ n _ r]
    by (cases st) (auto simp: apfst_eq_Pair)
qed

interpretation any_content: content_store "opened_contents (file_store base) (aws_store S)" "any_ok base S"
  "any_held base S" for base S
proof (unfold_locales, goal_cases)
  case (1 st m b)
  then show ?case using files.get_held [of base _ m b] aws.get_held [of S _ m b] by (cases st) auto
next
  case (2 st m b)
  then show ?case using files.get_absent [of base _ m b] aws.get_absent [of S _ m b] by (cases st) auto
next
  case (3 st m b)
  then show ?case using files.exists_held [of base _ m b] aws.exists_held [of S m b] by (cases st) auto
next
  case (4 st m b err st')
  then show ?case
    using files.put_ok [of base _ m b err] aws.put_ok [of S _ _ m b err] by (cases st) (auto simp: apfst_eq_Pair)
next
  case (5 st m b err st' r)
  show ?case
  proof (cases st)
    case (FileContent f)
    with 5 obtain f' where "cs_Put (file_store base) f m (b, err) = (f', r)" "st' = FileContent f'"
      by (auto simp: apfst_eq_Pair)
    with 5 FileContent files.put_frame [of base f m b err f' r] show ?thesis by simp
  next
    case (AwsContent v l)
    with 5 obtain v' where "cs_Put (aws_store S l) v m (b, err) = (v', r)" "st' = AwsContent v' l"
      by (auto simp: apfst_eq_Pair)
    with 5 AwsContent aws.put_frame [of S l v m b err v' r] show ?thesis by simp
  qed
next
  case (6 st m rd st' r)
  then show ?case
    using files.put_keeps [of base _ m rd _ r] by (cases st) (auto simp: apfst_eq_Pair)
qed

section \<open>The server that main starts\<close>

text \<open>What the stores use beside the environment of the start.\<close>

record ('m, 'h) backends =
  bk_Bcrypt :: bcrypt_api
  bk_Ldap :: "'h ldap_api"
  bk_Sql :: "'m sql_api"

definition bolt_behind ::
  "('b, 'q, 'm, 'v, 'a, 'l) start_env \<Rightarrow> ('m, 'h) backends \<Rightarrow> Configuration \<Rightarrow> ('b, 'h) bolt_env" where
  "bolt_behind env bk cfg =
     \<lparr>be_Config = cfg, be_Bolt = se_Bolt env, be_Bcrypt = bk_Bcrypt bk, be_Ldap = bk_Ldap bk\<rparr>"

definition cass_behind ::
  "('b, 'q, 'm, 'v, 'a, 'l) start_env \<Rightarrow> ('m, 'h) backends \<Rightarrow> Configuration \<Rightarrow> ('q, 'h) cass_env" where
  "cass_behind env bk cfg =
     \<lparr>ce_Config = cfg, ce_Cql = se_Cql env, ce_Bcrypt = bk_Bcrypt bk, ce_Ldap = bk_Ldap bk\<rparr>"

definition mysql_behind :: "('m, 'h) backends \<Rightarrow> Configuration \<Rightarrow> ('m, 'h) mysql_env" where
  "mysql_behind bk cfg = \<lparr>my_Config = cfg, my_Sql = bk_Sql bk, my_Ldap = bk_Ldap bk\<rparr>"

definition NewApp ::
  "('b, 'q, 'm, 'v, 'a, 'l) start_env \<Rightarrow> ('m, 'h) backends \<Rightarrow> Configuration \<Rightarrow> (reader \<Rightarrow> json option) \<Rightarrow>
   (('b, 'q, 'm) opened_meta, 'v opened_content) App" where
  "NewApp env bk cfg js =
     \<lparr>app_Config = cfg, app_contentStore = opened_contents (file_store (ContentPath cfg)) (aws_store (se_S3 env)),
      app_metaStore = opened_store (bolt_store (bolt_behind env bk cfg)) (cassandra_store (cass_behind env bk cfg))
        (mysql_store (mysql_behind bk cfg)),
      app_json = js\<rparr>"

text \<open>
  The world that a server may be started in: the services behave as documented; the Bolt file, if
  it can be opened, is new or was left by a server, and so is the disk; the key of the table in
  MySQL is one.
\<close>

definition world_ok ::
  "(bytes \<Rightarrow> bytes \<Rightarrow> bool) \<Rightarrow> ('m \<Rightarrow> bytes \<rightharpoonup> int64) \<Rightarrow> ('b, 'q, 'm, 'v, 'a, 'l) start_env \<Rightarrow> ('m, 'h) backends \<Rightarrow>
   Configuration \<Rightarrow> bool" where
  "world_ok same tab env bk cfg \<longleftrightarrow>
     bolt_laws (se_Bolt env) \<and> sql_laws same tab (bk_Sql bk) \<and> s3_laws (se_S3 env) \<and>
     (\<forall>db. se_OpenBolt env (MetaDB cfg) = Inr db \<longrightarrow> bolt_file_ok (se_Bolt env) db) \<and>
     (\<forall>dsn db. se_OpenMySQL env dsn = Inr db \<longrightarrow> sql_key same (tab db)) \<and>
     disk_ok (ContentPath cfg) (se_Fs env)"

text \<open>What the specification sees of the server.\<close>

definition main_abs ::
  "('m \<Rightarrow> bytes \<rightharpoonup> int64) \<Rightarrow> ('b, 'q, 'm, 'v, 'a, 'l) start_env \<Rightarrow> ('m, 'h) backends \<Rightarrow> Configuration \<Rightarrow>
   ('b, 'q, 'm) opened_meta \<times> 'v opened_content \<Rightarrow> lfs_state" where
  "main_abs tab env bk cfg =
     lfs_abs (any_auth (bolt_behind env bk cfg) (cass_behind env bk cfg) (mysql_behind bk cfg))
       (any_objs tab (bolt_behind env bk cfg) (cass_behind env bk cfg)) (any_held (ContentPath cfg) (se_S3 env))"

lemma behind_simps [simp]:
  "be_Config (bolt_behind env bk cfg) = cfg" "be_Bolt (bolt_behind env bk cfg) = se_Bolt env"
  "ce_Cql (cass_behind env bk cfg) = se_Cql env" "my_Sql (mysql_behind bk cfg) = bk_Sql bk"
  "app_Config (NewApp env bk cfg js) = cfg"
  by (simp_all add: bolt_behind_def cass_behind_def mysql_behind_def NewApp_def)

interpretation main: mgmt_core "NewApp env bk cfg js"
  "any_inv same tab (bolt_behind env bk cfg) (mysql_behind bk cfg)"
  "any_auth (bolt_behind env bk cfg) (cass_behind env bk cfg) (mysql_behind bk cfg)"
  "any_objs tab (bolt_behind env bk cfg) (cass_behind env bk cfg)" same
  "any_ok (ContentPath cfg) (se_S3 env)" "any_held (ContentPath cfg) (se_S3 env)" for env bk cfg js same tab
  unfolding mgmt_core_def lfs_core_def NewApp_def App.simps
  using any.ledger_store_axioms any_content.content_store_axioms any.managed_ledger_axioms by blast

text \<open>What \<^verbatim>\<open>main\<close> opens keeps the contracts.\<close>

lemma FindMetaStore_inv:
  assumes "world_ok same tab env bk cfg" and "FindMetaStore env cfg = Ok ms" and "BackingStore cfg \<noteq> ''cassandra''"
  shows "any_inv same tab (bolt_behind env bk cfg) (mysql_behind bk cfg) ms"
proof (cases ms)
  case (BoltMeta s)
  with assms(2) have new: "NewMetaStore (se_Bolt env) (se_OpenBolt env (MetaDB cfg)) = Ok s"
    by (auto simp: FindMetaStore_def map_outcome_Ok split: if_splits)
  then obtain db0 where db0: "se_OpenBolt env (MetaDB cfg) = Inr db0"
    by (auto simp: NewMetaStore_def split: sum.splits)
  with NewMetaStore_kept(1) [of "bolt_behind env bk cfg" db0 s] new assms(1) BoltMeta show ?thesis
    by (simp add: world_ok_def)
next
  case (CassandraMeta q)
  with assms(2,3) show ?thesis by (auto simp: FindMetaStore_def map_outcome_Ok split: if_splits)
next
  case (MySQLMeta d)
  with assms(2) obtain dsn where "se_OpenMySQL env dsn = Inr d"
    by (auto simp: FindMetaStore_def map_outcome_Ok NewMySQLMetaStore_def NewMySQLSession_def bind_outcome_ok_iff
        Let_def split: if_splits option.splits sum.splits)
  with assms(1) MySQLMeta show ?thesis by (auto simp: world_ok_def sql_inv_def)
qed

lemma findContentStore_ok:
  assumes "world_ok same tab env bk cfg" and "findContentStore env cfg = Ok cs"
  shows "any_ok (ContentPath cfg) (se_S3 env) cs"
proof (cases cs)
  case (FileContent f)
  with assms(2) have "NewContentStore (se_Fs env) (ContentPath cfg) = (f, Ok ())"
    by (auto simp: findContentStore_def file_content_def map_outcome_Ok prod_eq_iff split: if_splits prod.splits)
  with NewContentStore_kept(1) [OF _ this] assms(1) FileContent show ?thesis by (simp add: world_ok_def)
next
  case (AwsContent b l)
  with assms(1) show ?thesis by (simp add: world_ok_def)
qed

text \<open>
  C3: every server on Bolt or MySQL is a Git LFS server.  Whichever of the two metadata stores
  and of the two content stores its configuration chooses, whatever an earlier run has left on
  the disk, in the file and in the tables, and whatever the services do that their documented
  behaviour allows: what any requests, in any order, make of the credentials, the objects and
  the contents of a server that \<^verbatim>\<open>main\<close> has started is a run of the specification, each event
  caused by its request.
\<close>

theorem any_server_refines_spec:
  assumes "Main env cfg args = Serves ln ms cs" and "world_ok same tab env bk cfg"
    and "BackingStore cfg \<noteq> ''cassandra''"
    and "served (NewApp env bk cfg js) mg mux (ms, cs) rs (ms', cs')" and "mux_law mux"
  shows "\<exists>ess. lfs_run (concat ess) (main_abs tab env bk cfg (ms, cs)) = Some (main_abs tab env bk cfg (ms', cs')) \<and>
    list_all2 (\<lambda>r. list_all (caused cfg r)) rs ess"
proof -
  have "FindMetaStore env cfg = Ok ms" "findContentStore env cfg = Ok cs" using Main_Serves [OF assms(1)] by blast+
  with main.served_spec [OF assms(4,5), of same tab] FindMetaStore_inv [OF assms(2) _ assms(3)] findContentStore_ok [OF assms(2)]
  show ?thesis by (simp add: main_abs_def)
qed

text \<open>The world of the witnesses, with a MySQL server that refuses everything.\<close>

definition test_backends :: "(unit, unit) backends" where
  "test_backends = \<lparr>bk_Bcrypt = mem_bcrypt, bk_Ldap = test_ldap, bk_Sql = closed_sql\<rparr>"

lemma closed_sql_laws: "sql_laws (=) (\<lambda>_. Map.empty) closed_sql"
  by (simp add: sql_laws_def closed_sql_def identity_equivp)

lemma test_world: "world_ok (=) (\<lambda>_. Map.empty) test_start test_backends test_config"
proof -
  have "bolt_file_ok mem_bolt blank_db"
    by (simp add: bolt_file_ok_def create_buckets_def mem_bolt_def blank_db_def)
  then show ?thesis
    using mem_bolt_laws mem_s3_laws closed_sql_laws disk_ok_empty
    by (simp add: world_ok_def test_start_def test_backends_def)
qed

lemma test_on_bolt: "BackingStore test_config \<noteq> ''cassandra''"
  by (simp add: test_config_def default_configuration_def)

lemma any_server_refines_spec_witness:
  "\<exists>mg ms cs es. served (NewApp test_start test_backends test_config test_json) mg test_mux
       (BoltMeta mem_fresh, FileContent test_fs) [test_post] (ms, cs) \<and>
     lfs_run es (main_abs (\<lambda>_. Map.empty) test_start test_backends test_config (BoltMeta mem_fresh, FileContent test_fs)) =
       Some (main_abs (\<lambda>_. Map.empty) test_start test_backends test_config (ms, cs))"
proof -
  let ?a = "NewApp test_start test_backends test_config test_json"
  fix mg
  obtain ms cs rep where "serve ?a mg test_mux (BoltMeta mem_fresh, FileContent test_fs) test_post = ((ms, cs), rep)"
    by (metis prod.exhaust)
  from served.request [OF served.start this]
  have run: "served ?a mg test_mux (BoltMeta mem_fresh, FileContent test_fs) [test_post] (ms, cs)" by simp
  from any_server_refines_spec [OF test_main test_world test_on_bolt run test_mux_law] run show ?thesis by blast
qed

text \<open>
  C8: the handlers need no lock between their calls to the stores, on any server that \<^verbatim>\<open>main\<close>
  starts on Bolt or MySQL and on files or S3.  However the calls of any number of requests of the API interleave, each call to a
  store taken as atomic: what happens to credentials, objects and contents is a run of the
  specification whose events are caused by requests that have arrived, and a \<^verbatim>\<open>PUT\<close> that was
  answered with 200 has its OID, or one that the store takes for it, among the contents from
  then on.  So what can go wrong with concurrent requests goes wrong inside of the store
  operations.
\<close>

theorem any_server_interleaved:
  assumes "Main env cfg args = Serves ln ms cs" and "world_ok same tab env bk cfg"
    and "BackingStore cfg \<noteq> ''cassandra''"
    and "(busy_step (NewApp env bk cfg js) mux)\<^sup>*\<^sup>* (idle (ms, cs)) s" and "mux_law mux"
  shows "(\<exists>es. lfs_run es (main_abs tab env bk cfg (ms, cs)) = Some (main_abs tab env bk cfg (bs_State s)) \<and>
      (\<forall>e \<in> set es. \<exists>k q. bs_Calls s k = Some q \<and> caused cfg (rc_Request q) e)) \<and>
    (\<forall>k q w. bs_Calls s k = Some q \<longrightarrow> rc_Phase q = Answered (Reply w) \<longrightarrow>
       rq_Method (rc_Request q) = ''PUT'' \<longrightarrow> final_status w = 200 \<longrightarrow>
       (\<exists>oid. same oid (rv_Oid (unpack (NewApp env bk cfg js) (rc_Vars q) (rc_Request q))) \<and>
          stored (main_abs tab env bk cfg (bs_State s)) oid \<noteq> None))"
proof -
  have "FindMetaStore env cfg = Ok ms" "findContentStore env cfg = Ok cs" using Main_Serves [OF assms(1)] by blast+
  with main.busy_run [OF assms(4,5), of same tab] FindMetaStore_inv [OF assms(2) _ assms(3)] findContentStore_ok [OF assms(2)]
  have run: "call_effect (any_inv same tab (bolt_behind env bk cfg) (mysql_behind bk cfg))
      (any_auth (bolt_behind env bk cfg) (cass_behind env bk cfg) (mysql_behind bk cfg))
      (any_objs tab (bolt_behind env bk cfg) (cass_behind env bk cfg)) (any_ok (ContentPath cfg) (se_S3 env))
      (any_held (ContentPath cfg) (se_S3 env))
      (\<lambda>e. \<exists>k q. bs_Calls s k = Some q \<and> caused cfg (rc_Request q) e) (ms, cs) (bs_State s)"
    and phases: "bs_Calls s k = Some q \<Longrightarrow> phase_ok (any_auth (bolt_behind env bk cfg) (cass_behind env bk cfg) (mysql_behind bk cfg))
      (any_objs tab (bolt_behind env bk cfg) (cass_behind env bk cfg)) same (any_held (ContentPath cfg) (se_S3 env))
      (NewApp env bk cfg js) (bs_State s) (rc_Vars q) (rc_Request q) (rc_Phase q)" for k q
    by simp_all
  from run have "reaches (\<lambda>e. \<exists>k q. bs_Calls s k = Some q \<and> caused cfg (rc_Request q) e)
      (main_abs tab env bk cfg (ms, cs)) (main_abs tab env bk cfg (bs_State s))"
    by (simp add: call_effect_def main_abs_def)
  moreover have "\<exists>oid. same oid (rv_Oid (unpack (NewApp env bk cfg js) (rc_Vars q) (rc_Request q))) \<and>
      stored (main_abs tab env bk cfg (bs_State s)) oid \<noteq> None"
    if "bs_Calls s k = Some q" "rc_Phase q = Answered (Reply w)" "rq_Method (rc_Request q) = ''PUT''"
      "final_status w = 200" for k q w
    using phases [OF that(1)] that(2-4) by (simp add: main_abs_def lfs_abs_def)
  ultimately show ?thesis unfolding reaches_def list_all_iff by blast
qed

text \<open>An upload that arrives while its announcement is under way.\<close>

lemma any_server_interleaved_witness:
  "\<exists>s es. (busy_step (NewApp test_start test_backends test_config test_json) test_mux)\<^sup>*\<^sup>*
       (idle (BoltMeta mem_fresh, FileContent test_fs)) s \<and>
     bs_Calls s 2 = Some (new_request PutContent test_vars test_put) \<and>
     lfs_run es (main_abs (\<lambda>_. Map.empty) test_start test_backends test_config (BoltMeta mem_fresh, FileContent test_fs)) =
       Some (main_abs (\<lambda>_. Map.empty) test_start test_backends test_config (bs_State s))"
proof -
  let ?a = "NewApp test_start test_backends test_config test_json"
  let ?s0 = "idle (BoltMeta mem_fresh, FileContent test_fs)"
  obtain s where run: "(busy_step ?a test_mux)\<^sup>*\<^sup>* ?s0 s"
    and put: "bs_Calls s 2 = Some (new_request PutContent test_vars test_put)"
    by (rule test_interleaving)
  from any_server_interleaved [OF test_main test_world test_on_bolt run test_mux_law] run put show ?thesis by blast
qed

text \<open>
  C4: a restart loses nothing.  A server on Bolt and files may be stopped after any requests;
  when \<^verbatim>\<open>main\<close> is started again, with any arguments, on the file and the disk that it left, the
  objects and the contents are those of before, and the world is again one that a server may be
  started in.
\<close>

theorem restart_keeps_everything:
  assumes first: "Main env cfg args = Serves ln (BoltMeta s) (FileContent c)" "world_ok same tab env bk cfg"
    and run: "served (NewApp env bk cfg js) mg mux (BoltMeta s, FileContent c) rs (BoltMeta s', FileContent c')"
      "mux_law mux"
    and left: "env' = env\<lparr>se_OpenBolt := (se_OpenBolt env)(MetaDB cfg := Inr s'), se_Fs := c'\<rparr>"
    and again: "Main env' cfg args' = Serves ln' ms cs"
  shows "known (main_abs tab env' bk cfg (ms, cs)) = known (main_abs tab env bk cfg (BoltMeta s', FileContent c')) \<and>
    stored (main_abs tab env' bk cfg (ms, cs)) = stored (main_abs tab env bk cfg (BoltMeta s', FileContent c')) \<and>
    world_ok same tab env' bk cfg"
proof -
  have o1: "FindMetaStore env cfg = Ok (BoltMeta s)" "findContentStore env cfg = Ok (FileContent c)"
    using Main_Serves [OF first(1)] by blast+
  have o2: "FindMetaStore env' cfg = Ok ms" "findContentStore env' cfg = Ok cs" using Main_Serves [OF again] by blast+
  have on_bolt: "BackingStore cfg \<noteq> ''cassandra''" using o1(1) by (auto simp: FindMetaStore_def map_outcome_Ok)
  have good: "good_step (any_inv same tab (bolt_behind env bk cfg) (mysql_behind bk cfg))
      (any_objs tab (bolt_behind env bk cfg) (cass_behind env bk cfg)) (any_ok (ContentPath cfg) (se_S3 env))
      (any_held (ContentPath cfg) (se_S3 env)) (BoltMeta s, FileContent c) (BoltMeta s', FileContent c')"
    using main.served_good [OF run, of same tab] FindMetaStore_inv [OF first(2) o1(1)] on_bolt
      findContentStore_ok [OF first(2) o1(2)] by simp
  from good_stepD(1,2) [OF good] have inv: "bolt_inv (bolt_behind env bk cfg) s'" and ok: "store_ok (ContentPath cfg) c'"
    by simp_all
  have world: "world_ok same tab env' bk cfg"
    using first(2) bolt_inv_file [OF inv] store_ok_disk [OF ok] by (simp add: world_ok_def left)
  have "BackingStore cfg \<notin> {''cassandra'', ''mysql''}" and kind: "ContentStoreKind cfg \<noteq> ''aws''"
    using o1 by (auto simp: FindMetaStore_def findContentStore_def map_outcome_Ok split: prod.splits if_splits)
  then obtain s2 where ms: "ms = BoltMeta s2" and new: "NewMetaStore (se_Bolt env) (Inr s') = Ok s2"
    using o2(1) by (auto simp: FindMetaStore_def left map_outcome_Ok split: if_splits)
  obtain c2 where cs: "cs = FileContent c2" and disk: "NewContentStore c' (ContentPath cfg) = (c2, Ok ())"
    using o2(2) kind by (auto simp: findContentStore_def file_content_def left map_outcome_Ok prod_eq_iff split: if_splits)
  have same: "bolt_behind env' bk cfg = bolt_behind env bk cfg" "se_S3 env' = se_S3 env"
    by (simp_all add: bolt_behind_def left)
  have "bolt_laws (be_Bolt (bolt_behind env bk cfg))" using first(2) by (simp add: world_ok_def)
  from NewMetaStore_kept(2) [OF this bolt_inv_file [OF inv]] new
  have "bolt_objs (bolt_behind env bk cfg) s2 = bolt_objs (bolt_behind env bk cfg) s'" by simp
  with NewContentStore_kept(2) [OF store_ok_disk [OF ok] disk] world show ?thesis
    by (simp add: main_abs_def lfs_abs_def ms cs same)
qed

lemma NewContentStore_again:
  assumes "NewContentStore f base = (f', Ok ())"
  shows "\<exists>f2. NewContentStore f' base = (f2, Ok ())"
proof -
  have mk: "MkdirAll f base = (f', Ok ())" using assms by (simp add: NewContentStore_def split: if_splits)
  have "entry f' q = Some Dir" if "q \<in> set (ancestors (path_of base) @ [path_of base])" for q
    using that MkdirAll_ok(1) [OF mk, of q] by auto
  then have "\<not> list_ex (\<lambda>q. entry f' q \<noteq> None \<and> entry f' q \<noteq> Some Dir) (ancestors (path_of base) @ [path_of base])"
    unfolding list_ex_iff by blast
  then show ?thesis using assms by (auto simp: NewContentStore_def MkdirAll_def Let_def split: if_splits)
qed

text \<open>Stopped after an announcement, and started again.\<close>

lemma restart_keeps_everything_witness:
  "\<exists>mg s' env' ln ms cs. served (NewApp test_start test_backends test_config test_json) mg test_mux
       (BoltMeta mem_fresh, FileContent test_fs) [test_post] (BoltMeta s', FileContent test_fs) \<and>
     env' = test_start\<lparr>se_OpenBolt := (se_OpenBolt test_start)(MetaDB test_config := Inr s'), se_Fs := test_fs\<rparr> \<and>
     Main env' test_config [] = Serves ln ms cs \<and>
     known (main_abs (\<lambda>_. Map.empty) env' test_backends test_config (ms, cs)) =
       known (main_abs (\<lambda>_. Map.empty) test_start test_backends test_config (BoltMeta s', FileContent test_fs))"
proof -
  let ?a = "NewApp test_start test_backends test_config test_json" and ?v = "test_vars(''oid'' := None)"
  fix mg
  obtain s' res where put: "MetaStore_Put (bolt_behind test_start test_backends test_config) mem_fresh
      (unpack ?a ?v test_post) = (s', res)" by fastforce
  have app: "app_metaStore ?a = opened_store (bolt_store (bolt_behind test_start test_backends test_config))
      (cassandra_store (cass_behind test_start test_backends test_config)) (mysql_store (mysql_behind test_backends test_config))"
    by (simp add: NewApp_def)
  have "ms_Put (app_metaStore ?a) (BoltMeta mem_fresh) (unpack ?a ?v test_post) = (BoltMeta s', res)"
    unfolding app by (simp add: put)
  then have "\<exists>rep. PostHandler ?a (BoltMeta mem_fresh, FileContent test_fs) ?v test_post = ((BoltMeta s', FileContent test_fs), rep)"
    by (cases res) (simp_all add: PostHandler_def Let_def)
  then obtain rep where "serve ?a mg test_mux (BoltMeta mem_fresh, FileContent test_fs) test_post =
      ((BoltMeta s', FileContent test_fs), rep)"
    by (auto simp: serve_def ServeHTTP_def test_find_routes)
  from served.request [OF served.start this]
  have run: "served ?a mg test_mux (BoltMeta mem_fresh, FileContent test_fs) [test_post] (BoltMeta s', FileContent test_fs)"
    by simp
  let ?env = "test_start\<lparr>se_OpenBolt := (se_OpenBolt test_start)(MetaDB test_config := Inr s'), se_Fs := test_fs\<rparr>"
  have "\<not> IsHTTPS test_config" by (intro default_plain) (simp add: test_config_def default_configuration_def)
  moreover have "NewTrackingListener (se_Net ?env) (Listen test_config) = Ok 7" using test_listens by simp
  moreover obtain s2 where "FindMetaStore ?env test_config = Ok (BoltMeta s2)"
    by (simp add: FindMetaStore_def NewMetaStore_def test_config_def default_configuration_def)
  moreover obtain c2 where "findContentStore ?env test_config = Ok (FileContent c2)"
    using NewContentStore_again [OF test_fs_new]
    by (auto simp: findContentStore_def file_content_def test_config_def default_configuration_def)
  ultimately have again: "Main ?env test_config [] = Serves (Tracked 7) (BoltMeta s2) (FileContent c2)"
    by (simp add: Main_def test_plain)
  note keep = restart_keeps_everything [OF test_main test_world run test_mux_law refl again]
  show ?thesis by (intro exI conjI, rule run, rule refl, rule again, rule conjunct1 [OF keep])
qed

end
