(* ===== verification/Cassandra_Facts.thy ===== *)
theory Cassandra_Facts
  imports Cassandra_Store
begin

text \<open>
  Properties of the Cassandra metadata store: which logins it accepts, compared with the
  Bolt store; what a failing \<^verbatim>\<open>Put\<close> leaves behind; what the listing of the users shows; and
  the statement that an OID can turn into another.
\<close>

section \<open>The two user tables\<close>

text \<open>
  A Bolt database and a Cassandra cluster hold the same accounts: a name that has a hash in
  one has it in the other.
\<close>

definition same_users :: "'db bolt_api \<Rightarrow> 'db \<Rightarrow> 'cdb cql_api \<Rightarrow> 'cdb \<Rightarrow> bool" where
  "same_users B db Q cdb \<longleftrightarrow>
     b_Bucket B db usersBucket \<and>
     (\<forall>user. if text_of (user_table Q cdb user) ''username'' = [] then blob_string (b_Get B db usersBucket user) = []
             else blob_string (b_Get B db usersBucket user) = text_of (user_table Q cdb user) ''password'')"

lemma cass_authenticate_users:
  assumes same: "same_users (be_Bolt benv) db (ce_Cql cenv) cdb" and law: "\<And>p. bc_Compare (be_Bcrypt benv) [] p \<noteq> None"
    and env: "ce_Config cenv = be_Config benv" "ce_Bcrypt cenv = be_Bcrypt benv" "ce_Ldap cenv = be_Ldap benv"
  shows "cass_authenticate cenv cdb a = authenticate benv db a"
proof (cases "basic_credentials a")
  case (Some up)
  obtain user password where up: "up = (user, password)" by fastforce
  let ?r = "user_table (ce_Cql cenv) cdb user"
  have bk: "b_Bucket (be_Bolt benv) db usersBucket" using same by (simp add: same_users_def)
  have bolt: "blob_string (b_Get (be_Bolt benv) db usersBucket user) =
      (if text_of ?r ''username'' = [] then [] else text_of ?r ''password'')"
    using same by (metis same_users_def)
  have found: "cass_findUser (ce_Cql cenv) cdb user =
      (if text_of ?r ''username'' = [] then Err ErrUserNotFound
       else Ok \<lparr>mu_Name = text_of ?r ''username'', mu_Password = text_of ?r ''password''\<rparr>)"
    by (simp add: cass_findUser_def user_table_def Let_def)
  show ?thesis
    using Some up bk bolt found law [of password] env
    by (simp add: cass_authenticate_def authenticate_def checkPass_def Let_def)
qed (simp add: cass_authenticate_def authenticate_def env)

lemma subset_one: "S \<subseteq> {x} \<Longrightarrow> a \<noteq> b \<Longrightarrow> a \<notin> S \<or> b \<notin> S"
  by blast

section \<open>Properties\<close>

text \<open>
  C23: with the same configuration and the same accounts the Bolt store and the Cassandra
  store accept and refuse the same \<^verbatim>\<open>Authorization\<close> headers, whatever their bytes.
\<close>

theorem stores_authenticate_alike:
  assumes "same_users (be_Bolt benv) db (ce_Cql cenv) cdb" and "bcrypt_laws (be_Bcrypt benv)"
    and "ce_Config cenv = be_Config benv" and "ce_Bcrypt cenv = be_Bcrypt benv" and "ce_Ldap cenv = be_Ldap benv"
  shows "cass_authenticate cenv cdb = authenticate benv db"
proof
  fix a
  show "cass_authenticate cenv cdb a = authenticate benv db a"
    using assms(2) by (intro cass_authenticate_users [OF assms(1) _ assms(3-5)]) (simp add: bcrypt_laws_def)
qed

lemma stores_authenticate_alike_witness:
  "\<exists>db. AddUser (mem_env False) mem_fresh ''bilbo'' ''ring'' = (db, Ok ()) \<and>
     cass_authenticate (mem_cass_env False) (mem_cass_start\<lparr>mc_users := fmap_of_list [(''bilbo'', ''$ring'')]\<rparr>) =
     authenticate (mem_env False) db"
proof -
  let ?c = "mem_cass_start\<lparr>mc_users := fmap_of_list [(''bilbo'', ''$ring'')]\<rparr>"
  obtain db where add: "AddUser (mem_env False) mem_fresh ''bilbo'' ''ring'' = (db, Ok ())"
    and get: "b_Get mem_bolt db usersBucket = [''bilbo'' \<mapsto> Bytes ''$ring'']" "b_Bucket mem_bolt db usersBucket"
  proof -
    obtain db where put: "b_Put mem_bolt mem_fresh usersBucket ''bilbo'' (Bytes ''$ring'') = Inr db"
      by (simp add: mem_bolt_def)
    have "b_Commit mem_bolt db = None" by (simp add: mem_bolt_def)
    then have "AddUser (mem_env False) mem_fresh ''bilbo'' ''ring'' = (db, Ok ())"
      using put by (simp add: AddUser_alt db_Update_def mem_bcrypt_def)
    then show thesis using bolt_put [OF mem_bolt_laws put] by (intro that [of db]) simp_all
  qed
  have "same_users mem_bolt db mem_cql ?c"
    using get by (simp add: same_users_def mem_cql_tables text_of_def)
  then show ?thesis
    using stores_authenticate_alike [of "mem_env False" db "mem_cass_env False" ?c] add mem_bcrypt_laws
    by (simp add: mem_env_def mem_cass_env_def)
qed

text \<open>
  \<^verbatim>\<open>Put\<close> stores the OID first.  When a later statement fails it panics, the client gets no
  answer, and the object is known from then on: the same request, repeated, is told that
  the object exists, and no project lists it.
\<close>

theorem cassandra_put_fails_after_storing:
  assumes documented: "cql_laws (ce_Cql env) T" "cql_answered (ce_Cql env)"
    and auth: "cass_authenticate env db (rv_Authorization v) = Ok True"
    and new: "cass_objs env db (rv_Oid v) = None"
    and stored: "cass_createOid (ce_Cql env) db (rv_Oid v) (rv_Size v) = (db1, None)"
    and repo: "rv_Repo v \<noteq> []" "cass_findProject (ce_Cql env) db1 (rv_Repo v) = Ok p"
    and fails: "cass_addOidToProject (ce_Cql env) db1 (rv_Oid v) (rv_Repo v) = (db2, Some e)"
  shows "cass_Put env db v = (db2, Panic e) \<and>
    cass_Put env db2 v = (db2, Ok ((cass_new_object v)\<lparr>mo_Existing := True\<rparr>))"
proof -
  note laws = cql_steady_if_answered [OF documented]
  have get: "cass_Get env db v = Err ErrObjectNotFound"
    using auth new by (cases rule: cass_findOid_cases [of env db "rv_Oid v"]) (simp_all add: cass_Get_def)
  have put: "cass_Put env db v = (db2, Panic e)"
    using auth get stored repo fails by (simp add: cass_Put_def cass_put_project_def)
  have "cass_objs env db2 (rv_Oid v) = Some (cass_new_object v) \<and>
      cass_authenticate env db2 = cass_authenticate env db"
  proof -
    have x: "cq_Exec (ce_Cql env) db cql_insert_oid [Text (rv_Oid v), Bigint (rv_Size v)] = (db1, None)"
      using stored by (simp add: cass_createOid_def)
    have "cass_objs env db1 = (cass_objs env db)(rv_Oid v \<mapsto> cass_new_object v)"
      by (cases rule: cql_steady_oid [OF laws x]) (simp_all add: cass_objs_stored)
    moreover have "cass_objs env db2 = cass_objs env db1"
      using cql_steady_projects(1) [OF laws on_projects_statements(2)] fails
      by (intro cass_objs_frame) (auto simp: cass_addOidToProject_def)
    ultimately show ?thesis using cass_Put_frame [OF laws put] by simp
  qed
  then show ?thesis using put cass_Put_found [of env db2 v] auth by simp
qed

lemma cassandra_put_fails_after_storing_witness:
  "\<exists>db e m. cass_Put (mem_cass_env True) mem_cass_start (zero_vars\<lparr>rv_Oid := ''a'', rv_Repo := ''repo''\<rparr>) =
       (db, Panic e) \<and>
     cass_Put (mem_cass_env True) db (zero_vars\<lparr>rv_Oid := ''a'', rv_Repo := ''repo''\<rparr>) = (db, Ok m) \<and> mo_Existing m"
proof -
  let ?v = "zero_vars\<lparr>rv_Oid := ''a'', rv_Repo := ''repo''\<rparr>"
  let ?db = "mem_cass_start\<lparr>mc_oids := fmupd ''a'' 0 fmempty\<rparr>"
  have new: "cass_objs (mem_cass_env True) mem_cass_start (rv_Oid ?v) = None"
    by (simp add: cass_objs_def cass_findOid_alt mem_cql_tables mem_cass_start_def text_of_def)
  have stored: "cass_createOid mem_cql mem_cass_start (rv_Oid ?v) (rv_Size ?v) = (?db, None)"
    by (simp add: cass_createOid_def mem_cql_def mem_cass_start_def zero_vars_def)
  have found: "cass_findProject mem_cql ?db (rv_Repo ?v) = Ok \<lparr>mp_Name = ''repo'', mp_Oids = []\<rparr>"
    by (simp add: cass_findProject_def first_row_def mem_cql_def [THEN arg_cong, of cq_Iter] mem_cass_start_def text_of_def set_of_def)
  have "cql_add_oid ''a'' ''repo'' \<notin> {cql_insert_oid, cql_insert_user, cql_delete_user, cql_insert_project}"
    by (simp add: cql_add_oid_def cql_insert_oid_def cql_insert_user_def cql_delete_user_def cql_insert_project_def)
  then have fails: "cass_addOidToProject mem_cql ?db (rv_Oid ?v) (rv_Repo ?v) = (?db, Some (ErrExt ''timeout''))"
    by (simp add: cass_addOidToProject_def mem_cql_def mem_cass_start_def)
  have "cass_authenticate (mem_cass_env True) mem_cass_start a = Ok True" for a by (simp add: cass_authenticate_def)
  then show ?thesis
    using cassandra_put_fails_after_storing [of "mem_cass_env True" mem_tables mem_cass_start ?v ?db _ ?db]
      mem_cql_laws mem_cql_answered new stored found fails by fastforce
qed

text \<open>
  The listing of the users shows one user as often as there are users: as soon as two
  of them have different names, a name is missing from the list.
\<close>

theorem cassandra_users_listing_loses_names:
  assumes "\<not> Ldap_Enabled (Ldap (ce_Config env))" and "cass_Users env db = Ok us"
    and "r1 \<in> set (all_rows (ce_Cql env) db cql_select_users [])"
    and "r2 \<in> set (all_rows (ce_Cql env) db cql_select_users [])"
    and "text_of r1 ''username'' \<noteq> text_of r2 ''username''"
  shows "length us = length (all_rows (ce_Cql env) db cql_select_users []) \<and>
    (\<exists>r. r \<in> set (all_rows (ce_Cql env) db cql_select_users []) \<and> text_of r ''username'' \<notin> mu_Name ` set us)"
proof -
  let ?rs = "all_rows (ce_Cql env) db cql_select_users []"
  let ?f = "\<lambda>r. \<lparr>mu_Name = text_of r ''username'', mu_Password = []\<rparr>"
  have us: "us = map (\<lambda>_. last (map ?f ?rs)) (map ?f ?rs)" using assms(1,2) by (simp add: cass_Users_def Let_def)
  then have "mu_Name ` set us \<subseteq> {mu_Name (last (map ?f ?rs))}" by auto
  then have "text_of r1 ''username'' \<notin> mu_Name ` set us \<or> text_of r2 ''username'' \<notin> mu_Name ` set us"
    using assms(5) by (rule subset_one)
  moreover have "length us = length ?rs" unfolding us by simp
  ultimately show ?thesis using assms(3,4) by blast
qed

lemma cassandra_users_listing_loses_names_witness:
  "\<exists>us. cass_Users (mem_cass_env True) (mem_cass_start\<lparr>mc_users := fmap_of_list [(''a'', ''x''), (''b'', ''y'')]\<rparr>) = Ok us \<and>
     length us = 2 \<and> \<not> {''a'', ''b''} \<subseteq> mu_Name ` set us"
proof -
  let ?db = "mem_cass_start\<lparr>mc_users := fmap_of_list [(''a'', ''x''), (''b'', ''y'')]\<rparr>"
  have "fmdom (mc_users ?db) = {|''a'', ''b''|}" by (simp add: finsert_commute)
  moreover have "sorted_list_of_fset {|''a'', ''b''|} = [''a'', ''b'']" by (simp add: sorted_list_of_fset.rep_eq)
  ultimately have rows: "all_rows mem_cql ?db cql_select_users [] = [[(''username'', Text ''a'')], [(''username'', Text ''b'')]]"
    unfolding mem_cql_users by (simp only: list.map)
  obtain us where us: "cass_Users (mem_cass_env True) ?db = Ok us"
    using mem_cass_env_simps(4) [of True] by (simp only: cass_Users_def Let_def if_False outcome.inject)
  have "length us = length (all_rows mem_cql ?db cql_select_users []) \<and>
      (\<exists>r. r \<in> set (all_rows mem_cql ?db cql_select_users []) \<and> text_of r ''username'' \<notin> mu_Name ` set us)"
    using cassandra_users_listing_loses_names [OF _ us, of "[(''username'', Text ''a'')]" "[(''username'', Text ''b'')]"]
    unfolding mem_cass_env_simps rows by (simp add: text_of_def)
  then have "length us = 2" "\<exists>u. u \<in> {''a'', ''b''} \<and> u \<notin> mu_Name ` set us"
    unfolding rows by (auto simp: text_of_def)
  then show ?thesis using us by blast
qed

text \<open>
  The OID of a request goes into the statement as it is.  An OID that closes the quote
  makes of the update of one project, up to a trailing comment, the update of any other
  with any OID.
\<close>

theorem cassandra_oid_rewrites_statement:
  "cql_add_oid (oid @ quote @ ''} where name = '' @ quote @ other @ quote @ '' --'') project =
     cql_add_oid oid other @ '' --'' @ quote @ ''} where name = '' @ quote @ project @ quote"
  by (simp add: cql_add_oid_def)

end
