(* ===== verification/User_Service.thy ===== *)
theory User_Service
  imports Http Go_Base64
begin

text \<open>
  \<^verbatim>\<open>user_service.go\<close> and \<^verbatim>\<open>downloader.go\<close>: asking an external service whether a user may act on
  a project.  The HTTP client and the lexical side of JSON are parameters.  A user service is
  one value; its pointers are the fields that may be \<open>None\<close>.
\<close>

section \<open>The state\<close>

record UserAccessResponse =
  ua_Access :: bool
  ua_Status :: bytes
  ua_Message :: bytes
  ua_RawResponse :: bytes
  ua_Filled :: bool

record Downloader =
  dl_Url :: bytes
  dl_Response :: "bytes option"
  dl_Status :: bytes

record UserService =
  us_Downloader :: Downloader
  us_Username :: bytes
  us_Project :: bytes
  us_Action :: bytes
  us_UserAccessResponse :: "UserAccessResponse option"

definition NewDownloader :: "bytes \<Rightarrow> Downloader" where
  "NewDownloader url = \<lparr>dl_Url = url, dl_Response = None, dl_Status = []\<rparr>"

text \<open>\<open>get\<close> is \<^verbatim>\<open>http.Get\<close> and the reading of the body: the status line and the bytes.\<close>

type_synonym http_get = "bytes \<Rightarrow> GoError + bytes \<times> bytes"

definition GetPage :: "http_get \<Rightarrow> Downloader \<Rightarrow> Downloader \<times> GoError option" where
  "GetPage get d =
     (if dl_Response d \<noteq> None then (d, None)
      else case get (dl_Url d) of
          Inl e \<Rightarrow> (d, Some e)
        | Inr (status, body) \<Rightarrow> (d\<lparr>dl_Status := status, dl_Response := Some body\<rparr>, None))"

section \<open>Creating a service\<close>

definition AllowedActions :: "bytes list" where
  "AllowedActions = [''download'', ''push'', ''force_push'', ''admin'']"

definition vetAction :: "UserService \<Rightarrow> bool" where
  "vetAction us \<longleftrightarrow> list_ex (\<lambda>b. b = us_Action us) AllowedActions"

definition service_url :: "bytes \<Rightarrow> bytes \<Rightarrow> bytes \<Rightarrow> bytes \<Rightarrow> bytes" where
  "service_url base username project action =
     base @ ''?username='' @ username @ ''&project='' @ project @ ''&action='' @ action"

text \<open>An action that is not allowed leaves a message behind, and nothing else.\<close>

definition NewUserService :: "bytes \<Rightarrow> bytes \<Rightarrow> bytes \<Rightarrow> bytes \<Rightarrow> UserService" where
  "NewUserService base username project action =
     (let resp = \<lparr>ua_Access = False, ua_Status = [], ua_Message = [], ua_RawResponse = [], ua_Filled = False\<rparr>;
          us = \<lparr>us_Downloader = NewDownloader (service_url base username project action),
                us_Username = username, us_Project = project, us_Action = action,
                us_UserAccessResponse = Some resp\<rparr>
      in if \<not> vetAction us then
           us\<lparr>us_UserAccessResponse := Some (resp\<lparr>ua_Message := action @ '' is not in AllowedActions''\<rparr>)\<rparr>
         else us)"

section \<open>Decoding the answer\<close>

fun json_bool :: "json \<Rightarrow> bool \<Rightarrow> bool \<times> bool" where
  "json_bool (JBool b) old = (b, True)"
| "json_bool JNull old = (old, True)"
| "json_bool _ old = (old, False)"

fun json_byte :: "json \<Rightarrow> char \<Rightarrow> char \<times> bool" where
  "json_byte (JInt i) old = (if 0 \<le> i \<and> i \<le> 255 then (char_of (nat i), True) else (old, False))"
| "json_byte JNull old = (old, True)"
| "json_byte _ old = (old, False)"

text \<open>
  An array is decoded over the elements already there; new elements start as zero.  (They
  are the bytes of the page, which the downloader shares and nobody reads again unless the
  decoding fails.)
\<close>

fun json_byte_array :: "json list \<Rightarrow> bytes \<Rightarrow> bytes \<times> bool" where
  "json_byte_array [] old = ([], True)"
| "json_byte_array (v # vs) old =
     (let (c, fits) = json_byte v (case old of [] \<Rightarrow> CHR 0x00 | o1 # _ \<Rightarrow> o1);
          (cs, rest_fits) = json_byte_array vs (case old of [] \<Rightarrow> [] | _ # os \<Rightarrow> os)
      in (c # cs, fits \<and> rest_fits))"

text \<open>A byte slice is written in Base64 or as an array of numbers.\<close>

fun json_bytes :: "json \<Rightarrow> bytes \<Rightarrow> bytes \<times> bool" where
  "json_bytes (JStr s) old =
     (case DecodeString std_alphabet s of None \<Rightarrow> (old, False) | Some b \<Rightarrow> (b, True))"
| "json_bytes JNull old = ([], True)"
| "json_bytes (JArr vs) old = json_byte_array vs old"
| "json_bytes _ old = (old, False)"

definition set_answer :: "bytes \<Rightarrow> json \<Rightarrow> UserAccessResponse \<Rightarrow> UserAccessResponse \<times> bool" where
  "set_answer key v p =
     (let k = fold_key key in
      if k = ''access'' then apfst (\<lambda>b. p\<lparr>ua_Access := b\<rparr>) (json_bool v (ua_Access p))
      else if k = ''status'' then apfst (\<lambda>s. p\<lparr>ua_Status := s\<rparr>) (json_string v (ua_Status p))
      else if k = ''message'' then apfst (\<lambda>s. p\<lparr>ua_Message := s\<rparr>) (json_string v (ua_Message p))
      else if k = ''rawresponse'' then apfst (\<lambda>s. p\<lparr>ua_RawResponse := s\<rparr>) (json_bytes v (ua_RawResponse p))
      else if k = ''filled'' then apfst (\<lambda>b. p\<lparr>ua_Filled := b\<rparr>) (json_bool v (ua_Filled p))
      else (p, True))"

fun decode_answer_fields :: "(bytes \<times> json) list \<Rightarrow> UserAccessResponse \<Rightarrow> UserAccessResponse \<times> bool" where
  "decode_answer_fields [] p = (p, True)"
| "decode_answer_fields ((k, v) # kvs) p =
     (let (p', fits) = set_answer k v p; (p'', rest_fits) = decode_answer_fields kvs p'
      in (p'', fits \<and> rest_fits))"

text \<open>The destination is a pointer to the struct; \<^verbatim>\<open>null\<close> makes it nil.\<close>

fun decode_answer :: "json \<Rightarrow> UserAccessResponse \<Rightarrow> UserAccessResponse option \<times> bool" where
  "decode_answer (JObj kvs) p = apfst Some (decode_answer_fields kvs p)"
| "decode_answer JNull p = (None, True)"
| "decode_answer _ p = (Some p, False)"

section \<open>Asking\<close>

definition GetResponse ::
  "http_get \<Rightarrow> (bytes \<Rightarrow> json option) \<Rightarrow> UserService \<Rightarrow> UserService \<times> unit outcome" where
  "GetResponse get js us =
     (let d = fst (GetPage get (us_Downloader us)); us1 = us\<lparr>us_Downloader := d\<rparr>;
          body = (case dl_Response d of None \<Rightarrow> [] | Some b \<Rightarrow> b)
      in case us_UserAccessResponse us1 of
           None \<Rightarrow> (us1, Panic nil_dereference)
         | Some resp0 \<Rightarrow>
             let resp = resp0\<lparr>ua_RawResponse := body\<rparr>; us2 = us1\<lparr>us_UserAccessResponse := Some resp\<rparr>
             in case js body of
                  None \<Rightarrow> (us2, Err (ErrExt ''json''))
                | Some j \<Rightarrow>
                    (case decode_answer j resp of
                       (p, False) \<Rightarrow> (us2\<lparr>us_UserAccessResponse := p\<rparr>, Err (ErrExt ''json''))
                     | (None, True) \<Rightarrow> (us2\<lparr>us_UserAccessResponse := None\<rparr>, Panic nil_dereference)
                     | (Some resp', True) \<Rightarrow>
                         (us2\<lparr>us_UserAccessResponse := Some (resp'\<lparr>ua_Filled := True\<rparr>)\<rparr>, Ok ())))"

text \<open>\<^verbatim>\<open>Can\<close> drops the error of \<^verbatim>\<open>GetResponse\<close> and reports what the struct says.\<close>

definition Can :: "http_get \<Rightarrow> (bytes \<Rightarrow> json option) \<Rightarrow> UserService \<Rightarrow> UserService \<times> bool outcome" where
  "Can get js us =
     (case us_UserAccessResponse us of
        None \<Rightarrow> (us, Panic nil_dereference)
      | Some resp \<Rightarrow>
          let (us', res) = (if \<not> ua_Filled resp then GetResponse get js us else (us, Ok ()))
          in case res of
               Panic e \<Rightarrow> (us', Panic e)
             | _ \<Rightarrow>
                 (us', (case us_UserAccessResponse us' of
                          None \<Rightarrow> Panic nil_dereference
                        | Some resp' \<Rightarrow> Ok (ua_Access resp'))))"

section \<open>Properties\<close>

lemma new_service:
  "\<exists>resp. us_UserAccessResponse (NewUserService base u p a) = Some resp \<and> \<not> ua_Access resp \<and>
    \<not> ua_Filled resp \<and> us_Downloader (NewUserService base u p a) = NewDownloader (service_url base u p a)"
  by (simp add: NewUserService_def Let_def)

text \<open>
  What a new service answers.  If the page cannot be fetched or its body is no JSON
  value, no; if the answer decodes, what it says, which is then kept: a second question asks
  nobody.  Whether the action is an allowed one makes no difference to the answer.
\<close>

theorem user_service_answers:
  assumes "us = NewUserService base u p a" and "url = service_url base u p a"
  shows "(get url = Inl e \<longrightarrow> js [] = None \<longrightarrow> snd (Can get js us) = Ok False) \<and>
    (get url = Inr (status, body) \<longrightarrow> js body = None \<longrightarrow> snd (Can get js us) = Ok False) \<and>
    (get url = Inr (status, body) \<longrightarrow> js body = Some (JObj kvs) \<longrightarrow>
       decode_answer_fields kvs ((the (us_UserAccessResponse us))\<lparr>ua_RawResponse := body\<rparr>) = (resp, True) \<longrightarrow>
       (\<exists>us'. Can get js us = (us', Ok (ua_Access resp)) \<and>
          (\<forall>get' js'. Can get' js' us' = (us', Ok (ua_Access resp)))))"
proof -
  obtain r where r: "us_UserAccessResponse us = Some r" "\<not> ua_Access r" "\<not> ua_Filled r"
      "us_Downloader us = NewDownloader url"
    using new_service [of base u p a] assms by blast
  then show ?thesis by (auto simp: Can_def GetResponse_def GetPage_def NewDownloader_def Let_def)
qed

lemma user_service_answers_witness:
  "snd (Can (\<lambda>_. Inr (''404 Not Found'', ''nope'')) (\<lambda>_. None) (NewUserService ''http://x'' ''u'' ''p'' ''hack'')) = Ok False"
  using user_service_answers [OF refl refl, where base = "''http://x''" and u = "''u''" and p = "''p''" and a = "''hack''"
      and get = "\<lambda>_. Inr (''404 Not Found'', ''nope'')" and js = "\<lambda>_. None" and status = "''404 Not Found''"
      and body = "''nope''"] by blast

text \<open>
  An answer that does not decode can grant access.  The fields before the offending one
  have been stored, \<^verbatim>\<open>GetResponse\<close> reports the error, and \<^verbatim>\<open>Can\<close> ignores it.
\<close>

theorem malformed_answer_grants_access:
  assumes "us = NewUserService base u p a" and "get (service_url base u p a) = Inr (status, body)"
    and "js body = Some (JObj [(''access'', JBool True), (''status'', JInt n)])"
  shows "(\<exists>e. snd (GetResponse get js us) = Err e) \<and> snd (Can get js us) = Ok True"
proof -
  obtain r where r: "us_UserAccessResponse us = Some r" "\<not> ua_Filled r"
      "us_Downloader us = NewDownloader (service_url base u p a)"
    using new_service [of base u p a] assms(1) by blast
  have k: "fold_key ''access'' = ''access''" "fold_key ''status'' = ''status''"
    by (simp_all add: fold_char_def Let_def)
  have "decode_answer_fields [(''access'', JBool True), (''status'', JInt n)] x = (x\<lparr>ua_Access := True\<rparr>, False)" for x
    by (simp add: set_answer_def k Let_def del: fold_key.simps)
  then show ?thesis
    using r assms(2,3) by (simp add: Can_def GetResponse_def GetPage_def NewDownloader_def Let_def)
qed

lemma malformed_answer_grants_access_witness:
  "snd (Can (\<lambda>_. Inr (''500'', ''x'')) (\<lambda>_. Some (JObj [(''access'', JBool True), (''status'', JInt 500)]))
     (NewUserService [] ''u'' ''p'' ''push'')) = Ok True"
  using malformed_answer_grants_access [OF refl, of "\<lambda>_. Inr (''500'', ''x'')" "[]" "''u''" "''p''" "''push''"] by simp

end
