(* ===== verification/Kv_Logger.thy ===== *)
theory Kv_Logger
  imports Go_Path Lfs_Types
begin

text \<open>
  \<^verbatim>\<open>kvlogger.go\<close>: the line of a log entry, the place in the source it names, and the writing of
  lines by many requests under the mutex of the logger, where any write may fail or be short.
\<close>

section \<open>Values and places\<close>

text \<open>
  The values the program logs, each with what \<^verbatim>\<open>%v\<close> prints: strings, errors, numbers, the
  metadata behind a pointer, nil; anything else by the text it prints as.
\<close>

datatype log_value =
    LStr bytes
  | LErr GoError
  | LInt int
  | LMeta MetaObject
  | LNil
  | LOther bytes

fun log_text :: "log_value \<Rightarrow> bytes" where
  "log_text (LStr s) = s"
| "log_text (LErr e) = Error e"
| "log_text (LInt i) = Itoa i"
| "log_text (LMeta m) =
     ''&{'' @ mo_Oid m @ '' '' @ Itoa (sint (mo_Size m)) @ '' ['' @ JoinByte CHR '' '' (mo_ProjectNames m) @
     ''] '' @ (if mo_Existing m then ''true'' else ''false'') @ ''}''"
| "log_text LNil = ''<nil>''"
| "log_text (LOther s) = s"

type_synonym kv = "bytes \<rightharpoonup> log_value"

text \<open>The order in which \<^verbatim>\<open>range\<close> visits a map is arbitrary.\<close>

definition kv_order :: "kv \<Rightarrow> (bytes \<times> log_value) list \<Rightarrow> bool" where
  "kv_order data ps \<longleftrightarrow> distinct (map fst ps) \<and> map_of ps = data"

text \<open>
  \<^verbatim>\<open>runtime.Caller(n)\<close> on a stack of call sites, the innermost first; \<^verbatim>\<open>path.Base\<close>.
\<close>

record frame =
  fr_File :: bytes
  fr_Line :: int

definition Caller :: "nat \<Rightarrow> frame list \<Rightarrow> frame option" where
  "Caller n st = (if n < length st then Some (st ! n) else None)"

definition path_Base :: "bytes \<Rightarrow> bytes" where
  "path_Base p =
     (if p = [] then ''.''
      else let q = rev (dropWhile (\<lambda>c. c = slash) (rev p));
               e = rev (takeWhile (\<lambda>c. c \<noteq> slash) (rev q))
           in if e = [] then ''/'' else e)"

section \<open>The logger\<close>

text \<open>What \<^verbatim>\<open>init\<close> and the clock give: the process, its host, and the time of the entry.\<close>

record log_env =
  le_Now :: bytes
  le_Hostname :: bytes
  le_Pid :: int

definition init_logger :: "int \<Rightarrow> GoError + bytes \<Rightarrow> bytes \<Rightarrow> log_env" where
  "init_logger pid h now =
     \<lparr>le_Now = now, le_Hostname = (case h of Inl _ \<Rightarrow> ''localhost'' | Inr n \<Rightarrow> n), le_Pid = pid\<rparr>"

definition log_place :: "frame list \<Rightarrow> bytes" where
  "log_place st =
     (case Caller 2 st of
        Some f \<Rightarrow> path_Base (fr_File f) @ '':'' @ Itoa (fr_Line f)
      | None \<Rightarrow> ''???:'' @ Itoa 0)"

definition log_fields :: "(bytes \<times> log_value) list \<Rightarrow> bytes" where
  "log_fields ps = JoinByte CHR '' '' (map (\<lambda>(k, v). k @ ''='' @ log_text v) ps)"

definition log_line :: "log_env \<Rightarrow> frame list \<Rightarrow> (bytes \<times> log_value) list \<Rightarrow> bytes" where
  "log_line env st ps =
     le_Now env @ '' '' @ le_Hostname env @ '' lfs['' @ Itoa (le_Pid env) @ ''] ['' @ log_place st @ '']: '' @
     log_fields ps"

text \<open>
  \<^verbatim>\<open>Log\<close> called from the stack \<open>st\<close>, whose head is the place of the call; the call of
  \<^verbatim>\<open>Caller\<close> is at a place of its own.  \<^verbatim>\<open>Fatal\<close> calls \<^verbatim>\<open>Log\<close> and ends the process with status 1.
\<close>

definition in_Log :: frame where
  "in_Log = \<lparr>fr_File = ''kvlogger.go'', fr_Line = 48\<rparr>"

definition in_Fatal :: frame where
  "in_Fatal = \<lparr>fr_File = ''kvlogger.go'', fr_Line = 71\<rparr>"

definition KVLogger_Log :: "log_env \<Rightarrow> frame list \<Rightarrow> (bytes \<times> log_value) list \<Rightarrow> bytes \<Rightarrow> bytes" where
  "KVLogger_Log env st ps out = out @ log_line env (in_Log # st) ps @ [CHR 0x0A]"

definition KVLogger_Fatal :: "log_env \<Rightarrow> frame list \<Rightarrow> (bytes \<times> log_value) list \<Rightarrow> bytes \<Rightarrow> bytes \<times> int" where
  "KVLogger_Fatal env st ps out = (KVLogger_Log env (in_Fatal # st) ps out, 1)"

text \<open>
  \<^verbatim>\<open>Fatal\<close> names the place it was called from.  \<^verbatim>\<open>Log\<close>, called directly, names the place that
  called the function it was called in.
\<close>

lemma Fatal_names_its_place:
  "fst (KVLogger_Fatal env (f # st) ps out) =
     out @ le_Now env @ '' '' @ le_Hostname env @ '' lfs['' @ Itoa (le_Pid env) @ ''] ['' @
       path_Base (fr_File f) @ '':'' @ Itoa (fr_Line f) @ '']: '' @ log_fields ps @ [CHR 0x0A]"
  by (simp add: KVLogger_Fatal_def KVLogger_Log_def log_line_def log_place_def Caller_def)

lemma Log_names_the_caller:
  "KVLogger_Log env (f # g # st) ps out =
     out @ le_Now env @ '' '' @ le_Hostname env @ '' lfs['' @ Itoa (le_Pid env) @ ''] ['' @
       path_Base (fr_File g) @ '':'' @ Itoa (fr_Line g) @ '']: '' @ log_fields ps @ [CHR 0x0A]"
  by (simp add: KVLogger_Log_def log_line_def log_place_def Caller_def)

section \<open>Reading a line back\<close>

fun after_header :: "bytes \<Rightarrow> bytes" where
  "after_header [] = []"
| "after_header (c # cs) = (if HasPrefix (c # cs) '']: '' then drop 2 cs else after_header cs)"

definition read_fields :: "bytes \<Rightarrow> (bytes \<times> bytes) list" where
  "read_fields s =
     (if s = [] then [] else map (\<lambda>f. cut_at f (IndexByte f CHR ''='')) (SplitByte CHR '' '' s))"

lemma after_header_skip: "CHR '']'' \<notin> set p \<Longrightarrow> after_header (p @ s) = after_header s"
  by (induction p) (auto simp: HasPrefix_def)

lemma dec_digits_no: "\<not> is_digit c \<Longrightarrow> c \<notin> set (dec_digits n)"
  using dec_digits_valid [of n] by (auto simp: list_all_iff)

lemma Itoa_no: "\<not> is_digit c \<Longrightarrow> c \<noteq> CHR ''-'' \<Longrightarrow> c \<notin> set (Itoa i)"
  by (simp add: Itoa_def dec_digits_no)

lemma set_path_Base: "set (path_Base p) \<subseteq> set p \<union> {CHR ''.'', slash}"
  by (auto simp: path_Base_def Let_def dest!: set_takeWhileD set_dropWhileD)

lemma log_place_clean:
  assumes "\<forall>f \<in> set st. CHR '']'' \<notin> set (fr_File f)"
  shows "CHR '']'' \<notin> set (log_place st)"
proof -
  have no: "CHR '']'' \<notin> set (Itoa i)" for i by (rule Itoa_no) (simp_all add: is_digit_def)
  have "CHR '']'' \<notin> set (path_Base (fr_File f))" if "Caller 2 st = Some f" for f
  proof -
    have "f \<in> set st" using that by (auto simp: Caller_def split: if_splits)
    then show ?thesis using assms set_path_Base [of "fr_File f"] by auto
  qed
  then show ?thesis using no by (auto simp: log_place_def split: option.split)
qed

lemma after_header_line:
  assumes "CHR '']'' \<notin> set (le_Now env)" and "CHR '']'' \<notin> set (le_Hostname env)"
    and "\<forall>f \<in> set st. CHR '']'' \<notin> set (fr_File f)"
  shows "after_header (log_line env st ps) = log_fields ps"
proof -
  have "CHR '']'' \<notin> set (Itoa (le_Pid env))" by (rule Itoa_no) (simp_all add: is_digit_def)
  then have "after_header (log_line env st ps) = after_header (''] ['' @ log_place st @ '']: '' @ log_fields ps)"
    using assms(1,2) after_header_skip [of "le_Now env @ '' '' @ le_Hostname env @ '' lfs['' @ Itoa (le_Pid env)"]
    by (simp add: log_line_def)
  also have "\<dots> = after_header (log_place st @ '']: '' @ log_fields ps)" by (simp add: HasPrefix_def)
  also have "\<dots> = log_fields ps"
    using after_header_skip [OF log_place_clean [OF assms(3)]] by (simp add: HasPrefix_def)
  finally show ?thesis .
qed

lemma cut_log_field: "CHR ''='' \<notin> set k \<Longrightarrow> cut_at (k @ ''='' @ t) (IndexByte (k @ ''='' @ t) CHR ''='') = (k, t)"
  using cut_at_IndexByte [of "CHR ''=''" k t] by simp

text \<open>
  A line whose keys and values hold no blank, and whose keys no equals sign, can be read
  back, whatever order the map was visited in.
\<close>

lemma log_line_reads_back:
  assumes "kv_order data ps"
    and "\<forall>(k, v) \<in> set ps. CHR '' '' \<notin> set k \<and> CHR ''='' \<notin> set k \<and> CHR '' '' \<notin> set (log_text v)"
    and "CHR '']'' \<notin> set (le_Now env)" and "CHR '']'' \<notin> set (le_Hostname env)"
    and "\<forall>f \<in> set st. CHR '']'' \<notin> set (fr_File f)"
  shows "map_of (read_fields (after_header (log_line env st ps))) = map_option log_text \<circ> data"
proof -
  have "read_fields (log_fields ps) = map (\<lambda>(k, v). (k, log_text v)) ps"
  proof (cases "ps = []")
    case True
    then show ?thesis by (simp add: log_fields_def read_fields_def)
  next
    case False
    let ?fs = "map (\<lambda>(k, v). k @ ''='' @ log_text v) ps"
    have "SplitByte CHR '' '' (log_fields ps) = ?fs"
      unfolding log_fields_def using False assms(2) by (intro SplitByte_JoinByte) auto
    moreover have "log_fields ps \<noteq> []"
      using False by (cases ps; cases "tl ps") (auto simp: log_fields_def)
    ultimately show ?thesis
      using assms(2) cut_log_field by (auto simp: read_fields_def)
  qed
  then have "map_of (read_fields (log_fields ps)) = map_option log_text \<circ> map_of ps" by (simp add: map_of_map)
  then show ?thesis using assms(1) after_header_line [OF assms(3-5)] by (simp add: kv_order_def)
qed

text \<open>
  Values are written as they are.  Whoever chooses a logged value can end the entry and go on
  with one of any process and place; and the metadata of a searched object is logged with its
  OID, which whoever announced it chose.
\<close>

lemma JoinByte_snoc: "JoinByte c (xs @ [x]) = (if xs = [] then x else JoinByte c xs @ c # x)"
proof (induction xs)
  case (Cons y ys)
  then show ?case by (cases ys) simp_all
qed simp

lemma log_value_forges_entry:
  "KVLogger_Log env st (ps @ [(k, LStr (v @ [CHR 0x0A] @ log_line env' (in_Log # st') ps'))]) out =
   KVLogger_Log env' st' ps' (KVLogger_Log env st (ps @ [(k, LStr v)]) out)"
  by (simp add: KVLogger_Log_def log_line_def log_fields_def JoinByte_snoc)

lemma searched_oid_breaks_entry:
  "\<exists>rest. KVLogger_Log env st (ps @ [(k, LMeta (m\<lparr>mo_Oid := v @ [CHR 0x0A] @ line\<rparr>))]) out =
     KVLogger_Log env st (ps @ [(k, LStr (''&{'' @ v))]) out @ line @ rest"
  by (simp add: KVLogger_Log_def log_line_def log_fields_def JoinByte_snoc)

section \<open>Many requests at once\<close>

definition entry_text :: "bytes \<Rightarrow> bytes" where
  "entry_text l = l @ [CHR 0x0A]"

lemma Log_entry: "KVLogger_Log env st ps out = out @ entry_text (log_line env (in_Log # st) ps)"
  by (simp add: KVLogger_Log_def entry_text_def)

text \<open>
  \<^verbatim>\<open>Log\<close> composes its line, takes the mutex, writes, and gives the mutex back.  A write may
  reach the output in several parts, and it may fail after any of them: \<^verbatim>\<open>Fprint\<close> then returns an
  error, which the code drops before it gives the mutex back all the same.  A call that has
  returned is remembered with the number of bytes that reached the output and whether the
  write succeeded; a writer that wrote less than it was given does not succeed.
\<close>

datatype log_phase =
    Composed bytes
  | Writing bytes nat   \<comment> \<open>the mutex held, so many bytes written\<close>
  | Returned bytes nat bool

record log_state =
  ls_out :: bytes
  ls_mu :: "nat option"
  ls_calls :: "nat \<Rightarrow> log_phase option"

inductive log_step :: "log_state \<Rightarrow> log_state \<Rightarrow> bool" where
  compose: "ls_calls s k = None \<Longrightarrow> log_step s (s\<lparr>ls_calls := (ls_calls s)(k \<mapsto> Composed l)\<rparr>)"
| lock: "ls_calls s k = Some (Composed l) \<Longrightarrow> ls_mu s = None \<Longrightarrow>
    log_step s (s\<lparr>ls_mu := Some k, ls_calls := (ls_calls s)(k \<mapsto> Writing l 0)\<rparr>)"
| chunk: "ls_calls s k = Some (Writing l i) \<Longrightarrow> i + n \<le> length (entry_text l) \<Longrightarrow>
    log_step s (s\<lparr>ls_out := ls_out s @ take n (drop i (entry_text l)),
      ls_calls := (ls_calls s)(k \<mapsto> Writing l (i + n))\<rparr>)"
| unlock: "ls_calls s k = Some (Writing l i) \<Longrightarrow> (wrote \<Longrightarrow> i = length (entry_text l)) \<Longrightarrow>
    log_step s (s\<lparr>ls_mu := None, ls_calls := (ls_calls s)(k \<mapsto> Returned l i wrote)\<rparr>)"

inductive_cases log_stepE [consumes 1, case_names compose lock chunk unlock]: "log_step s s'"

definition log_start :: "bytes \<Rightarrow> log_state" where
  "log_start out = \<lparr>ls_out = out, ls_mu = None, ls_calls = Map.empty\<rparr>"

text \<open>What a call has contributed to the output, and the calls \<open>ks\<close>, one after the other.\<close>

fun part_of :: "log_phase \<Rightarrow> bytes" where
  "part_of (Composed l) = []"
| "part_of (Writing l i) = take i (entry_text l)"
| "part_of (Returned l i wrote) = take i (entry_text l)"

definition entries :: "log_state \<Rightarrow> nat list \<Rightarrow> bytes" where
  "entries s ks = concat (map (\<lambda>k. part_of (the (ls_calls s k))) ks)"

text \<open>What the holder of the mutex has written of its own entry.\<close>

definition unfinished :: "log_state \<Rightarrow> bytes" where
  "unfinished s =
     (case ls_mu s of None \<Rightarrow> []
      | Some k \<Rightarrow> (case ls_calls s k of Some (Writing l i) \<Rightarrow> take i (entry_text l) | _ \<Rightarrow> []))"

text \<open>
  Exactly the holder of the mutex is writing, and a call whose write succeeded has written its
  whole entry.
\<close>

definition log_mutex :: "log_state \<Rightarrow> bool" where
  "log_mutex s \<longleftrightarrow>
     (\<forall>k. ls_mu s = Some k \<longleftrightarrow> (\<exists>l i. ls_calls s k = Some (Writing l i))) \<and>
     (\<forall>k l i. ls_calls s k = Some (Returned l i True) \<longrightarrow> i = length (entry_text l))"

text \<open>
  The output holds what the calls that have returned wrote, each once, and then the part
  that the holder of the mutex has written.
\<close>

definition log_inv :: "bytes \<Rightarrow> log_state \<Rightarrow> bool" where
  "log_inv out s \<longleftrightarrow> log_mutex s \<and>
     (\<exists>ks. distinct ks \<and> set ks = {k. \<exists>l i wrote. ls_calls s k = Some (Returned l i wrote)} \<and>
        ls_out s = out @ entries s ks @ unfinished s)"

lemma entries_cong:
  "(\<And>k. k \<in> set ks \<Longrightarrow> ls_calls s' k = ls_calls s k) \<Longrightarrow> entries s' ks = entries s ks"
  by (simp add: entries_def cong: map_cong)

lemma entries_snoc: "entries s (ks @ [k]) = entries s ks @ part_of (the (ls_calls s k))"
  by (simp add: entries_def)

lemma log_step_mutex:
  assumes "log_step s s'" and "log_mutex s"
  shows "log_mutex s'"
  using assms(1)
proof (cases rule: log_stepE)
  case (unlock k l i wrote)
  then have "ls_mu s = Some k" using assms(2) by (auto simp: log_mutex_def)
  then have "\<not> (\<exists>l i. ls_calls s j = Some (Writing l i))" if "j \<noteq> k" for j
    using assms(2) that unfolding log_mutex_def by (metis option.inject)
  then show ?thesis using unlock(1,3) assms(2) by (simp add: log_mutex_def)
qed (use assms(2) in \<open>force simp: log_mutex_def\<close>)+

text \<open>A call that has not returned adds to the output what it adds to the unfinished part.\<close>

lemma log_inv_frame:
  assumes iv: "log_inv out s" and mutex: "log_mutex s'"
    and calls: "ls_calls s' = (ls_calls s)(k \<mapsto> c)"
    and k: "\<nexists>l i w. ls_calls s k = Some (Returned l i w)" "\<nexists>l i w. c = Returned l i w"
    and out: "\<And>p. ls_out s = p @ unfinished s \<Longrightarrow> ls_out s' = p @ unfinished s'"
  shows "log_inv out s'"
proof -
  obtain ks where ks: "distinct ks" "set ks = {k. \<exists>l i w. ls_calls s k = Some (Returned l i w)}"
    and o: "ls_out s = out @ entries s ks @ unfinished s"
    using iv unfolding log_inv_def by blast
  have "entries s' ks = entries s ks" using ks(2) k(1) calls by (intro entries_cong) auto
  moreover have "set ks = {j. \<exists>l i w. ls_calls s' j = Some (Returned l i w)}" using ks(2) k calls by auto
  moreover have "ls_out s' = out @ entries s ks @ unfinished s'" using out [of "out @ entries s ks"] o by simp
  ultimately show ?thesis using ks(1) mutex unfolding log_inv_def by metis
qed

lemma log_step_inv:
  assumes "log_step s s'" and iv: "log_inv out s"
  shows "log_inv out s'"
proof -
  have mutex: "log_mutex s" using iv by (simp add: log_inv_def)
  note mutex' = log_step_mutex [OF assms(1) this]
  have held: "ls_mu s = Some k" if "ls_calls s k = Some (Writing l i)" for k l i
    using mutex that by (auto simp: log_mutex_def)
  from assms(1) show ?thesis
  proof (cases rule: log_stepE)
    case (compose k l)
    then have "ls_mu s \<noteq> Some k" using mutex by (auto simp: log_mutex_def)
    then have "unfinished s' = unfinished s" using compose by (auto simp: unfinished_def split: option.split)
    then show ?thesis using compose by (intro log_inv_frame [OF iv mutex', of k "Composed l"]) simp_all
  next
    case (lock k l)
    then have "unfinished s' = unfinished s" by (simp add: unfinished_def)
    then show ?thesis using lock by (intro log_inv_frame [OF iv mutex', of k "Writing l 0"]) simp_all
  next
    case (chunk k l i n)
    then have "unfinished s' = unfinished s @ take n (drop i (entry_text l))"
      using held [OF chunk(2)] by (simp add: unfinished_def take_add)
    then show ?thesis using chunk by (intro log_inv_frame [OF iv mutex', of k "Writing l (i + n)"]) simp_all
  next
    case (unlock k l i w)
    obtain ks where ks: "distinct ks" "set ks = {k. \<exists>l i w. ls_calls s k = Some (Returned l i w)}"
      and o: "ls_out s = out @ entries s ks @ unfinished s"
      using iv unfolding log_inv_def by blast
    have new: "k \<notin> set ks" using ks(2) unlock(2) by auto
    then have "entries s' ks = entries s ks" using unlock(1) by (intro entries_cong) auto
    then have "entries s' (ks @ [k]) = entries s ks @ take i (entry_text l)"
      unfolding entries_snoc using unlock(1) by simp
    moreover have "unfinished s = take i (entry_text l)" using unlock(2) held [OF unlock(2)] by (simp add: unfinished_def)
    moreover have "unfinished s' = []" using unlock(1) by (simp add: unfinished_def)
    moreover have "set (ks @ [k]) = {j. \<exists>l i w. ls_calls s' j = Some (Returned l i w)}" using unlock ks(2) by auto
    ultimately have "ls_out s' = out @ entries s' (ks @ [k]) @ unfinished s'" using unlock(1) o by simp
    moreover have "distinct (ks @ [k])" using ks(1) new by simp
    ultimately show ?thesis
      using mutex' \<open>set (ks @ [k]) = _\<close> unfolding log_inv_def by metis
  qed
qed

text \<open>
  C37: the entries of concurrent calls never mix, failed writes included.  When nobody
  holds the mutex, the output is what was there before and then one contiguous part for each
  call that has returned, once, and nothing else: the part is a prefix of the entry of that
  call, and the whole entry if its write did not fail.  So unless a write failed the log is
  made of whole entries, however the calls of any number of requests interleave; after a failed
  write the prefix stays and the next entry follows it on the same line.
\<close>

theorem log_entries_whole:
  assumes "log_step\<^sup>*\<^sup>* (log_start out) s" and "ls_mu s = None"
  shows "\<exists>ks. distinct ks \<and> set ks = {k. \<exists>l i wrote. ls_calls s k = Some (Returned l i wrote)} \<and>
    ls_out s = out @ concat (map (\<lambda>k. part_of (the (ls_calls s k))) ks) \<and>
    (\<forall>k l i wrote. ls_calls s k = Some (Returned l i wrote) \<longrightarrow>
       part_of (Returned l i wrote) = take i (entry_text l) \<and>
       (wrote \<longrightarrow> part_of (Returned l i wrote) = entry_text l))"
proof -
  have "log_inv out (log_start out)" by (simp add: log_inv_def log_mutex_def unfinished_def log_start_def entries_def)
  with assms(1) have "log_inv out s"
    by (induction rule: rtranclp_induct) (auto intro: log_step_inv)
  then show ?thesis using assms(2) by (auto simp: log_inv_def log_mutex_def unfinished_def entries_def)
qed

text \<open>Two calls: the write of the first fails after two bytes, the second writes its entry.\<close>

lemma log_entries_whole_witness:
  "\<exists>s ks. log_step\<^sup>*\<^sup>* (log_start ''old'') s \<and> ls_out s = ''oldnetwo'' @ [CHR 0x0A] \<and> set ks = {7, 8} \<and>
     ls_out s = ''old'' @ concat (map (\<lambda>k. part_of (the (ls_calls s k))) ks)"
proof -
  let ?at = "\<lambda>mu out p q. \<lparr>ls_out = out, ls_mu = mu, ls_calls = [7 \<mapsto> p, 8 \<mapsto> q]\<rparr>"
  let ?start = "log_start ''old''" and ?s0 = "\<lparr>ls_out = ''old'', ls_mu = None, ls_calls = [7 \<mapsto> Composed ''new'']\<rparr>"
  let ?r = "Returned ''new'' 2 False" and ?two = "''oldnetwo'' @ [CHR 0x0A]"
  let ?s1 = "?at None ''old'' (Composed ''new'') (Composed ''two'')"
  let ?s2 = "?at (Some 7) ''old'' (Writing ''new'' 0) (Composed ''two'')"
  let ?s3 = "?at (Some 7) ''oldne'' (Writing ''new'' 2) (Composed ''two'')"
  let ?s4 = "?at None ''oldne'' ?r (Composed ''two'')"
  let ?s5 = "?at (Some 8) ''oldne'' ?r (Writing ''two'' 0)"
  let ?s6 = "?at (Some 8) ?two ?r (Writing ''two'' 4)"
  let ?s7 = "?at None ?two ?r (Returned ''two'' 4 True)"
  have twist: "[7 \<mapsto> p, 8 \<mapsto> q, 7 \<mapsto> p'] = [7 :: nat \<mapsto> p', 8 \<mapsto> q]" for p q p' :: log_phase
    by (simp add: fun_eq_iff)
  have "log_step ?start ?s0" using log_step.compose [of ?start 7 "''new''"] by (simp add: log_start_def)
  moreover have "log_step ?s0 ?s1" using log_step.compose [of ?s0 8 "''two''"] by simp
  moreover have "log_step ?s1 ?s2" using log_step.lock [of ?s1 7 "''new''"] by (simp add: twist)
  moreover have "log_step ?s2 ?s3" using log_step.chunk [of ?s2 7 "''new''" 0 2] by (simp add: entry_text_def twist numeral_2_eq_2)
  moreover have "log_step ?s3 ?s4" using log_step.unlock [of ?s3 7 "''new''" 2 False] by (simp add: twist)
  moreover have "log_step ?s4 ?s5" using log_step.lock [of ?s4 8 "''two''"] by simp
  moreover have "log_step ?s5 ?s6" using log_step.chunk [of ?s5 8 "''two''" 0 4] by (simp add: entry_text_def)
  moreover have "log_step ?s6 ?s7" using log_step.unlock [of ?s6 8 "''two''" 4 True] by (simp add: entry_text_def)
  ultimately have run: "log_step\<^sup>*\<^sup>* ?start ?s7" by (meson converse_rtranclp_into_rtranclp rtranclp.rtrancl_refl)
  obtain ks where "set ks = {k. \<exists>l i w. ls_calls ?s7 k = Some (Returned l i w)}"
    "ls_out ?s7 = ''old'' @ concat (map (\<lambda>k. part_of (the (ls_calls ?s7 k))) ks)"
    using log_entries_whole [OF run] by auto
  moreover from this(1) have "set ks = {7, 8}" by (auto split: if_splits)
  ultimately show ?thesis using run by (intro exI [of _ ?s7] exI [of _ ks]) simp
qed

end
