(* ===== verification/Request_Log.thy ===== *)
theory Request_Log
  imports Kv_Logger Http Go_Sha256
begin

text \<open>
  The log of the requests: the id that \<^verbatim>\<open>ServeHTTP\<close> gives each request and the entry that
  \<^verbatim>\<open>logRequest\<close> writes when a handler has answered with a status.
\<close>

section \<open>Request ids\<close>

text \<open>
  \<^verbatim>\<open>rand.Read\<close> is a parameter: an error, or sixteen random bytes.  Without them the request
  has no id.
\<close>

definition RequestID :: "GoError + bytes \<Rightarrow> bytes option" where
  "RequestID rnd =
     (case rnd of
        Inl _ \<Rightarrow> None
      | Inr b \<Rightarrow>
          Some (hex_EncodeToString (take 4 b) @ ''-'' @ hex_EncodeToString (take 2 (drop 4 b)) @ ''-'' @
            hex_EncodeToString (take 2 (drop 6 b)) @ ''-'' @ hex_EncodeToString (take 2 (drop 8 b)) @ ''-'' @
            hex_EncodeToString (drop 10 b)))"

lemma RequestID_shape:
  assumes "length b = 16"
  obtains s where "RequestID (Inr b) = Some s" "length s = 36" "list_all (\<lambda>c. is_hex c \<or> c = CHR ''-'') s"
  using that assms hex_EncodeToString_shape
  by (simp add: RequestID_def list_all_iff) blast

lemma hex_digit_inj:
  assumes "m < 16" and "n < 16" and "hex_digit m = hex_digit n"
  shows "m = n"
proof -
  have code: "of_char (hex_digit k) = (if k < 10 then 48 + k else 87 + k)" if "k < 16" for k
    using that by (simp add: hex_digit_def)
  have "(of_char (hex_digit m) :: nat) = of_char (hex_digit n)" using assms(3) by simp
  then show ?thesis using code [OF assms(1)] code [OF assms(2)] by (simp split: if_splits)
qed

lemma hex_EncodeToString_inj: "hex_EncodeToString s = hex_EncodeToString t \<Longrightarrow> s = t"
proof (induction s arbitrary: t)
  case Nil
  then show ?case by (cases t) (simp_all add: hex_EncodeToString_def)
next
  case (Cons c s)
  then obtain d u where t: "t = d # u" by (cases t) (simp_all add: hex_EncodeToString_def)
  let ?n = "of_char :: char \<Rightarrow> nat"
  have bound: "?n x < 256" for x by (metis of_char_mod_256 mod_less_divisor zero_less_numeral)
  have "hex_digit (?n c div 16) = hex_digit (?n d div 16)" "hex_digit (?n c mod 16) = hex_digit (?n d mod 16)"
    and "hex_EncodeToString s = hex_EncodeToString u"
    using Cons.prems t by (simp_all add: hex_EncodeToString_def)
  moreover have "?n c div 16 < 16" "?n d div 16 < 16" using less_mult_imp_div_less [of _ 16 16] bound [of c] bound [of d] by simp_all
  ultimately have "?n c div 16 = ?n d div 16" "?n c mod 16 = ?n d mod 16" "s = u"
    using hex_digit_inj Cons.IH by simp_all
  then have "?n c = ?n d" by (metis div_mult_mod_eq)
  then show ?case using t \<open>s = u\<close> by simp
qed

text \<open>Requests with different random bytes have different ids.\<close>

lemma RequestID_inj:
  assumes "length a = 16" and "length b = 16" and "RequestID (Inr a) = RequestID (Inr b)"
  shows "a = b"
proof -
  let ?h = hex_EncodeToString
  have len: "length (?h s) = 2 * length s" for s using hex_EncodeToString_shape by blast
  have "?h (take 4 a) = ?h (take 4 b) \<and> ?h (take 2 (drop 4 a)) = ?h (take 2 (drop 4 b)) \<and>
    ?h (take 2 (drop 6 a)) = ?h (take 2 (drop 6 b)) \<and> ?h (take 2 (drop 8 a)) = ?h (take 2 (drop 8 b)) \<and>
    ?h (drop 10 a) = ?h (drop 10 b)"
    using assms by (simp add: RequestID_def len)
  then have parts: "take 4 a = take 4 b" "take 2 (drop 4 a) = take 2 (drop 4 b)" "take 2 (drop 6 a) = take 2 (drop 6 b)"
    "take 2 (drop 8 a) = take 2 (drop 8 b)" "drop 10 a = drop 10 b"
    by (simp_all add: hex_EncodeToString_inj)
  have whole: "s = take 4 s @ take 2 (drop 4 s) @ take 2 (drop 6 s) @ take 2 (drop 8 s) @ drop 10 s" for s :: bytes
  proof -
    have "drop 8 s = take 2 (drop 8 s) @ drop 10 s" "drop 6 s = take 2 (drop 6 s) @ drop 8 s"
      "drop 4 s = take 2 (drop 4 s) @ drop 6 s"
      using append_take_drop_id [of 2 "drop 8 s"] append_take_drop_id [of 2 "drop 6 s"]
        append_take_drop_id [of 2 "drop 4 s"] by (simp_all add: drop_drop)
    then show ?thesis using append_take_drop_id [of 4 s] by metis
  qed
  show ?thesis using whole [of a] whole [of b] parts by metis
qed

section \<open>The entry of a request\<close>

text \<open>The URL by the text it prints as.\<close>

definition logRequest :: "bytes \<Rightarrow> bytes option \<Rightarrow> request \<Rightarrow> int \<Rightarrow> kv" where
  "logRequest url rid r status =
     [''method'' \<mapsto> LStr (rq_Method r), ''url'' \<mapsto> LOther url, ''status'' \<mapsto> LInt status,
      ''request_id'' \<mapsto> (case rid of None \<Rightarrow> LNil | Some s \<Rightarrow> LStr s)]"

text \<open>
  In whatever order the fields come, the method, the URL, the status and the id of an
  answered request can be read off its line.
\<close>

lemma request_log_reads_back:
  assumes "kv_order (logRequest url (RequestID rnd) r status) ps"
    and "CHR '' '' \<notin> set (rq_Method r)" and "CHR '' '' \<notin> set url"
    and "CHR '']'' \<notin> set (le_Now env)" and "CHR '']'' \<notin> set (le_Hostname env)"
    and "\<forall>f \<in> set st. CHR '']'' \<notin> set (fr_File f)"
  defines "line \<equiv> map_of (read_fields (after_header (log_line env st ps)))"
  shows "line ''method'' = Some (rq_Method r)" and "line ''url'' = Some url"
    and "line ''status'' = Some (Itoa status)"
    and "line ''request_id'' = Some (case RequestID rnd of None \<Rightarrow> ''<nil>'' | Some s \<Rightarrow> s)"
proof -
  let ?data = "logRequest url (RequestID rnd) r status"
  have blank: "CHR '' '' \<notin> set (Itoa status)" by (rule Itoa_no) (simp_all add: is_digit_def)
  have nohex: "CHR '' '' \<notin> set (hex_EncodeToString s)" for s
  proof -
    have "\<not> is_hex CHR '' ''" by (simp add: is_hex_def)
    then show ?thesis using hex_EncodeToString_shape [of s] unfolding list_all_iff by blast
  qed
  define i where "i = (case RequestID rnd of None \<Rightarrow> LNil | Some s \<Rightarrow> LStr s)"
  have i: "log_text i = (case RequestID rnd of None \<Rightarrow> ''<nil>'' | Some s \<Rightarrow> s)"
    by (simp add: i_def split: option.split)
  moreover have "CHR '' '' \<notin> set (case RequestID rnd of None \<Rightarrow> ''<nil>'' | Some s \<Rightarrow> s)"
    by (cases rnd) (simp_all add: RequestID_def nohex)
  ultimately have id: "CHR '' '' \<notin> set (log_text i)" by simp
  have "CHR '' '' \<notin> set k \<and> CHR ''='' \<notin> set k \<and> CHR '' '' \<notin> set (log_text v)" if "?data k = Some v" for k v
  proof -
    from that consider "k = ''method''" "v = LStr (rq_Method r)" | "k = ''url''" "v = LOther url"
      | "k = ''status''" "v = LInt status" | "k = ''request_id''" "v = i"
      unfolding logRequest_def i_def [symmetric] fun_upd_apply by (auto split: if_split_asm)
    then show ?thesis by cases (use assms(2,3) blank id in simp_all)
  qed
  moreover have "?data k = Some v" if "(k, v) \<in> set ps" for k v
    using that assms(1) map_of_is_SomeI unfolding kv_order_def by metis
  ultimately have "\<forall>(k, v) \<in> set ps. CHR '' '' \<notin> set k \<and> CHR ''='' \<notin> set k \<and> CHR '' '' \<notin> set (log_text v)" by blast
  from log_line_reads_back [OF assms(1) this assms(4-6)] have "line = map_option log_text \<circ> ?data"
    by (simp add: line_def)
  then show "line ''method'' = Some (rq_Method r)" "line ''url'' = Some url"
    "line ''status'' = Some (Itoa status)"
    "line ''request_id'' = Some (case RequestID rnd of None \<Rightarrow> ''<nil>'' | Some s \<Rightarrow> s)"
    using i by (simp_all add: logRequest_def i_def)
qed

end
