(* ===== verification/Go_Helpers.thy ===== *)
theory Go_Helpers
  imports Prelude
begin

text \<open>
  Helpers that nothing in the server calls: \<^verbatim>\<open>readDir\<close> of \<^verbatim>\<open>server.go\<close>, \<^verbatim>\<open>attributes\<close> and
  \<^verbatim>\<open>cloneRequest\<close> of \<^verbatim>\<open>common.go\<close>.
\<close>

section \<open>Reading a directory deeply\<close>

text \<open>
  \<^verbatim>\<open>ioutil.ReadDir\<close> is a parameter: an error, or the names of the entries with \<^verbatim>\<open>IsDir\<close>.
  Nothing in \<^verbatim>\<open>readDir\<close> bounds the depth, so it has fuel, one unit for each directory on the way
  down; \<open>None\<close> is running out of it.
\<close>

type_synonym read_dir = "bytes \<Rightarrow> GoError + (bytes \<times> bool) list"

fun more_files :: "bytes list \<Rightarrow> bytes list outcome option \<Rightarrow> bytes list outcome option" where
  "more_files xs (Some (Ok ys)) = Some (Ok (xs @ ys))"
| "more_files xs r = r"

fun readDir :: "read_dir \<Rightarrow> nat \<Rightarrow> bytes \<Rightarrow> bytes list outcome option"
  and read_entries :: "read_dir \<Rightarrow> nat \<Rightarrow> bytes \<Rightarrow> (bytes \<times> bool) list \<Rightarrow> bytes list outcome option" where
  "readDir rd 0 path = None"
| "readDir rd (Suc n) path =
     (case rd path of
        Inl e \<Rightarrow> Some (Panic e)
      | Inr contents \<Rightarrow> read_entries rd n path contents)"
| "read_entries rd n path [] = Some (Ok [])"
| "read_entries rd n path ((name, isdir) # es) =
     (if \<not> isdir then more_files [name] (read_entries rd n path es)
      else (case readDir rd n (path @ ''/'' @ name) of
              Some (Ok xs) \<Rightarrow> more_files (map (\<lambda>x. name @ ''/'' @ x) xs) (read_entries rd n path es)
            | r \<Rightarrow> r))"

text \<open>Directory trees, what a deep listing of one should be, and a file system that holds one.\<close>

datatype file_tree = File | Dir "(bytes \<times> file_tree) list"

fun tree_info :: "bytes \<times> file_tree \<Rightarrow> bytes \<times> bool" where
  "tree_info (n, File) = (n, False)"
| "tree_info (n, Dir es) = (n, True)"

fun dir_files :: "(bytes \<times> file_tree) list \<Rightarrow> bytes list" where
  "dir_files [] = []"
| "dir_files ((n, File) # es) = n # dir_files es"
| "dir_files ((n, Dir ds) # es) = map (\<lambda>x. n @ ''/'' @ x) (dir_files ds) @ dir_files es"

fun dir_depth :: "(bytes \<times> file_tree) list \<Rightarrow> nat" where
  "dir_depth [] = 0"
| "dir_depth ((n, File) # es) = dir_depth es"
| "dir_depth ((n, Dir ds) # es) = max (Suc (dir_depth ds)) (dir_depth es)"

fun holds_below :: "read_dir \<Rightarrow> bytes \<Rightarrow> (bytes \<times> file_tree) list \<Rightarrow> bool" where
  "holds_below rd path [] \<longleftrightarrow> True"
| "holds_below rd path ((n, File) # es) \<longleftrightarrow> holds_below rd path es"
| "holds_below rd path ((n, Dir ds) # es) \<longleftrightarrow>
     rd (path @ ''/'' @ n) = Inr (map tree_info ds) \<and> holds_below rd (path @ ''/'' @ n) ds \<and>
     holds_below rd path es"

definition holds_dir :: "read_dir \<Rightarrow> bytes \<Rightarrow> (bytes \<times> file_tree) list \<Rightarrow> bool" where
  "holds_dir rd path es \<longleftrightarrow> rd path = Inr (map tree_info es) \<and> holds_below rd path es"

lemma read_entries_tree:
  "holds_below rd path es \<Longrightarrow> dir_depth es \<le> n \<Longrightarrow>
   read_entries rd n path (map tree_info es) = Some (Ok (dir_files es))"
proof (induction es arbitrary: n path rule: dir_files.induct)
  case (3 name ds es)
  then obtain m where n: "n = Suc m" "dir_depth ds \<le> m" by (cases n) auto
  have "readDir rd n (path @ ''/'' @ name) = Some (Ok (dir_files ds))" using 3 n by simp
  then show ?case using 3 by simp
qed simp_all

text \<open>With more fuel than the tree is deep the listing is complete and in the order of the entries.\<close>

lemma readDir_tree:
  "holds_dir rd path es \<Longrightarrow> dir_depth es < n \<Longrightarrow> readDir rd n path = Some (Ok (dir_files es))"
  by (cases n) (auto simp: holds_dir_def read_entries_tree)

inductive file_in :: "(bytes \<times> file_tree) list \<Rightarrow> bytes \<Rightarrow> bool" where
  here: "(n, File) \<in> set es \<Longrightarrow> file_in es n"
| below: "(n, Dir ds) \<in> set es \<Longrightarrow> file_in ds x \<Longrightarrow> file_in es (n @ ''/'' @ x)"

inductive_simps file_in_Nil [simp]: "file_in [] x"

lemma file_in_Cons:
  "file_in ((n, File) # es) x \<longleftrightarrow> x = n \<or> file_in es x"
  "file_in ((n, Dir ds) # es) x \<longleftrightarrow> (\<exists>y. x = n @ ''/'' @ y \<and> file_in ds y) \<or> file_in es x"
  unfolding file_in.simps [of "_ # es"] file_in.simps [of es] by auto

lemma dir_files_exact: "x \<in> set (dir_files es) \<longleftrightarrow> file_in es x"
  by (induction es arbitrary: x rule: dir_files.induct) (auto simp: file_in_Cons)

text \<open>A directory that cannot be read, at the top or below, is a panic.\<close>

lemma readDir_unreadable: "rd path = Inl e \<Longrightarrow> readDir rd (Suc n) path = Some (Panic e)"
  by simp

lemma readDir_unreadable_below:
  assumes "rd path = Inr (map tree_info es @ (name, True) # rest)" and "holds_below rd path es"
    and "dir_depth es \<le> Suc n" and "rd (path @ ''/'' @ name) = Inl e"
  shows "readDir rd (Suc (Suc n)) path = Some (Panic e)"
proof -
  have "read_entries rd (Suc n) path (map tree_info es @ (name, True) # rest) = Some (Panic e)"
    using assms(2,3)
  proof (induction es rule: dir_files.induct)
    case (3 m ds es)
    then have "readDir rd (Suc n) (path @ ''/'' @ m) = Some (Ok (dir_files ds))"
      using read_entries_tree [of rd "path @ ''/'' @ m" ds n] by simp
    then show ?case using 3 by simp
  qed (use assms(4) in simp_all)
  then show ?thesis using assms(1) by simp
qed

section \<open>The attributes of a struct\<close>

text \<open>
  What \<^verbatim>\<open>reflect\<close> tells of a type: a pointer, a struct with its fields (name, embedded or not,
  type), or any other type by its name.
\<close>

datatype go_type =
    Ptr go_type
  | Struct "(bytes \<times> bool \<times> go_type) list"
  | Plain bytes

fun add_attributes :: "(bytes \<times> bool \<times> go_type) list \<Rightarrow> (bytes \<rightharpoonup> go_type) \<Rightarrow> (bytes \<rightharpoonup> go_type)" where
  "add_attributes [] attrs = attrs"
| "add_attributes ((name, anonymous, t) # fs) attrs =
     add_attributes fs (if \<not> anonymous then attrs(name \<mapsto> t) else attrs)"

text \<open>The type of a nil interface is nil; asking for its kind panics.\<close>

definition attributes :: "go_type option \<Rightarrow> (bytes \<rightharpoonup> go_type) outcome" where
  "attributes m =
     (case m of
        None \<Rightarrow> Panic nil_dereference
      | Some t \<Rightarrow>
          (let typ = (case t of Ptr t' \<Rightarrow> t' | _ \<Rightarrow> t)
           in case typ of Struct fs \<Rightarrow> Ok (add_attributes fs Map.empty) | _ \<Rightarrow> Ok Map.empty))"

lemma add_attributes_notin: "name \<notin> fst ` set fs \<Longrightarrow> add_attributes fs attrs name = attrs name"
  by (induction fs attrs rule: add_attributes.induct) (auto split: if_splits)

lemma add_attributes_exact:
  "distinct (map fst fs) \<Longrightarrow>
   add_attributes fs attrs name = Some t \<longleftrightarrow>
     (name, False, t) \<in> set fs \<or> attrs name = Some t \<and> (\<forall>u. (name, False, u) \<notin> set fs)"
proof (induction fs attrs rule: add_attributes.induct)
  case (2 n an u fs attrs)
  show ?case
  proof (cases "name = n")
    case True
    with 2 add_attributes_notin [of n fs] show ?thesis by (force split: if_splits)
  next
    case False
    with 2 show ?thesis by auto
  qed
qed simp

text \<open>
  A struct and a pointer to it have the attributes of the fields that are not embedded; what
  is neither, a pointer to a pointer included, has none.
\<close>

lemma attributes_of_struct:
  assumes "distinct (map fst fs)" and "t \<in> {Struct fs, Ptr (Struct fs)}"
  shows "\<exists>attrs. attributes (Some t) = Ok attrs \<and> (\<forall>name u. attrs name = Some u \<longleftrightarrow> (name, False, u) \<in> set fs)"
  using assms add_attributes_exact [OF assms(1), of Map.empty] by (auto simp: attributes_def)

lemma attributes_of_pointer_pointer: "attributes (Some (Ptr (Ptr t))) = Ok Map.empty"
  by (simp add: attributes_def)

section \<open>Cloning a request\<close>

text \<open>
  A header is a map on the heap from names to slices, and a slice refers to its array.  The
  other fields of a request are copied with the struct.
\<close>

record go_heap =
  hp_maps :: "nat \<Rightarrow> (bytes \<rightharpoonup> nat)"
  hp_arrays :: "nat \<Rightarrow> bytes list"
  hp_next :: nat

record 'f http_req =
  hr_Fields :: 'f
  hr_Header :: "nat option"

fun header_map :: "go_heap \<Rightarrow> nat option \<Rightarrow> (bytes \<rightharpoonup> nat)" where
  "header_map h None = Map.empty"
| "header_map h (Some a) = hp_maps h a"

definition cloneRequest :: "go_heap \<Rightarrow> 'f http_req \<Rightarrow> go_heap \<times> 'f http_req" where
  "cloneRequest h r =
     (h\<lparr>hp_maps := (hp_maps h)(hp_next h := header_map h (hr_Header r)), hp_next := Suc (hp_next h)\<rparr>,
      r\<lparr>hr_Header := Some (hp_next h)\<rparr>)"

text \<open>What a request shows as its header; setting a value; writing into a slice.\<close>

definition header_values :: "go_heap \<Rightarrow> 'f http_req \<Rightarrow> bytes \<Rightarrow> bytes list option" where
  "header_values h r k = map_option (hp_arrays h) (header_map h (hr_Header r) k)"

definition header_Set :: "go_heap \<Rightarrow> nat \<Rightarrow> bytes \<Rightarrow> bytes \<Rightarrow> go_heap" where
  "header_Set h a k v =
     h\<lparr>hp_maps := (hp_maps h)(a := (hp_maps h a)(k \<mapsto> hp_next h)),
       hp_arrays := (hp_arrays h)(hp_next h := [v]), hp_next := Suc (hp_next h)\<rparr>"

definition slice_write :: "go_heap \<Rightarrow> nat \<Rightarrow> nat \<Rightarrow> bytes \<Rightarrow> go_heap" where
  "slice_write h x i v = h\<lparr>hp_arrays := (hp_arrays h)(x := (hp_arrays h x)[i := v])\<rparr>"

definition req_ok :: "go_heap \<Rightarrow> 'f http_req \<Rightarrow> bool" where
  "req_ok h r \<longleftrightarrow>
     (\<forall>a. hr_Header r = Some a \<longrightarrow> a < hp_next h) \<and> (\<forall>k x. header_map h (hr_Header r) k = Some x \<longrightarrow> x < hp_next h)"

lemma clone_same_values:
  assumes "req_ok h r" and "cloneRequest h r = (h', r')"
  shows "header_values h' r' = header_values h r" and "header_values h' r = header_values h r"
    and "hr_Fields r' = hr_Fields r"
  using assms by (cases "hr_Header r"; auto simp: cloneRequest_def header_values_def req_ok_def fun_eq_iff)+

text \<open>
  The maps are separate: setting a value of the clone leaves the request as it was.  The
  slices are shared, although the comment speaks of a deep copy: an assignment to an element
  of a value of the clone changes the request too.
\<close>

lemma clone_set_apart:
  assumes "req_ok h r" and "cloneRequest h r = (h', r')" and "hr_Header r' = Some a"
  shows "header_values (header_Set h' a k v) r = header_values h r"
proof -
  have a: "a = hp_next h" and h': "hp_next h' = Suc (hp_next h)" "hp_arrays h' = hp_arrays h"
    "hp_maps h' = (hp_maps h)(hp_next h := header_map h (hr_Header r))"
    using assms(2,3) by (auto simp: cloneRequest_def)
  have "hr_Header r \<noteq> Some a" using assms(1) a by (auto simp: req_ok_def)
  then have "header_map (header_Set h' a k v) (hr_Header r) = header_map h (hr_Header r)"
    using a h' by (cases "hr_Header r") (simp_all add: header_Set_def)
  moreover have "x \<noteq> Suc (hp_next h)" if "header_map h (hr_Header r) n = Some x" for n x
    using assms(1) that unfolding req_ok_def by fastforce
  ultimately show ?thesis
    using h' by (intro ext) (auto simp: header_values_def header_Set_def map_option_case split: option.split)
qed

lemma clone_shares_slices:
  assumes "req_ok h r" and "cloneRequest h r = (h', r')" and "header_map h' (hr_Header r') k = Some x"
  shows "header_values (slice_write h' x i v) r k = Some ((hp_arrays h x)[i := v])"
  using assms
  by (cases "hr_Header r") (auto simp: cloneRequest_def header_values_def slice_write_def req_ok_def)

end
