(* ===== verification/Spec2Isabelle.thy ===== *)
theory Spec2Isabelle
  imports Upload_Race Put_Race Lfs_Admin Lfs_Concurrent Lfs_Main Cassandra_Facts User_Service Request_Log Go_Helpers
begin

text \<open>
  A Git LFS server written in Go (package \<^verbatim>\<open>main\<close>, directory \<^verbatim>\<open>src\<close>), modelled file by file.
  A client announces an object by its OID (the SHA-256 of its content, in hexadecimal) and
  its size, uploads the content, and downloads it again; the server keeps the metadata of
  the objects in one of three databases and the contents in one of two stores.

  \<^bold>\<open>The parts and how they interact.\<close>
  \<^verbatim>\<open>main.go\<close> reads a configuration (\<^verbatim>\<open>config.go\<close>), makes a listener (\<^verbatim>\<open>tracking_listener.go\<close>),
  opens a metadata store (\<^verbatim>\<open>meta_store.go\<close> on Bolt, \<^verbatim>\<open>cassandra_meta_store.go\<close>,
  \<^verbatim>\<open>mysql_meta_store.go\<close>) and a content store (\<^verbatim>\<open>content_store.go\<close> on files,
  \<^verbatim>\<open>aws_content_store.go\<close> on S3), and serves HTTP requests with the handlers of \<^verbatim>\<open>server.go\<close>
  and of the management pages, \<^verbatim>\<open>mgmt.go\<close>.  The handlers reach the stores through the two Go
  interfaces \<^verbatim>\<open>GenericMetaStore\<close> and \<^verbatim>\<open>GenericContentStore\<close>; each metadata store decides who
  may use it, with the passwords it keeps or with LDAP (\<^verbatim>\<open>meta_store_auth.go\<close>).

  \<^bold>\<open>How Go is rendered.\<close>
  Strings and byte slices are lists of 8-bit characters, \<^verbatim>\<open>int64\<close> is a 64-bit word, structs are
  records, interface values are records of functions.  A call that may fail returns \<open>Ok\<close>,
  \<open>Err\<close> with one of the repository's errors, or \<open>Panic\<close> (Prelude); state is passed and
  returned.  The global \<^verbatim>\<open>Config\<close> is an argument.  What is not in the repository is a parameter
  with named laws where a property needs them: Bolt (\<open>bolt_laws\<close>), bcrypt (\<open>bcrypt_laws\<close>),
  Cassandra (\<open>cql_laws\<close>: what a query yields when it does not fail, and what a statement that
  succeeds does; that no query by key fails is the separate \<open>cql_answered\<close>), S3 (\<open>s3_laws\<close>), the router (\<open>mux_law\<close>: an OID of a path holds no
  separator), \<^verbatim>\<open>database/sql\<close> on MySQL (\<open>sql_laws\<close>), the LDAP client, the INI parser, templates and assets, the
  network, and the lexical side of JSON.  Each set of laws is shown to hold of an
  implementation in memory (\<open>mem_bolt\<close>, \<open>mem_bcrypt\<close>, \<open>mem_cql\<close>, \<open>table_sql\<close>, \<open>mem_s3\<close>, \<open>test_mux\<close>), on
  which the witnesses run.

  \<^bold>\<open>The theories.\<close>
  \<^item> Prelude: machine types, \<^verbatim>\<open>errors.go\<close>, outcomes, \<^verbatim>\<open>perror\<close>, shared lemmas, the collections
    \<open>go_lib\<close>, \<open>store_simps\<close> and \<open>http_simps\<close>.
  \<^item> Go_Strings, Go_Path, Go_Base64, Go_Sha256, Sha256_Vectors: what the source uses of
    \<^verbatim>\<open>strings\<close>, \<^verbatim>\<open>strconv\<close>, \<^verbatim>\<open>path/filepath\<close>, \<^verbatim>\<open>encoding/base64\<close> and \<^verbatim>\<open>crypto/sha256\<close>, with the
    lemmas the stores need (cleaned paths, decoding after encoding, the shape of a hash) and
    the hash of the content that \<^verbatim>\<open>harbour_test.go\<close> uses, evaluated by the kernel.
  \<^item> Config, Lfs_Types: \<^verbatim>\<open>config.go\<close> (structs, defaults, \<^verbatim>\<open>init\<close>) and the structs and interfaces
    of \<^verbatim>\<open>server.go\<close>.
  \<^item> Interfaces: the contracts of the two interfaces as locales.  \<open>ledger_store\<close> says that the table
    of objects only grows, by the announcements of those who may, and that \<^verbatim>\<open>Get\<close> answers from it;
    \<open>meta_store\<close> adds what \<^verbatim>\<open>Get\<close> and \<^verbatim>\<open>Put\<close> answer in each case, \<open>atomic_meta_store\<close> that a failed
    \<^verbatim>\<open>Put\<close> leaves the table alone; \<open>managed_ledger\<close> and \<open>managed_meta_store\<close> add to the first two that
    the account operations do.  \<open>content_store\<close> says what a store
    holds after a \<^verbatim>\<open>Put\<close>; \<open>atomic_content_store\<close> adds that a failed one changes no content.
  \<^item> File_System, Content_Store: files as inodes behind paths, and \<^verbatim>\<open>content_store.go\<close> with the
    key of \<^verbatim>\<open>shared_content_store.go\<close> on top; interprets \<open>atomic_content_store\<close>.
  \<^item> Upload_Race: \<^verbatim>\<open>ContentStore.Put\<close> as its system calls, any number of uploads interleaved;
    refinement to the sequential \<^verbatim>\<open>Put\<close>, termination, what holds of the runs in which uploads
    in flight have different temporary files, the run in which two of one OID lose a content,
    and what a killed server leaves for every later upload.
  \<^item> Ldap_Auth: \<^verbatim>\<open>meta_store_auth.go\<close>, the decoding of the \<^verbatim>\<open>Authorization\<close> header, and
    \<^verbatim>\<open>test_ldap_server\<close>, whose handlers make the LDAP client of the witnesses.
  \<^item> Bolt_Store, Bolt_Types: \<^verbatim>\<open>meta_store.go\<close> with transactions; interprets
    \<open>atomic_meta_store\<close> and \<open>managed_meta_store\<close>; the types of the values in its buckets.
  \<^item> Put_Race: \<^verbatim>\<open>MetaStore.Put\<close> as its Bolt transactions, any number of announcements interleaved;
    refinement to the sequential \<^verbatim>\<open>Put\<close>, what every interleaving keeps, and the run in which
    two announcements of one OID are both told that they created it (Lfs_Concurrent draws the
    consequence for the contents).
  \<^item> Cassandra_Store, Cassandra_Facts: \<^verbatim>\<open>cassandra_meta_store.go\<close> and \<^verbatim>\<open>cassandra_service.go\<close>;
    interprets \<open>managed_meta_store\<close>, as long as queries by key are answered (not the atomic
    contract, which it breaks).
  \<^item> MySQL_Store, MySQL_Ledger: \<^verbatim>\<open>mysql_meta_store.go\<close> and \<^verbatim>\<open>mysql_service.go\<close>; interprets
    \<open>managed_ledger\<close> under the laws of its statements, failures and collation included (not
    \<open>meta_store\<close>: a \<^verbatim>\<open>Put\<close> whose insert failed reports success).
  \<^item> Aws_Store: \<^verbatim>\<open>aws_content_store.go\<close>; interprets \<open>content_store\<close> (not the atomic one: the
    write may have happened when its confirmation fails).
  \<^item> Http, Server: requests, the response writer, the decoding of JSON values into structs, and
    every handler and route of \<^verbatim>\<open>server.go\<close>.  The locale \<open>lfs_core\<close> proves, from \<open>ledger_store\<close>
    and \<open>content_store\<close>, what the handlers do to the stores; \<open>lfs_app\<close>, from \<open>meta_store\<close>, what they answer.
  \<^item> Mgmt: \<^verbatim>\<open>mgmt.go\<close>, after the routes of the API; \<open>serve\<close> is one request to the server, \<open>served\<close>
    a run of requests; the locales \<open>mgmt_core\<close> and \<open>mgmt_app\<close> carry the laws of the handlers to runs.
  \<^item> Lfs_Spec: what the server is for, as a specification of three maps (accepted credentials,
    announced objects, contents) with an executable run function \<open>lfs_run\<close>, and the proof inside
    \<open>lfs_core\<close> and \<open>mgmt_core\<close> that every run of the server is a run of the specification whose
    events come each from its own request.
  \<^item> Handler_Race: the handlers as their calls to the stores, any number of requests interleaved;
    refinement to the handlers, and inside \<open>lfs_core\<close> the refinement of the specification by every
    interleaving.  (Lfs_Concurrent states it of Bolt and files, Lfs_Main of every server.)
  \<^item> Lfs_Server, Lfs_Admin: \<open>mgmt_app\<close> interpreted on Bolt and files, and the properties of that
    server; Lfs_Deployments: the server from its first start, where its contents come from, and
    \<open>mgmt_app\<close> interpreted on Cassandra and S3, with what one failed query does there; Lfs_MySQL: \<open>mgmt_core\<close> interpreted on MySQL and files.
  \<^item> Lfs_Main: the stores behind the two Go interfaces, any of three and either of two, with
    \<open>mgmt_core\<close> interpreted on Bolt or MySQL with files or S3; what holds of every such server that
    \<^verbatim>\<open>main\<close> starts, and of one on Bolt and files that is started again on what it left.
  \<^item> Tracking_Listener, Startup: \<^verbatim>\<open>tracking_listener.go\<close> with the accept loop and the shutdown of
    \<^verbatim>\<open>main.go\<close> as a step relation; the choices and failures of \<^verbatim>\<open>main.go\<close>,
    and how a server that it has started ends.
  \<^item> User_Service: \<^verbatim>\<open>user_service.go\<close> and \<^verbatim>\<open>downloader.go\<close>, a client that the server does not use yet.
  \<^item> Kv_Logger, Request_Log: \<^verbatim>\<open>kvlogger.go\<close> (the line of an entry, the place it names, reading a
    line back, the calls of many requests under the mutex with writes that may fail), and the ids and the log entries of
    requests (\<^verbatim>\<open>ServeHTTP\<close>, \<^verbatim>\<open>logRequest\<close>).  The other definitions leave logging out of their
    results, since nothing reads it.
  \<^item> Go_Helpers: \<^verbatim>\<open>readDir\<close>, \<^verbatim>\<open>attributes\<close> and \<^verbatim>\<open>cloneRequest\<close>, which nothing in the server calls.

  \<^bold>\<open>What is shown.\<close>
  Of the whole server: on Bolt or MySQL, with files or S3, it refines the
  specification, with the handlers' calls interleaved too (on Cassandra and S3 it does while the
  queries by key are answered, and a theorem shows what it does when one fails); a restart keeps
  objects and contents; from its first start no run of requests loses or alters an object or a
  content, contents hash to their OIDs and go back to an announcement; announce, upload and
  download give the content back; answers tell what happened; refused credentials and
  strangers to the management pages change nothing.  Of the stores: what each operation
  does on every branch, errors included; the invariants of the files, of the buckets and of
  the connections; the agreement of the two content stores and of the logins of two
  metadata stores.  Of the code's faults: each is a theorem about the definitions, for
  example interleaved uploads that lose a content, announcements whose race leaves a content
  with another size than the announced one, an OID that leaves the content directory,
  a wildcard in an LDAP login, an object that somebody else's spelling shuts out of MySQL, a shutdown with TLS
  that waits for nobody, a failed Cassandra query that makes the server forget a size, credentials
  that no standard client can send.

  \<^bold>\<open>Bounds and fuel.\<close>
  All functions terminate.  \<open>readDir\<close> has fuel, one unit for each directory on the way down:
  more of it than the tree is deep is enough (\<open>readDir_tree\<close>).  An operation run call by call
  takes the number of its calls, and enough of them is proved enough: as many as the body has
  bytes and five more for an upload, six for a \<^verbatim>\<open>Put\<close> of metadata, two for a handler or two for
  each object of a batch and two more.  Runs of requests, of interleaved calls, of the logger
  and of the listener are inductive relations without a bound.  Sizes are compared as 64-bit
  words, as in the source.

  \<^bold>\<open>Not modelled.\<close>
  The \<^verbatim>\<open>*-rice-box.go\<close> files (generated); the entries that the other files log, as an output of
  their operations; \<^verbatim>\<open>DumpConfig\<close> (reflection by a third-party package, a parameter of the index
  page); \<^verbatim>\<open>Close\<close> of the stores and \<^verbatim>\<open>GOMAXPROCS\<close>; memory and timeouts; concurrency other than of the calls of handlers to the
  stores, of the system calls of uploads, of the transactions of announcements and of the logger.
\<close>

end
